(* ===== verification/LvmmPrelude.thy ===== *)
theory LvmmPrelude
  imports Main "HOL-Library.Word" "HOL-Library.Signed_Division"
begin

text \<open>
  Shared by every component of the development: the names of the machine integer types,
  the faults a C++ operation can end in, the byte image of integers in little-endian order
  (every struct of \<^verbatim>\<open>include/boot.hpp\<close> is packed and copied byte for byte to the guest),
  and the generic facts on sums, lists and words the component proofs rest on.
\<close>

unbundle bit_operations_syntax

named_theorems lvmm_simps \<open>rewrite rules shared by the component proofs\<close>
named_theorems host_simps \<open>unfolding of the host and ioctl layer\<close>

section \<open>Types\<close>

type_synonym u8 = "8 word"
type_synonym u16 = "16 word"
type_synonym u32 = "32 word"
type_synonym u64 = "64 word"

text \<open>
  A \<^verbatim>\<open>char*\<close> that a device handler gets points into the mapped \<^verbatim>\<open>kvm_run\<close> area: the memory
  seen from the pointer, by offset.
\<close>

type_synonym buf = "nat \<Rightarrow> u8"

text \<open>
  How an operation can fail other than by its return code: a thrown
  \<^verbatim>\<open>std::runtime_error\<close>, a failed \<^verbatim>\<open>assert\<close>, an access outside an array or the mapped guest
  memory (undefined behaviour in C++), a call of an empty \<^verbatim>\<open>std::function\<close>, or an allocation
  of more bytes than an address space has.
\<close>

datatype fault = Runtime_Error | Assert_Failed | Out_Of_Bounds | Bad_Function_Call | Bad_Alloc

text \<open>Sequencing of operations that may fault; the first fault ends the sequence.\<close>

definition chain :: "fault + 'a \<Rightarrow> ('a \<Rightarrow> fault + 'b) \<Rightarrow> fault + 'b" where
  "chain x f = (case x of Inl e \<Rightarrow> Inl e | Inr a \<Rightarrow> f a)"

lemma chain_simps [simp]: "chain (Inl e) f = Inl e" "chain (Inr a) f = f a"
  by (simp_all add: chain_def)

lemma chain_eq_Inr [simp]: "chain x f = Inr b \<longleftrightarrow> (\<exists>a. x = Inr a \<and> f a = Inr b)"
  by (cases x) simp_all

lemma Inr_eq_chain [simp]: "Inr b = chain x f \<longleftrightarrow> (\<exists>a. x = Inr a \<and> f a = Inr b)"
  by (cases x) auto

lemma chain_eq_Inl: "chain x f = Inl e \<longleftrightarrow> x = Inl e \<or> (\<exists>a. x = Inr a \<and> f a = Inl e)"
  by (cases x) simp_all

lemma chain_assoc: "chain (chain x f) g = chain x (\<lambda>a. chain (f a) g)"
  by (cases x) simp_all

section \<open>Little-endian byte images\<close>

text \<open>\<open>le_bytes n w\<close> is the memory image of the \<open>8 * n\<close>-bit integer \<open>w\<close> on x86.\<close>

definition le_bytes :: "nat \<Rightarrow> 'a::len word \<Rightarrow> u8 list" where
  "le_bytes n w = map (\<lambda>i. ucast (drop_bit (8 * i) w)) [0..<n]"

fun of_le :: "u8 list \<Rightarrow> 'a::len word" where
  "of_le [] = 0"
| "of_le (b # bs) = ucast b OR push_bit 8 (of_le bs)"

text \<open>Reading a field of \<open>n\<close> bytes off the front of a byte string.\<close>

definition take_le :: "nat \<Rightarrow> u8 list \<Rightarrow> 'a::len word \<times> u8 list" where
  "take_le n bs = (of_le (take n bs), drop n bs)"

lemma length_le_bytes [simp]: "length (le_bytes n w) = n"
  by (simp add: le_bytes_def)

lemma nth_le_bytes [simp]: "i < n \<Longrightarrow> le_bytes n w ! i = ucast (drop_bit (8 * i) w)"
  by (simp add: le_bytes_def)

lemma bit_of_le:
  "bit (of_le bs :: 'a::len word) i \<longleftrightarrow>
     i < LENGTH('a) \<and> i div 8 < length bs \<and> bit (bs ! (i div 8)) (i mod 8)"
proof (induction bs arbitrary: i)
  case Nil
  then show ?case by simp
next
  case (Cons b bs)
  show ?case
  proof (cases "i < 8")
    case True
    then show ?thesis by (auto simp: bit_simps)
  next
    case False
    then obtain j where j: "i = 8 + j" using le_Suc_ex not_less by blast
    have high: "\<not> bit b (8 + j)" using bit_imp_le_length [of b "8 + j"] by auto
    have "(8 + j) div 8 = Suc (j div 8)" "(8 + j) mod 8 = j mod 8" by simp_all
    with high show ?thesis
      by (auto simp: j bit_simps Cons.IH dest: bit_imp_le_length)
  qed
qed

lemma of_le_le_bytes:
  fixes w :: "'a::len word"
  assumes "LENGTH('a) = 8 * n"
  shows "of_le (le_bytes n w) = w"
proof (rule bit_word_eqI)
  fix i assume "i < LENGTH('a)"
  with assms have "i div 8 < n" "8 * (i div 8) + i mod 8 = i" by auto
  with \<open>i < LENGTH('a)\<close> show "bit (of_le (le_bytes n w) :: 'a word) i \<longleftrightarrow> bit w i"
    by (simp add: bit_of_le bit_simps)
qed

lemma le_bytes_of_le:
  assumes "length bs = n" and "LENGTH('a::len) = 8 * n"
  shows "le_bytes n (of_le bs :: 'a word) = bs"
proof (rule nth_equalityI)
  show "length (le_bytes n (of_le bs :: 'a word)) = length bs" using assms by simp
  fix i assume "i < length (le_bytes n (of_le bs :: 'a word))"
  then have i: "i < n" by simp
  show "le_bytes n (of_le bs :: 'a word) ! i = bs ! i"
  proof (rule bit_word_eqI)
    fix j assume "j < LENGTH(8)"
    then have "j < 8" by simp
    with i assms(2) have "8 * i + j < LENGTH('a)" by simp
    moreover from \<open>j < 8\<close> have "(8 * i + j) div 8 = i" "(8 * i + j) mod 8 = j" by auto
    ultimately show "bit (le_bytes n (of_le bs :: 'a word) ! i) j \<longleftrightarrow> bit (bs ! i) j"
      using i assms(1) \<open>j < 8\<close> by (simp add: bit_simps bit_of_le)
  qed
qed

lemma take_le_bytes:
  fixes w :: "'a::len word"
  assumes "LENGTH('a) = 8 * n"
  shows "take_le n (le_bytes n w @ rest) = (w, rest)"
  using assms by (simp add: take_le_def of_le_le_bytes)

lemmas take_le_fields =
  take_le_bytes [where 'a = 8 and n = "Suc 0", simplified]
  take_le_bytes [where 'a = 8 and n = 1, simplified]
  take_le_bytes [where 'a = 16 and n = 2, simplified]
  take_le_bytes [where 'a = 32 and n = 4, simplified]
  take_le_bytes [where 'a = 64 and n = 8, simplified]

lemma le_bytes_u8 [simp]: "le_bytes 1 (b :: u8) = [b]" "le_bytes (Suc 0) (b :: u8) = [b]"
  by (simp_all add: le_bytes_def)

section \<open>Updates of a buffer\<close>

lemma fun_upd_same_eq_iff [simp]: "f(a := x) = f(a := y) \<longleftrightarrow> x = y"
  by (auto dest: fun_upd_eqD)

section \<open>Byte sums\<close>

text \<open>Replacing one byte of a string moves its sum by the difference of the two bytes.\<close>

lemma sum_list_upd_u8:
  fixes xs :: "u8 list"
  shows "i < length xs \<Longrightarrow> sum_list (xs[i := v]) = sum_list xs - xs ! i + v"
  by (induction xs arbitrary: i) (auto simp: algebra_simps split: nat.split)

section \<open>Words\<close>

lemma word_and_mask_less:
  fixes x :: "'a::len word"
  shows "n < LENGTH('a) \<Longrightarrow> x AND mask n < 2 ^ n"
  by (rule and_mask_less_size) (simp add: word_size)

lemma u8_and_7F_less: "(x :: u8) AND 0x7F < 0x80"
proof -
  have "x AND mask 7 < 2 ^ 7" by (rule word_and_mask_less) simp
  then show ?thesis by (simp add: mask_eq_exp_minus_1)
qed

lemma u8_and_7F_id: "(x :: u8) < 0x80 \<Longrightarrow> x AND 0x7F = x"
proof -
  assume "x < 0x80"
  then have "x AND mask 7 = x" by (intro less_mask_eq) simp
  then show ?thesis by (simp add: mask_eq_exp_minus_1)
qed

lemma bit_less_exp:
  fixes x :: "'a::len word"
  assumes "x < 2 ^ n" "bit x i"
  shows "i < n"
proof -
  have "x AND mask n = x" using assms(1) by (rule less_mask_eq)
  then have "bit (x AND mask n) i" using assms(2) by simp
  then show ?thesis by (simp add: bit_simps)
qed

text \<open>A field of a word, selected by a mask, in place or moved down.\<close>

lemma masked_field:
  fixes x :: "'a::len word"
  shows "drop_bit n (x AND push_bit n (mask k)) = take_bit k (drop_bit n x)"
  by (rule bit_word_eqI) (auto simp: bit_simps dest: bit_imp_le_length)

lemma masked_field_in_place:
  fixes x :: "'a::len word"
  shows "x AND push_bit n (mask k) = push_bit n (take_bit k (drop_bit n x))"
  by (rule bit_word_eqI) (auto simp: bit_simps dest: bit_imp_le_length)

text \<open>A counter below a bound does not wrap when it is incremented.\<close>

lemma unat_inc_below:
  fixes i e :: "'a::len word"
  assumes "i < e"
  shows "unat (i + 1) = Suc (unat i)"
proof -
  have "unat i < unat e" using assms by (simp add: word_less_nat_alt)
  moreover have "unat e < 2 ^ LENGTH('a)" by (rule unsigned_less)
  ultimately have "Suc (unat i) < 2 ^ LENGTH('a)" by linarith
  then show ?thesis by (simp add: unat_word_ariths)
qed

lemma inc_below_le_iff:
  fixes i e p :: "'a::len word"
  assumes "i < e"
  shows "i + 1 \<le> p \<longleftrightarrow> i \<le> p \<and> p \<noteq> i"
  by (auto simp: word_le_nat_alt unat_inc_below [OF assms] le_less Suc_le_eq word_unat_eq_iff)

text \<open>A test of one bit by masking.\<close>

lemma u8_mask_bits:
  fixes x :: u8
  shows "x AND 0x01 = 0 \<longleftrightarrow> \<not> bit x 0" "x AND 0x02 = 0 \<longleftrightarrow> \<not> bit x 1"
    "x AND 0x04 = 0 \<longleftrightarrow> \<not> bit x 2" "x AND 0x08 = 0 \<longleftrightarrow> \<not> bit x 3"
    "x AND 0x10 = 0 \<longleftrightarrow> \<not> bit x 4" "x AND 0x80 = 0 \<longleftrightarrow> \<not> bit x 7"
  using and_exp_eq_0_iff_not_bit [of x 0] and_exp_eq_0_iff_not_bit [of x 1]
    and_exp_eq_0_iff_not_bit [of x 2] and_exp_eq_0_iff_not_bit [of x 3]
    and_exp_eq_0_iff_not_bit [of x 4] and_exp_eq_0_iff_not_bit [of x 7]
  by simp_all

lemma less_u16_max_iff: "(p :: u16) < 0xFFFF \<longleftrightarrow> p \<noteq> 0xFFFF"
proof -
  have "(- 1 :: u16) = 0xFFFF" by simp
  then show ?thesis using word_order.not_eq_extremum [of p] by (simp only:)
qed

section \<open>Transition systems\<close>

text \<open>
  A step relation with an invariant: what the run loop, the interleaved serial port and the threads
  of a booted machine share.
\<close>

locale step_invariant =
  fixes step :: "'s \<Rightarrow> 's \<Rightarrow> bool"
    and inv :: "'s \<Rightarrow> bool"
  assumes step_inv: "inv s \<Longrightarrow> step s s' \<Longrightarrow> inv s'"
begin

lemma path_inv:
  assumes "step\<^sup>*\<^sup>* s s'" "inv s"
  shows "inv s'"
  using assms by (induction rule: rtranclp_induct) (auto intro: step_inv)

text \<open>A path either has not begun or has a last step, between states of the invariant.\<close>

lemma path_last:
  assumes "step\<^sup>*\<^sup>* s s'" "inv s"
  obtains "s' = s" | s1 where "step\<^sup>*\<^sup>* s s1" "inv s1" "step s1 s'"
  using assms(1) by (cases rule: rtranclp.cases) (auto intro: path_inv [OF _ assms(2)])

end

end
