(* ===== verification/HostIface.thy ===== *)
theory HostIface
  imports LvmmPrelude
begin

text \<open>
  The layer below every class of the program (\<^verbatim>\<open>include/baseclass.hpp\<close>): the ioctls the VMM
  issues, the structures it exchanges with the kernel (\<^verbatim>\<open>include/vcpu.hpp\<close>) and the two
  wrappers \<^verbatim>\<open>kvmIoctl\<close> and \<^verbatim>\<open>kvmIoctlCtor\<close>.

  The kernel is not part of the repository. It is a parameter \<open>os\<close> of the model: a record of
  functions over a kernel state of any type \<open>'k\<close>, one per system call the program makes. An
  ioctl gets the request with its argument buffer and returns the raw result, the value of
  \<^verbatim>\<open>errno\<close> it leaves on failure, and the buffer as the kernel left it. Diagnostic output to
  \<^verbatim>\<open>std::cout\<close> and \<^verbatim>\<open>std::cerr\<close> is not part of the state (the guest's own serial output is).
\<close>

section \<open>Structures shared with the kernel\<close>

record kvm_segment =
  sd_base :: u64
  sd_limit :: u32
  sd_selector :: u16
  sd_type :: u8
  sd_present :: u8
  sd_dpl :: u8
  sd_db :: u8
  sd_s :: u8
  sd_l :: u8
  sd_g :: u8
  sd_avl :: u8
  sd_unusable :: u8
  sd_padding :: u8

record vcpu_regs =
  rax :: u64
  rbx :: u64
  rcx :: u64
  rdx :: u64
  rsi :: u64
  rdi :: u64
  rsp :: u64
  rbp :: u64
  r8 :: u64
  r9 :: u64
  r10 :: u64
  r11 :: u64
  r12 :: u64
  r13 :: u64
  r14 :: u64
  r15 :: u64
  rip :: u64
  rflags :: u64

record descriptor_table =
  dt_base :: u64
  dt_limit :: u16
  dt_padding :: "u16 list"

record vcpu_sregs =
  seg_cs :: kvm_segment
  seg_ds :: kvm_segment
  seg_es :: kvm_segment
  seg_fs :: kvm_segment
  seg_gs :: kvm_segment
  seg_ss :: kvm_segment
  seg_tr :: kvm_segment
  seg_ldt :: kvm_segment
  tab_gdt :: descriptor_table
  tab_idt :: descriptor_table
  cr0 :: u64
  cr2 :: u64
  cr3 :: u64
  cr4 :: u64
  cr8 :: u64
  efer :: u64
  apic_base :: u64
  interrupt_bitmap :: "u64 list"

text \<open>The members of \<^verbatim>\<open>kvm_cpuid_entry2\<close> that the program reads or writes.\<close>

record cpuid_entry =
  ce_function :: u32
  ce_eax :: u32
  ce_ebx :: u32
  ce_ecx :: u32
  ce_edx :: u32

record kvm_cpuid2 =
  nent :: nat
  entries :: "cpuid_entry list"

text \<open>The exit reasons the program names; every other value falls in its default case.\<close>

datatype exit_reason =
    KVM_EXIT_UNKNOWN
  | KVM_EXIT_INTR
  | KVM_EXIT_DEBUG
  | KVM_EXIT_HLT
  | KVM_EXIT_IO
  | KVM_EXIT_MMIO
  | KVM_EXIT_SHUTDOWN
  | KVM_EXIT_FAIL_ENTRY
  | KVM_EXIT_OTHER nat

text \<open>\<^verbatim>\<open>run->io.direction\<close>, the second index into the port table.\<close>

datatype io_dir = KVM_EXIT_IO_IN | KVM_EXIT_IO_OUT

text \<open>
  The part of the mapped \<^verbatim>\<open>kvm_run\<close> area the program uses. \<open>run_data\<close> is the memory at
  \<^verbatim>\<open>(char*)run + run->io.data_offset\<close>, shared with the kernel. The members for the other exits share
  their storage in the C union; each is read for its own exit reason only.
\<close>

record kvm_run =
  run_exit_reason :: exit_reason
  run_direction :: io_dir
  run_size :: u8
  run_port :: u16
  run_count :: u32
  run_data :: buf
  run_mmio_phys_addr :: u64
  run_mmio_data :: buf
  run_mmio_len :: u32
  run_mmio_is_write :: u8
  run_hw_entry_failure_reason :: u64

record mem_region =
  mr_slot :: u32
  mr_flags :: u32
  mr_guest_phys_addr :: u64
  mr_memory_size :: u64
  mr_userspace_addr :: u64

datatype kvm_cap_id =
    KVM_CAP_IMMEDIATE_EXIT
  | KVM_CAP_NR_MEMSLOTS
  | KVM_CAP_MULTI_ADDRESS_SPACE
  | KVM_CAP_NR_VCPUS
  | KVM_CAP_MAX_VCPUS
  | KVM_CAP_COALESCED_MMIO

section \<open>The requests and the system calls\<close>

text \<open>Every ioctl the program issues, with the argument it passes.\<close>

datatype kvm_req =
    KVM_GET_API_VERSION
  | KVM_CREATE_VM
  | KVM_CHECK_EXTENSION kvm_cap_id
  | KVM_GET_VCPU_MMAP_SIZE
  | KVM_GET_SUPPORTED_CPUID kvm_cpuid2
  | KVM_SET_TSS_ADDR u64
  | KVM_SET_IDENTITY_MAP_ADDR u64
  | KVM_CREATE_IRQCHIP
  | KVM_CREATE_PIT2
  | KVM_CREATE_VCPU int
  | KVM_SET_USER_MEMORY_REGION mem_region
  | KVM_IRQ_LINE u32 u32
  | KVM_RUN kvm_run
  | KVM_GET_REGS vcpu_regs
  | KVM_SET_REGS vcpu_regs
  | KVM_GET_SREGS vcpu_sregs
  | KVM_SET_SREGS vcpu_sregs
  | KVM_SET_CPUID2 kvm_cpuid2
  | KVM_SET_GUEST_DEBUG u32

text \<open>The members of \<^verbatim>\<open>struct tm\<close> that \<^verbatim>\<open>CMOS::Read\<close> uses, as \<^verbatim>\<open>localtime_r\<close> fills them.\<close>

record tm =
  tm_sec :: int
  tm_min :: int
  tm_hour :: int
  tm_mday :: int
  tm_mon :: int
  tm_year :: int
  tm_wday :: int

text \<open>
  The operating system as the program sees it: \<open>os_ioctl fd req\<close>, \<open>os_write b\<close> for
  \<^verbatim>\<open>write(STDOUT_FILENO, &b, 1)\<close> (result and errno), \<open>os_read\<close> for
  \<^verbatim>\<open>read(STDIN_FILENO, &c, 1)\<close> (result and byte), \<open>os_localtime\<close> for the clock, \<open>os_mmap\<close>
  for \<^verbatim>\<open>mmap\<close> of a length (\<open>Inl\<close> of errno for \<^verbatim>\<open>MAP_FAILED\<close>, else the address),
  \<open>os_open_kvm\<close> for \<^verbatim>\<open>open("/dev/kvm", O_RDWR)\<close>, \<open>os_cpuid\<close> for the CPUID instruction by
  leaf (eax, ebx, ecx, edx).
\<close>

record 'k os =
  os_ioctl :: "int \<Rightarrow> kvm_req \<Rightarrow> 'k \<Rightarrow> (int \<times> int \<times> kvm_req) \<times> 'k"
  os_write :: "u8 \<Rightarrow> 'k \<Rightarrow> (int \<times> int) \<times> 'k"
  os_read :: "'k \<Rightarrow> (int \<times> u8) \<times> 'k"
  os_localtime :: "'k \<Rightarrow> tm \<times> 'k"
  os_mmap :: "u64 \<Rightarrow> 'k \<Rightarrow> (int + u64) \<times> 'k"
  os_open_kvm :: "'k \<Rightarrow> (int \<times> int) \<times> 'k"
  os_cpuid :: "u32 \<Rightarrow> u32 \<times> u32 \<times> u32 \<times> u32"

text \<open>The process as far as the classes share it: the kernel's state and \<^verbatim>\<open>errno\<close>.\<close>

record 'k host =
  kern :: 'k
  errno :: int

abbreviation (input) EINTR :: int where "EINTR \<equiv> 4"

abbreviation (input) EAGAIN :: int where "EAGAIN \<equiv> 11"

abbreviation (input) EINVAL :: int where "EINVAL \<equiv> 22"

section \<open>The ioctl wrappers of BaseClass\<close>

text \<open>
  \<^verbatim>\<open>errno = 0; r = ioctl(...); return r < 0 ? -errno : r\<close>. A successful ioctl leaves
  \<^verbatim>\<open>errno\<close> at the 0 it was set to.
\<close>

definition kvmIoctl ::
  "'k os \<Rightarrow> int \<Rightarrow> kvm_req \<Rightarrow> 'k host \<Rightarrow> (int \<times> kvm_req) \<times> 'k host" where
  "kvmIoctl os fd req h =
     (let ((r, e, req'), k') = os_ioctl os fd req (kern h);
          h' = h\<lparr>kern := k', errno := (if r < 0 then e else 0)\<rparr>
      in ((if r < 0 then - errno h' else r, req'), h'))"

text \<open>The constructor variant throws \<^verbatim>\<open>std::runtime_error\<close> where the ioctl fails.\<close>

definition kvmIoctlCtor ::
  "'k os \<Rightarrow> int \<Rightarrow> kvm_req \<Rightarrow> 'k host \<Rightarrow> fault + (int \<times> kvm_req) \<times> 'k host" where
  "kvmIoctlCtor os fd req h =
     (let ((r, e, req'), k') = os_ioctl os fd req (kern h);
          h' = h\<lparr>kern := k', errno := (if r < 0 then e else 0)\<rparr>
      in if r < 0 then Inl Runtime_Error else Inr ((r, req'), h'))"

text \<open>
  What the callers do with the result: \<^verbatim>\<open>if (r < 0) { perror(...); return -errno; }\<close>, then go
  on with \<open>r\<close>.
\<close>

definition ioctl_or_errno ::
  "'k os \<Rightarrow> int \<Rightarrow> kvm_req \<Rightarrow> 'k host \<Rightarrow> (int \<times> kvm_req) \<times> 'k host" where
  "ioctl_or_errno os fd req h =
     (let ((r, req'), h') = kvmIoctl os fd req h
      in ((if r < 0 then - errno h' else r, req'), h'))"

text \<open>The same for the callers that return 0 on success.\<close>

definition ioctl_status :: "'k os \<Rightarrow> int \<Rightarrow> kvm_req \<Rightarrow> 'k host \<Rightarrow> int \<times> 'k host" where
  "ioctl_status os fd req h =
     (let ((r, req'), h') = kvmIoctl os fd req h
      in (if r < 0 then - errno h' else 0, h'))"

text \<open>
  The convention on error returns that the Linux system calls document: a failing ioctl
  leaves a positive \<^verbatim>\<open>errno\<close>.
\<close>

definition errno_positive :: "'k os \<Rightarrow> bool" where
  "errno_positive os \<longleftrightarrow>
     (\<forall>fd req k r e req' k'. os_ioctl os fd req k = ((r, e, req'), k') \<and> r < 0 \<longrightarrow> 0 < e)"

section \<open>What the wrappers guarantee\<close>

lemma kvmIoctl_negative_iff:
  assumes "errno_positive os" and "os_ioctl os fd req (kern h) = ((r, e, req'), k')"
  shows "fst (fst (kvmIoctl os fd req h)) < 0 \<longleftrightarrow> r < 0"
  using assms unfolding errno_positive_def kvmIoctl_def by (force simp: Let_def)

lemma kvmIoctl_status_stable:
  "ioctl_or_errno os fd req h = kvmIoctl os fd req h"
  by (auto simp: ioctl_or_errno_def kvmIoctl_def Let_def split: prod.splits)

lemma ioctl_status_alt:
  "ioctl_status os fd req h =
     (let ((r, req'), h') = kvmIoctl os fd req h in (min r 0, h'))"
  by (auto simp: ioctl_status_def kvmIoctl_def Let_def min_def split: prod.splits)

lemma ioctl_status_nonpos: "fst (ioctl_status os fd req h) \<le> 0"
  by (simp add: ioctl_status_alt Let_def split: prod.splits)

lemma kvmIoctl_ok:
  "os_ioctl os fd req (kern h) = ((r, e, req'), k') \<Longrightarrow> 0 \<le> r \<Longrightarrow>
     kvmIoctl os fd req h = ((r, req'), h\<lparr>kern := k', errno := 0\<rparr>)"
  by (simp add: kvmIoctl_def)

lemma kvmIoctl_fail:
  "os_ioctl os fd req (kern h) = ((r, e, req'), k') \<Longrightarrow> r < 0 \<Longrightarrow>
     kvmIoctl os fd req h = ((- e, req'), h\<lparr>kern := k', errno := e\<rparr>)"
  by (simp add: kvmIoctl_def)

lemma ioctl_status_ok:
  "os_ioctl os fd req (kern h) = ((r, e, req'), k') \<Longrightarrow> 0 \<le> r \<Longrightarrow>
     ioctl_status os fd req h = (0, h\<lparr>kern := k', errno := 0\<rparr>)"
  by (simp add: ioctl_status_def kvmIoctl_ok)

lemma ioctl_status_fail:
  "os_ioctl os fd req (kern h) = ((r, e, req'), k') \<Longrightarrow> r < 0 \<Longrightarrow> 0 < e \<Longrightarrow>
     ioctl_status os fd req h = (- e, h\<lparr>kern := k', errno := e\<rparr>)"
  by (simp add: ioctl_status_def kvmIoctl_fail)

lemmas ioctl_results [host_simps] =
  kvmIoctl_ok kvmIoctl_fail ioctl_status_ok ioctl_status_fail kvmIoctl_status_stable

end
