(* ===== verification/IrqLine.thy ===== *)
theory IrqLine
  imports HostIface
begin

text \<open>
  The interrupt line of the virtual machine: \<^verbatim>\<open>VM::irqLine\<close> and \<^verbatim>\<open>VM::flapIRQLine\<close> of
  \<^verbatim>\<open>src/vm.cpp\<close>. The devices call it through their \<^verbatim>\<open>VM*\<close>; all it needs of the machine is the
  VM's file descriptor.
\<close>

definition irqLine :: "'k os \<Rightarrow> int \<Rightarrow> u32 \<Rightarrow> u32 \<Rightarrow> 'k host \<Rightarrow> int \<times> 'k host" where
  "irqLine os vm_fd irq level h = ioctl_status os vm_fd (KVM_IRQ_LINE irq level) h"

definition flapIRQLine :: "'k os \<Rightarrow> int \<Rightarrow> u32 \<Rightarrow> 'k host \<Rightarrow> int \<times> 'k host" where
  "flapIRQLine os vm_fd irq h =
     (let (r, h1) = irqLine os vm_fd irq 0 h
      in if r \<noteq> 0 then (r, h1)
         else let (r, h2) = irqLine os vm_fd irq 1 h1
              in if r \<noteq> 0 then (r, h2) else (0, h2))"

lemma irqLine_nonpos: "fst (irqLine os vm_fd irq level h) \<le> 0"
  by (simp add: irqLine_def ioctl_status_nonpos)

lemma flapIRQLine_nonpos: "fst (flapIRQLine os vm_fd irq h) \<le> 0"
  using irqLine_nonpos [of os vm_fd irq]
  by (auto simp: flapIRQLine_def Let_def split: prod.splits) (metis fst_conv)+

text \<open>
  An edge for the interrupt controller: where both ioctls succeed the line is driven low and
  then high, in this order and nothing else.
\<close>

lemma flapIRQLine_edge:
  assumes "os_ioctl os vm_fd (KVM_IRQ_LINE irq 0) (kern h) = ((r1, e1, q1), k1)" "0 \<le> r1"
    and "os_ioctl os vm_fd (KVM_IRQ_LINE irq 1) k1 = ((r2, e2, q2), k2)" "0 \<le> r2"
  shows "flapIRQLine os vm_fd irq h = (0, h\<lparr>kern := k2, errno := 0\<rparr>)"
  using assms by (simp add: flapIRQLine_def irqLine_def ioctl_status_ok)

text \<open>If the line cannot be lowered it is not raised.\<close>

lemma flapIRQLine_low_fails:
  assumes "os_ioctl os vm_fd (KVM_IRQ_LINE irq 0) (kern h) = ((r1, e1, q1), k1)" "r1 < 0" "0 < e1"
  shows "flapIRQLine os vm_fd irq h = (- e1, h\<lparr>kern := k1, errno := e1\<rparr>)"
  using assms by (simp add: flapIRQLine_def irqLine_def ioctl_status_fail)

end
