(* ===== verification/IODevice.thy ===== *)
theory IODevice
  imports IrqLine
begin

text \<open>
  The device interface \<^verbatim>\<open>IODev\<close> (\<^verbatim>\<open>include/iodev.hpp\<close>) and its simplest implementation, the
  POST/DMA port range (\<^verbatim>\<open>include/post.hpp\<close>, \<^verbatim>\<open>src/post.cpp\<close>).

  The virtual functions \<^verbatim>\<open>Read\<close> and \<^verbatim>\<open>Write\<close> share a contract, stated as the locale
  \<open>io_device\<close>: on the ports the dispatcher may call them with they do not fault, they keep the
  device's invariant, and they touch no byte of the shared buffer but the first. Every device,
  and the dispatcher itself, is an interpretation; the string-I/O loop of \<^verbatim>\<open>Vcpu::RunOnce\<close> is a
  client of the contract.
\<close>

section \<open>Devices\<close>

record iodev =
  dev_port :: u16
  dev_size :: u8

text \<open>
  A \<^verbatim>\<open>Read\<close> or \<^verbatim>\<open>Write\<close> gets the port, the buffer and the access size, and the state of the
  device and the host; it returns its C result, the buffer and the state.
\<close>

type_synonym 's dev_op = "u16 \<Rightarrow> buf \<Rightarrow> u8 \<Rightarrow> 's \<Rightarrow> fault + (int \<times> buf \<times> 's)"

section \<open>String I/O: the same handler called again and again\<close>

text \<open>
  The loop of the \<^verbatim>\<open>KVM_EXIT_IO\<close> case of \<^verbatim>\<open>Vcpu::RunOnce\<close>: call the handler \<^verbatim>\<open>count\<close> times
  with the same data pointer, stop with 1 at the first call that returns non-zero, else 0.
\<close>

fun io_repeat :: "nat \<Rightarrow> 's dev_op \<Rightarrow> u16 \<Rightarrow> buf \<Rightarrow> u8 \<Rightarrow> 's \<Rightarrow> fault + (int \<times> buf \<times> 's)" where
  "io_repeat 0 f port b sz s = Inr (0, b, s)"
| "io_repeat (Suc n) f port b sz s =
     chain (f port b sz s) (\<lambda>(r, b', s').
       if r \<noteq> 0 then Inr (1, b', s') else io_repeat n f port b' sz s')"

text \<open>A guest session: port accesses one after the other, whatever their results.\<close>

type_synonym access = "io_dir \<times> u16 \<times> buf \<times> u8"

fun io_run :: "'s dev_op \<Rightarrow> 's dev_op \<Rightarrow> access list \<Rightarrow> 's \<Rightarrow> fault + 's" where
  "io_run rd wr [] s = Inr s"
| "io_run rd wr ((d, p, b, n) # as) s =
     chain ((case d of KVM_EXIT_IO_IN \<Rightarrow> rd | KVM_EXIT_IO_OUT \<Rightarrow> wr) p b n s)
       (\<lambda>(r, b', s'). io_run rd wr as s')"

section \<open>The contract\<close>

locale io_device =
  fixes dev_read :: "'s dev_op"
    and dev_write :: "'s dev_op"
    and dev_inv :: "'s \<Rightarrow> bool"
    and port_ok :: "u16 \<Rightarrow> bool"
  assumes read_total: "dev_inv s \<Longrightarrow> port_ok p \<Longrightarrow> \<exists>x. dev_read p b n s = Inr x"
    and write_total: "dev_inv s \<Longrightarrow> port_ok p \<Longrightarrow> \<exists>x. dev_write p b n s = Inr x"
    and read_inv: "dev_inv s \<Longrightarrow> dev_read p b n s = Inr (r, b', s') \<Longrightarrow> dev_inv s'"
    and write_inv: "dev_inv s \<Longrightarrow> dev_write p b n s = Inr (r, b', s') \<Longrightarrow> dev_inv s'"
    and read_frame: "dev_inv s \<Longrightarrow> dev_read p b n s = Inr (r, b', s') \<Longrightarrow> i \<noteq> 0 \<Longrightarrow> b' i = b i"
    and write_buffer: "dev_inv s \<Longrightarrow> dev_write p b n s = Inr (r, b', s') \<Longrightarrow> b' = b"
begin

definition dev_access :: "io_dir \<Rightarrow> 's dev_op" where
  "dev_access d = (case d of KVM_EXIT_IO_IN \<Rightarrow> dev_read | KVM_EXIT_IO_OUT \<Rightarrow> dev_write)"

lemma access_total: "dev_inv s \<Longrightarrow> port_ok p \<Longrightarrow> \<exists>x. dev_access d p b n s = Inr x"
  using read_total write_total by (cases d) (simp_all add: dev_access_def del: split_paired_Ex)

lemma access_inv: "dev_inv s \<Longrightarrow> dev_access d p b n s = Inr (r, b', s') \<Longrightarrow> dev_inv s'"
  by (cases d) (auto simp: dev_access_def intro: read_inv write_inv)

lemma access_frame:
  "dev_inv s \<Longrightarrow> dev_access d p b n s = Inr (r, b', s') \<Longrightarrow> i \<noteq> 0 \<Longrightarrow> b' i = b i"
  by (cases d) (auto simp: dev_access_def dest: read_frame write_buffer)

lemma repeat_total:
  "dev_inv s \<Longrightarrow> port_ok p \<Longrightarrow> \<exists>x. io_repeat c (dev_access d) p b n s = Inr x"
proof (induction c arbitrary: b s)
  case 0
  then show ?case by simp
next
  case (Suc c)
  obtain r b' s' where x: "dev_access d p b n s = Inr (r, b', s')"
    using access_total [OF Suc.prems] by (metis prod_cases3)
  moreover have "\<exists>x. io_repeat c (dev_access d) p b' n s' = Inr x"
    using Suc.IH [OF access_inv [OF Suc.prems(1) x] Suc.prems(2)] .
  ultimately show ?case by auto
qed

lemma repeat_inv:
  "dev_inv s \<Longrightarrow> io_repeat c (dev_access d) p b n s = Inr (r, b', s') \<Longrightarrow> dev_inv s'"
proof (induction c arbitrary: b s)
  case 0
  then show ?case by simp
next
  case (Suc c)
  from Suc.prems(2) obtain r1 b1 s1 where x: "dev_access d p b n s = Inr (r1, b1, s1)"
    and y: "(if r1 \<noteq> 0 then Inr (1, b1, s1)
             else io_repeat c (dev_access d) p b1 n s1) = Inr (r, b', s')"
    by auto
  have "dev_inv s1" using access_inv [OF Suc.prems(1) x] .
  with y Suc.IH [of s1 b1] show ?case by (auto split: if_splits)
qed

lemma repeat_frame:
  "dev_inv s \<Longrightarrow> io_repeat c (dev_access d) p b n s = Inr (r, b', s') \<Longrightarrow> i \<noteq> 0 \<Longrightarrow>
     b' i = b i"
proof (induction c arbitrary: b s)
  case 0
  then show ?case by simp
next
  case (Suc c)
  from Suc.prems(2) obtain r1 b1 s1 where x: "dev_access d p b n s = Inr (r1, b1, s1)"
    and y: "(if r1 \<noteq> 0 then Inr (1, b1, s1)
             else io_repeat c (dev_access d) p b1 n s1) = Inr (r, b', s')"
    by auto
  have "dev_inv s1" using access_inv [OF Suc.prems(1) x] .
  with y Suc.IH Suc.prems(3) have "b' i = b1 i" by (auto split: if_splits)
  then show ?case using access_frame [OF Suc.prems(1) x Suc.prems(3)] by simp
qed

lemma repeat_out_buffer:
  "dev_inv s \<Longrightarrow> io_repeat c (dev_access KVM_EXIT_IO_OUT) p b n s = Inr (r, b', s') \<Longrightarrow> b' = b"
proof (induction c arbitrary: s)
  case 0
  then show ?case by simp
next
  case (Suc c)
  from Suc.prems(2) obtain r1 b1 s1 where x: "dev_access KVM_EXIT_IO_OUT p b n s = Inr (r1, b1, s1)"
    and y: "(if r1 \<noteq> 0 then Inr (1, b1, s1)
             else io_repeat c (dev_access KVM_EXIT_IO_OUT) p b1 n s1) = Inr (r, b', s')"
    by auto
  have "b1 = b" using x write_buffer [OF Suc.prems(1)] by (simp add: dev_access_def)
  with y Suc.IH [OF access_inv [OF Suc.prems(1) x]] show ?case by (auto split: if_splits)
qed

lemma repeat_result: "io_repeat c (dev_access d) p b n s = Inr (r, b', s') \<Longrightarrow> r = 0 \<or> r = 1"
  by (induction c arbitrary: b s) (auto split: if_splits prod.splits)

lemma run_step:
  "io_run dev_read dev_write ((d, p, b, n) # as) s =
     chain (dev_access d p b n s) (\<lambda>(r, b', s'). io_run dev_read dev_write as s')"
  by (simp add: dev_access_def)

lemma run_inv:
  "dev_inv s \<Longrightarrow> io_run dev_read dev_write as s = Inr s' \<Longrightarrow> dev_inv s'"
proof (induction as arbitrary: s)
  case Nil
  then show ?case by simp
next
  case (Cons a as)
  obtain d p b n where a: "a = (d, p, b, n)" by (cases a)
  from Cons.prems(2) obtain r b1 s1 where "dev_access d p b n s = Inr (r, b1, s1)"
    and "io_run dev_read dev_write as s1 = Inr s'"
    unfolding a run_step by auto
  then show ?case using Cons.IH access_inv [OF Cons.prems(1)] by blast
qed

lemma run_total:
  "dev_inv s \<Longrightarrow> (\<And>d p b n. (d, p, b, n) \<in> set as \<Longrightarrow> port_ok p) \<Longrightarrow>
     \<exists>s'. io_run dev_read dev_write as s = Inr s'"
proof (induction as arbitrary: s)
  case Nil
  then show ?case by simp
next
  case (Cons a as)
  obtain d p b n where a: "a = (d, p, b, n)" by (cases a)
  with Cons.prems(2) have "port_ok p" by auto
  then obtain r b1 s1 where x: "dev_access d p b n s = Inr (r, b1, s1)"
    using access_total [OF Cons.prems(1)] by (metis prod_cases3)
  have "\<exists>s'. io_run dev_read dev_write as s1 = Inr s'"
    by (rule Cons.IH [OF access_inv [OF Cons.prems(1) x]]) (use Cons.prems(2) in auto)
  then show ?case unfolding a run_step x by simp
qed

end

section \<open>The POST port range\<close>

abbreviation (input) PIO_PORT_POST_START :: u16 where "PIO_PORT_POST_START \<equiv> 0x80"

abbreviation (input) PIO_PORT_POST_SIZE :: u8 where "PIO_PORT_POST_SIZE \<equiv> 0xA0"

definition Post :: iodev where
  "Post = \<lparr>dev_port = PIO_PORT_POST_START, dev_size = PIO_PORT_POST_SIZE\<rparr>"

definition post_Read :: "'s dev_op" where
  "post_Read port b sz s = Inr (0, b, s)"

definition post_Write :: "'s dev_op" where
  "post_Write port b sz s = Inr (0, b, s)"

interpretation post: io_device post_Read post_Write "\<lambda>_. True" "\<lambda>_. True"
  by unfold_locales (simp_all add: post_Read_def post_Write_def)

end
