(* ===== verification/SampleHost.thy ===== *)
theory SampleHost
  imports HostIface
begin

text \<open>
  A concrete operating system for the witnesses: the parameter \<open>os\<close> of the model instantiated
  with functions that compute. It keeps the registers it is given, feeds standard input from a
  list, collects standard output, logs every ioctl, and answers \<^verbatim>\<open>KVM_RUN\<close> from a script of
  exits (a halt once the script has ended). It models no code of the repository.
\<close>

record sample_kernel =
  sk_log :: "(int \<times> kvm_req) list"
  sk_stdin :: "u8 list"
  sk_stdout :: "u8 list"
  sk_regs :: vcpu_regs
  sk_sregs :: vcpu_sregs
  sk_exits :: "kvm_run list"

definition sample_segment :: kvm_segment where
  "sample_segment = \<lparr>sd_base = 0xFFFF0000, sd_limit = 0xFFFF, sd_selector = 0xF000, sd_type = 11,
     sd_present = 1, sd_dpl = 0, sd_db = 0, sd_s = 1, sd_l = 0, sd_g = 0, sd_avl = 0,
     sd_unusable = 0, sd_padding = 0\<rparr>"

definition sample_table :: descriptor_table where
  "sample_table = \<lparr>dt_base = 0, dt_limit = 0xFFFF, dt_padding = [0, 0, 0]\<rparr>"

definition sample_sregs :: vcpu_sregs where
  "sample_sregs = \<lparr>seg_cs = sample_segment, seg_ds = sample_segment, seg_es = sample_segment,
     seg_fs = sample_segment, seg_gs = sample_segment, seg_ss = sample_segment, seg_tr = sample_segment,
     seg_ldt = sample_segment, tab_gdt = sample_table, tab_idt = sample_table, cr0 = 0x60000010, cr2 = 0,
     cr3 = 0, cr4 = 0, cr8 = 0, efer = 0, apic_base = 0xFEE00900,
     interrupt_bitmap = [0, 0, 0, 0]\<rparr>"

definition sample_regs :: vcpu_regs where
  "sample_regs = \<lparr>rax = 0, rbx = 0, rcx = 0, rdx = 0x600, rsi = 0, rdi = 0, rsp = 0, rbp = 0,
     r8 = 0, r9 = 0, r10 = 0, r11 = 0, r12 = 0, r13 = 0, r14 = 0, r15 = 0, rip = 0xFFF0,
     rflags = 2\<rparr>"

definition sample_kernel :: "u8 list \<Rightarrow> kvm_run list \<Rightarrow> sample_kernel" where
  "sample_kernel input script = \<lparr>sk_log = [], sk_stdin = input, sk_stdout = [],
     sk_regs = sample_regs, sk_sregs = sample_sregs, sk_exits = script\<rparr>"

fun sample_answer ::
  "kvm_req \<Rightarrow> sample_kernel \<Rightarrow> (int \<times> int \<times> kvm_req) \<times> sample_kernel" where
  "sample_answer (KVM_GET_REGS r) k = ((0, 0, KVM_GET_REGS (sk_regs k)), k)"
| "sample_answer (KVM_SET_REGS r) k = ((0, 0, KVM_SET_REGS r), k\<lparr>sk_regs := r\<rparr>)"
| "sample_answer (KVM_GET_SREGS r) k = ((0, 0, KVM_GET_SREGS (sk_sregs k)), k)"
| "sample_answer (KVM_SET_SREGS r) k = ((0, 0, KVM_SET_SREGS r), k\<lparr>sk_sregs := r\<rparr>)"
| "sample_answer (KVM_RUN run) k =
     (case sk_exits k of
        [] \<Rightarrow> ((0, 0, KVM_RUN (run\<lparr>run_exit_reason := KVM_EXIT_HLT\<rparr>)), k)
      | x # xs \<Rightarrow> ((0, 0, KVM_RUN x), k\<lparr>sk_exits := xs\<rparr>))"
| "sample_answer KVM_CREATE_VM k = ((4, 0, KVM_CREATE_VM), k)"
| "sample_answer (KVM_CREATE_VCPU i) k = ((5 + \<bar>i\<bar>, 0, KVM_CREATE_VCPU i), k)"
| "sample_answer (KVM_CHECK_EXTENSION c) k = ((8, 0, KVM_CHECK_EXTENSION c), k)"
| "sample_answer KVM_GET_API_VERSION k = ((12, 0, KVM_GET_API_VERSION), k)"
| "sample_answer KVM_GET_VCPU_MMAP_SIZE k = ((12288, 0, KVM_GET_VCPU_MMAP_SIZE), k)"
| "sample_answer (KVM_GET_SUPPORTED_CPUID c) k =
     ((0, 0, KVM_GET_SUPPORTED_CPUID (c\<lparr>nent := 0\<rparr>)), k)"
| "sample_answer req k = ((0, 0, req), k)"

definition sample_now :: tm where
  "sample_now = \<lparr>tm_sec = 42, tm_min = 7, tm_hour = 23, tm_mday = 31, tm_mon = 11,
     tm_year = 123, tm_wday = 0\<rparr>"

definition sample_os :: "sample_kernel os" where
  "sample_os = \<lparr>
     os_ioctl = (\<lambda>fd req k. sample_answer req (k\<lparr>sk_log := sk_log k @ [(fd, req)]\<rparr>)),
     os_write = (\<lambda>x k. ((1, 0), k\<lparr>sk_stdout := sk_stdout k @ [x]\<rparr>)),
     os_read = (\<lambda>k. case sk_stdin k of [] \<Rightarrow> ((0, 0), k)
                    | x # xs \<Rightarrow> ((1, x), k\<lparr>sk_stdin := xs\<rparr>)),
     os_localtime = (\<lambda>k. (sample_now, k)),
     os_mmap = (\<lambda>len k. (Inr 0x7F0000000000, k)),
     os_open_kvm = (\<lambda>k. ((3, 0), k)),
     os_cpuid = (\<lambda>leaf. if leaf = 0 then (0x16, 0x756e6547, 0x6c65746e, 0x49656e69)
                        else (0, 0, 0x20, 0))\<rparr>"

definition sample_host :: "u8 list \<Rightarrow> kvm_run list \<Rightarrow> sample_kernel host" where
  "sample_host input script = \<lparr>kern = sample_kernel input script, errno = 0\<rparr>"

lemma sample_answer_ok: "sample_answer req k = ((r, e, req'), k') \<Longrightarrow> 0 \<le> r"
  by (induction req k rule: sample_answer.induct) (auto split: list.splits)

lemma sample_errno_positive: "errno_positive sample_os"
  by (auto simp: errno_positive_def sample_os_def dest: sample_answer_ok)

lemma sample_simps:
  "os_ioctl sample_os fd req k = sample_answer req (k\<lparr>sk_log := sk_log k @ [(fd, req)]\<rparr>)"
  "os_write sample_os x k = ((1, 0), k\<lparr>sk_stdout := sk_stdout k @ [x]\<rparr>)"
  "os_localtime sample_os k = (sample_now, k)"
  "os_mmap sample_os len k = (Inr 0x7F0000000000, k)"
  "os_open_kvm sample_os k = ((3, 0), k)"
  by (simp_all add: sample_os_def)

end
