(* ===== verification/Cmos.thy ===== *)
theory Cmos
  imports IODevice SampleHost
begin

text \<open>
  The CMOS memory and real-time clock at ports 0x70 and 0x71 (\<^verbatim>\<open>include/cmos.hpp\<close>,
  \<^verbatim>\<open>src/cmos.cpp\<close>). Its state is the selected index and 128 bytes of memory; the clock
  registers are computed from \<^verbatim>\<open>localtime_r\<close> at every read.
\<close>

section \<open>Constants\<close>

abbreviation (input) PIO_PORT_CMOS_START :: u16 where "PIO_PORT_CMOS_START \<equiv> 0x70"

abbreviation (input) PIO_PORT_CMOS_SIZE :: u8 where "PIO_PORT_CMOS_SIZE \<equiv> 0x2"

abbreviation (input) PIO_PORT_CMOS_INDEX :: u16 where "PIO_PORT_CMOS_INDEX \<equiv> PIO_PORT_CMOS_START"

abbreviation (input) PIO_PORT_CMOS_DATA :: u16 where "PIO_PORT_CMOS_DATA \<equiv> PIO_PORT_CMOS_START + 1"

abbreviation (input) CMOS_INDEX_MASK :: u8 where "CMOS_INDEX_MASK \<equiv> 0x7F"

abbreviation (input) CMOS_MEM_SIZE :: nat where "CMOS_MEM_SIZE \<equiv> 128"

abbreviation (input) CMOS_REG_SEC :: u8 where "CMOS_REG_SEC \<equiv> 0x00"

abbreviation (input) CMOS_REG_MIN :: u8 where "CMOS_REG_MIN \<equiv> 0x02"

abbreviation (input) CMOS_REG_HOUR :: u8 where "CMOS_REG_HOUR \<equiv> 0x04"

abbreviation (input) CMOS_REG_WEEKD :: u8 where "CMOS_REG_WEEKD \<equiv> 0x06"

abbreviation (input) CMOS_REG_MDAY :: u8 where "CMOS_REG_MDAY \<equiv> 0x07"

abbreviation (input) CMOS_REG_MONTH :: u8 where "CMOS_REG_MONTH \<equiv> 0x08"

abbreviation (input) CMOS_REG_YEAR :: u8 where "CMOS_REG_YEAR \<equiv> 0x09"

abbreviation (input) CMOS_REG_STAT_A :: u8 where "CMOS_REG_STAT_A \<equiv> 0x0A"

abbreviation (input) CMOS_REG_STAT_B :: u8 where "CMOS_REG_STAT_B \<equiv> 0x0B"

abbreviation (input) CMOS_REG_STAT_C :: u8 where "CMOS_REG_STAT_C \<equiv> 0x0C"

abbreviation (input) CMOS_REG_STAT_D :: u8 where "CMOS_REG_STAT_D \<equiv> 0x0D"

abbreviation (input) CMOS_REG_SHUTDOWN :: u8 where "CMOS_REG_SHUTDOWN \<equiv> 0x0F"

abbreviation (input) CMOS_REG_CENTURY :: u8 where "CMOS_REG_CENTURY \<equiv> 0x32"

abbreviation (input) CMOS_REG_STAT_A_AVL :: u8 where "CMOS_REG_STAT_A_AVL \<equiv> push_bit 7 0"

abbreviation (input) CMOS_REG_STAT_A_DV1 :: u8 where "CMOS_REG_STAT_A_DV1 \<equiv> push_bit 4 2"

abbreviation (input) CMOS_REG_STAT_A_RS2 :: u8 where "CMOS_REG_STAT_A_RS2 \<equiv> push_bit 2 1"

abbreviation (input) CMOS_REG_STAT_A_RS1 :: u8 where "CMOS_REG_STAT_A_RS1 \<equiv> push_bit 1 1"

abbreviation (input) CMOS_REG_STAT_B_24H :: u8 where "CMOS_REG_STAT_B_24H \<equiv> push_bit 1 1"

abbreviation (input) CMOS_REG_STAT_D_VRB :: u8 where "CMOS_REG_STAT_D_VRB \<equiv> push_bit 7 1"

abbreviation (input) CMOS_DT_MAX :: u8 where "CMOS_DT_MAX \<equiv> 99"

section \<open>State and operations\<close>

record cmos =
  cmos_index :: u8
  cmos_data :: "u8 list"

text \<open>
  The constructor zeroes \<^verbatim>\<open>data\<close> and leaves \<^verbatim>\<open>index\<close> uninitialised: its first value is an
  argument of the model.
\<close>

definition CMOS :: iodev where
  "CMOS = \<lparr>dev_port = PIO_PORT_CMOS_START, dev_size = PIO_PORT_CMOS_SIZE\<rparr>"

definition cmos_new :: "u8 \<Rightarrow> cmos" where
  "cmos_new indeterminate = \<lparr>cmos_index = indeterminate, cmos_data = replicate CMOS_MEM_SIZE 0\<rparr>"

definition bin_to_bcd :: "u8 \<Rightarrow> int" where
  "bin_to_bcd bin =
     (if bin > CMOS_DT_MAX then 1
      else push_bit 4 (uint bin div 10) OR (uint bin mod 10))"

text \<open>A clock register: \<^verbatim>\<open>*data_ptr = bin_to_bcd(static_cast<uint8_t>(...))\<close>.\<close>

definition bcd_of_int :: "int \<Rightarrow> u8" where
  "bcd_of_int i = word_of_int (bin_to_bcd (word_of_int i))"

text \<open>The inner switch of \<^verbatim>\<open>CMOS::Read\<close>: the value of the selected register.\<close>

definition cmos_reg :: "tm \<Rightarrow> cmos \<Rightarrow> fault + u8" where
  "cmos_reg now c =
     (let index = cmos_index c in
      if index = CMOS_REG_SEC then Inr (bcd_of_int (tm_sec now))
      else if index = CMOS_REG_MIN then Inr (bcd_of_int (tm_min now))
      else if index = CMOS_REG_HOUR then Inr (bcd_of_int (tm_hour now))
      else if index = CMOS_REG_WEEKD then Inr (bcd_of_int (tm_wday now))
      else if index = CMOS_REG_MDAY then Inr (bcd_of_int (tm_mday now))
      else if index = CMOS_REG_MONTH then Inr (bcd_of_int (tm_mon now))
      else if index = CMOS_REG_YEAR then Inr (bcd_of_int (tm_year now smod 100))
      else if index = CMOS_REG_STAT_A then
        Inr (CMOS_REG_STAT_A_AVL OR CMOS_REG_STAT_A_DV1 OR CMOS_REG_STAT_A_RS2
             OR CMOS_REG_STAT_A_RS1)
      else if index = CMOS_REG_STAT_B then Inr CMOS_REG_STAT_B_24H
      else if index = CMOS_REG_STAT_C then Inr 0
      else if index = CMOS_REG_STAT_D then Inr CMOS_REG_STAT_D_VRB
      else if index = CMOS_REG_CENTURY then Inr (bcd_of_int ((tm_year now + 1900) sdiv 100))
      else if unat index < CMOS_MEM_SIZE then Inr (cmos_data c ! unat index)
      else Inl Out_Of_Bounds)"

definition cmos_Read :: "'k os \<Rightarrow> (cmos \<times> 'k host) dev_op" where
  "cmos_Read os port b sz s =
     (let (c, h) = s in
      if sz \<noteq> 1 then Inr (1, b, s)
      else
        let (now, k') = os_localtime os (kern h); h' = h\<lparr>kern := k'\<rparr> in
        if port = PIO_PORT_CMOS_INDEX then Inr (0, b(0 := cmos_index c), (c, h'))
        else if port = PIO_PORT_CMOS_DATA then
          chain (cmos_reg now c) (\<lambda>v.
            Inr (0, b(0 := v), (c\<lparr>cmos_index := CMOS_REG_STAT_D\<rparr>, h')))
        else Inr (1, b, (c, h')))"

definition cmos_Write :: "'k os \<Rightarrow> (cmos \<times> 'k host) dev_op" where
  "cmos_Write os port b sz s =
     (let (c, h) = s in
      if sz \<noteq> 1 then Inr (1, b, s)
      else if port = PIO_PORT_CMOS_INDEX then
        Inr (0, b, (c\<lparr>cmos_index := b 0 AND CMOS_INDEX_MASK\<rparr>, h))
      else if port = PIO_PORT_CMOS_DATA then
        (if cmos_index c = CMOS_REG_SHUTDOWN \<and> b 0 = 0 then
           Inr (0, b, (c\<lparr>cmos_index := CMOS_REG_STAT_D\<rparr>, h))
         else if unat (cmos_index c) < CMOS_MEM_SIZE then
           Inr (0, b, (c\<lparr>cmos_data := (cmos_data c)[unat (cmos_index c) := b 0],
                        cmos_index := CMOS_REG_STAT_D\<rparr>, h))
         else Inl Out_Of_Bounds)
      else Inr (1, b, s))"

section \<open>The invariant\<close>

definition cmos_inv :: "cmos \<Rightarrow> bool" where
  "cmos_inv c \<longleftrightarrow> cmos_index c < 0x80 \<and> length (cmos_data c) = CMOS_MEM_SIZE"

lemma cmos_inv_new: "i < 0x80 \<Longrightarrow> cmos_inv (cmos_new i)"
  by (simp add: cmos_inv_def cmos_new_def)

lemma cmos_inv_index: "cmos_inv c \<Longrightarrow> unat (cmos_index c) < CMOS_MEM_SIZE"
  by (simp add: cmos_inv_def word_less_nat_alt)

lemma cmos_inv_updates:
  "cmos_inv c \<Longrightarrow> i < 0x80 \<Longrightarrow> cmos_inv (c\<lparr>cmos_index := i\<rparr>)"
  "cmos_inv c \<Longrightarrow> cmos_inv (c\<lparr>cmos_data := (cmos_data c)[j := v]\<rparr>)"
  by (simp_all add: cmos_inv_def)

lemma cmos_reg_total: "cmos_inv c \<Longrightarrow> \<exists>v. cmos_reg now c = Inr v"
  by (simp add: cmos_reg_def Let_def cmos_inv_index)

text \<open>The shapes of the results, shared by the proofs below.\<close>

lemma cmos_Read_cases:
  assumes "cmos_Read os p b n (c, h) = Inr (r, b', (c', h'))"
  shows "(c' = c \<or> c' = c\<lparr>cmos_index := CMOS_REG_STAT_D\<rparr>) \<and> (\<exists>v. b' = b(0 := v))"
  using assms
  by (auto simp: cmos_Read_def Let_def split: if_splits prod.splits
      intro: exI [of _ "b 0"])

lemma cmos_Write_buffer: "cmos_Write os p b n s = Inr (r, b', s') \<Longrightarrow> b' = b"
  by (auto simp: cmos_Write_def Let_def split: if_splits prod.splits)

lemma cmos_Write_inv:
  "cmos_inv c \<Longrightarrow> cmos_Write os p b n (c, h) = Inr (r, b', (c', h')) \<Longrightarrow> cmos_inv c'"
  by (auto simp: cmos_Write_def Let_def cmos_inv_def u8_and_7F_less split: if_splits)

interpretation cmos: io_device "cmos_Read os" "cmos_Write os" "\<lambda>s. cmos_inv (fst s)" "\<lambda>_. True"
  for os :: "'k os"
proof
  fix s :: "cmos \<times> 'k host" and s' p b n r b' and i :: nat
  show "\<exists>x. cmos_Read os p b n s = Inr x" if "cmos_inv (fst s)"
    using cmos_reg_total [OF that]
    by (cases s) (auto simp: cmos_Read_def Let_def split: prod.splits)
  show "\<exists>x. cmos_Write os p b n s = Inr x" if "cmos_inv (fst s)"
    using cmos_inv_index [OF that] by (cases s) (auto simp: cmos_Write_def Let_def)
  show "cmos_inv (fst s')" if "cmos_inv (fst s)" "cmos_Read os p b n s = Inr (r, b', s')"
    using that cmos_Read_cases [of os p b n "fst s" "snd s" r b' "fst s'" "snd s'"]
    by (auto simp: cmos_inv_def)
  show "cmos_inv (fst s')" if "cmos_inv (fst s)" "cmos_Write os p b n s = Inr (r, b', s')"
    using that cmos_Write_inv [of "fst s" os p b n "snd s" r b' "fst s'" "snd s'"] by simp
  show "b' i = b i" if "cmos_Read os p b n s = Inr (r, b', s')" "i \<noteq> 0"
    using that cmos_Read_cases [of os p b n "fst s" "snd s" r b' "fst s'" "snd s'"] by auto
  show "b' = b" if "cmos_Write os p b n s = Inr (r, b', s')"
    using that by (rule cmos_Write_buffer)
qed

section \<open>What the guest sees\<close>

text \<open>The guest's way to read a register: select it at 0x70, read 0x71.\<close>

definition cmos_select_read ::
  "'k os \<Rightarrow> u8 \<Rightarrow> buf \<Rightarrow> cmos \<times> 'k host \<Rightarrow> fault + (int \<times> buf \<times> cmos \<times> 'k host)" where
  "cmos_select_read os reg b s =
     chain (cmos_Write os PIO_PORT_CMOS_INDEX (\<lambda>_. reg) 1 s)
       (\<lambda>(r, b', s'). cmos_Read os PIO_PORT_CMOS_DATA b 1 s')"

text \<open>Selecting a register and storing a byte in it.\<close>

definition cmos_select_write ::
  "'k os \<Rightarrow> u8 \<Rightarrow> u8 \<Rightarrow> cmos \<times> 'k host \<Rightarrow> fault + (int \<times> buf \<times> cmos \<times> 'k host)" where
  "cmos_select_write os reg v s =
     chain (cmos_Write os PIO_PORT_CMOS_INDEX (\<lambda>_. reg) 1 s)
       (\<lambda>(r, b', s'). cmos_Write os PIO_PORT_CMOS_DATA (\<lambda>_. v) 1 s')"

lemma cmos_select_read_eq:
  assumes "os_localtime os (kern h) = (now, k')"
  shows "cmos_select_read os reg b (c, h) =
     chain (cmos_reg now (c\<lparr>cmos_index := reg AND CMOS_INDEX_MASK\<rparr>)) (\<lambda>v.
       Inr (0, b(0 := v), c\<lparr>cmos_index := CMOS_REG_STAT_D\<rparr>, h\<lparr>kern := k'\<rparr>))"
  using assms by (simp add: cmos_select_read_def cmos_Write_def cmos_Read_def)

text \<open>The number a BCD byte stands for.\<close>

definition bcd_value :: "u8 \<Rightarrow> int" where
  "bcd_value v = 10 * uint (drop_bit 4 v) + uint (v AND 0xF)"

lemma bin_to_bcd_eq: "b \<le> 99 \<Longrightarrow> bin_to_bcd b = 16 * (uint b div 10) + uint b mod 10"
proof -
  assume "b \<le> 99"
  have "take_bit 4 (uint b mod 10) = uint b mod 10"
    by (simp add: take_bit_eq_mod)
  with \<open>b \<le> 99\<close> concat_bit_eq [of 4 "uint b mod 10" "uint b div 10"]
  show ?thesis
    by (simp add: bin_to_bcd_def not_less concat_bit_def push_bit_eq_mult or.commute)
qed

lemma bcd_of_int_uint:
  assumes "0 \<le> i" "i \<le> 99"
  shows "uint (bcd_of_int i) = 16 * (i div 10) + i mod 10"
proof -
  have u: "uint (word_of_int i :: u8) = i"
    using assms by (simp add: unsigned_of_int take_bit_eq_mod)
  then have "(word_of_int i :: u8) \<le> 99" using assms by (simp add: word_le_def)
  then have "bin_to_bcd (word_of_int i) = 16 * (i div 10) + i mod 10"
    using bin_to_bcd_eq u by metis
  moreover have "16 * (i div 10) + i mod 10 < 256" "0 \<le> 16 * (i div 10) + i mod 10"
    using assms by (linarith, simp add: pos_imp_zdiv_nonneg_iff)
  ultimately show ?thesis
    by (simp only: bcd_of_int_def unsigned_of_int take_bit_eq_mod) simp
qed

lemma bcd_value_uint: "bcd_value v = 10 * (uint v div 16) + uint v mod 16"
proof -
  have "v AND 0xF = take_bit 4 v" by (simp add: take_bit_eq_mask mask_eq_exp_minus_1)
  then show ?thesis
    by (simp add: bcd_value_def unsigned_drop_bit_eq drop_bit_eq_div unsigned_take_bit_eq
        take_bit_eq_mod uint_div uint_mod)
qed

lemma bcd_value_of_int: "0 \<le> i \<Longrightarrow> i \<le> 99 \<Longrightarrow> bcd_value (bcd_of_int i) = i"
  by (simp add: bcd_value_uint bcd_of_int_uint) 

section \<open>Properties\<close>

text \<open>C31: Selecting one of the six clock registers (seconds, minutes, hours, weekday, day of the
  month, month) at port 0x70 and reading port 0x71 returns a BCD byte that decodes to the
  matching member of \<^verbatim>\<open>struct tm\<close>, and moves the selection back to register 0x0D. (The month
  byte is \<^verbatim>\<open>tm_mon\<close> itself, which counts from 0.)\<close>

theorem cmos_clock_bcd:
  assumes "os_localtime os (kern h) = (now, k')"
    and "(reg, field) \<in> {(CMOS_REG_SEC, tm_sec now), (CMOS_REG_MIN, tm_min now),
           (CMOS_REG_HOUR, tm_hour now), (CMOS_REG_WEEKD, tm_wday now),
           (CMOS_REG_MDAY, tm_mday now), (CMOS_REG_MONTH, tm_mon now)}"
    and "0 \<le> field" "field \<le> 99"
  shows "\<exists>v. cmos_select_read os reg b (c, h) =
           Inr (0, b(0 := v), c\<lparr>cmos_index := CMOS_REG_STAT_D\<rparr>, h\<lparr>kern := k'\<rparr>)
         \<and> bcd_value v = field"
proof -
  have "cmos_reg now (c\<lparr>cmos_index := reg AND CMOS_INDEX_MASK\<rparr>) = Inr (bcd_of_int field)"
    using assms(2) by (auto simp: cmos_reg_def)
  then show ?thesis
    using assms by (simp add: cmos_select_read_eq bcd_value_of_int)
qed

theorem cmos_clock_bcd_witness:
  "\<exists>v. cmos_select_read sample_os 0 (\<lambda>_. 0) (cmos_new 200, sample_host [] []) =
         Inr (0, (\<lambda>_. 0)(0 := v), (cmos_new 200)\<lparr>cmos_index := CMOS_REG_STAT_D\<rparr>, sample_host [] [])
       \<and> bcd_value v = 42"
  using cmos_clock_bcd [of sample_os "sample_host [] []" sample_now "sample_kernel [] []" 0 42
      "\<lambda>_. 0" "cmos_new 200"]
  by (simp add: sample_simps sample_host_def sample_now_def)

text \<open>The year and century registers together give the full year: for a year from 1900 to
  9999 the two BCD bytes read through them decode to its last two digits and its first two.\<close>

lemma cmos_year_century:
  assumes "os_localtime os (kern h) = (now, k')" "0 \<le> tm_year now" "tm_year now + 1900 \<le> 9999"
  shows "\<exists>y c100 s1 s2.
           cmos_select_read os CMOS_REG_YEAR b (c, h) = Inr (0, b(0 := y), s1)
         \<and> cmos_select_read os CMOS_REG_CENTURY b (c, h) = Inr (0, b(0 := c100), s2)
         \<and> 100 * bcd_value c100 + bcd_value y = tm_year now + 1900"
proof -
  let ?y = "tm_year now"
  have y: "?y smod 100 = ?y mod 100" and c: "(?y + 1900) sdiv 100 = (?y + 1900) div 100"
    using assms(2) by (simp_all add: signed_divide_int_def signed_modulo_int_def
        zsgn_def minus_div_mult_eq_mod)
  have "bcd_value (bcd_of_int (?y mod 100)) = ?y mod 100"
    by (rule bcd_value_of_int) (simp_all add: order.strict_implies_order less_imp_le)
  moreover have "bcd_value (bcd_of_int ((?y + 1900) div 100)) = (?y + 1900) div 100"
    using assms(2,3) by (intro bcd_value_of_int) linarith+
  moreover have "100 * ((?y + 1900) div 100) + ?y mod 100 = ?y + 1900"
    using div_mult_self1 [of 100 ?y 19] mult_div_mod_eq [of 100 ?y] by simp
  ultimately show ?thesis
    using assms(1) by (simp add: cmos_select_read_eq cmos_reg_def y c)
qed

text \<open>C30: CMOS memory is memory: a byte stored in a register that is neither a clock nor a status
  register is what the guest reads back from it, whatever the clock does; every other byte of the
  memory keeps its value. The one exception is a zero written to the shutdown register.\<close>

theorem cmos_ram_roundtrip:
  assumes "cmos_inv c" "reg < 0x80"
    and "reg \<notin> {CMOS_REG_SEC, CMOS_REG_MIN, CMOS_REG_HOUR, CMOS_REG_WEEKD, CMOS_REG_MDAY,
           CMOS_REG_MONTH, CMOS_REG_YEAR, CMOS_REG_STAT_A, CMOS_REG_STAT_B, CMOS_REG_STAT_C,
           CMOS_REG_STAT_D, CMOS_REG_CENTURY}"
    and "reg = CMOS_REG_SHUTDOWN \<Longrightarrow> v \<noteq> 0"
  shows "\<exists>c1 c2 h1 b1.
           cmos_select_write os reg v (c, h) = Inr (0, b1, (c1, h))
         \<and> cmos_select_read os reg b (c1, h) = Inr (0, b(0 := v), (c2, h1))
         \<and> cmos_data c2 = (cmos_data c)[unat reg := v]"
proof -
  have m: "reg AND CMOS_INDEX_MASK = reg"
    using assms(2) u8_and_7F_id by simp
  have i: "unat reg < 128" "unat reg < length (cmos_data c)"
    using assms(1,2) by (simp_all add: cmos_inv_def word_less_nat_alt)
  let ?c1 = "c\<lparr>cmos_index := CMOS_REG_STAT_D, cmos_data := (cmos_data c)[unat reg := v]\<rparr>"
  have w: "cmos_select_write os reg v (c, h) = Inr (0, \<lambda>_. v, (?c1, h))"
    using assms(4) i by (auto simp: cmos_select_write_def cmos_Write_def m)
  obtain now k' where t: "os_localtime os (kern h) = (now, k')" by fastforce
  have "cmos_reg now (?c1\<lparr>cmos_index := reg\<rparr>) = Inr v"
    using assms(3) i by (auto simp: cmos_reg_def)
  with w t show ?thesis by (simp add: cmos_select_read_eq m)
qed

theorem cmos_ram_roundtrip_witness:
  "\<exists>c1 c2 h1 b1.
     cmos_select_write sample_os 0x20 0xAB (cmos_new 0, sample_host [] [])
       = Inr (0, b1, (c1, sample_host [] []))
   \<and> cmos_select_read sample_os 0x20 (\<lambda>_. 0) (c1, sample_host [] [])
       = Inr (0, (\<lambda>_. 0)(0 := 0xAB), (c2, h1))
   \<and> cmos_data c2 = (cmos_data (cmos_new 0))[32 := 0xAB]"
  using cmos_ram_roundtrip [OF cmos_inv_new [of 0], of "0x20" "0xAB" sample_os
      "sample_host [] []" "\<lambda>_. 0"]
  by simp

text \<open>C40: The constructor leaves the index register uninitialised, and a guest that reads port
  0x71 before it has selected a register is answered from inside the 128-byte memory exactly when
  that leftover value happens to be below 0x80; otherwise the read is out of bounds.\<close>

theorem cmos_uninitialised_index:
  "(\<exists>x. cmos_Read os PIO_PORT_CMOS_DATA b 1 (cmos_new i, h) = Inr x) \<longleftrightarrow> i < 0x80"
proof
  assume "i < 0x80"
  then show "\<exists>x. cmos_Read os PIO_PORT_CMOS_DATA b 1 (cmos_new i, h) = Inr x"
    by (intro cmos.read_total) (simp_all add: cmos_inv_new)
next
  obtain now k' where t: "os_localtime os (kern h) = (now, k')" by fastforce
  assume "\<exists>x. cmos_Read os PIO_PORT_CMOS_DATA b 1 (cmos_new i, h) = Inr x"
  then show "i < 0x80"
    by (rule contrapos_pp)
      (auto simp: cmos_Read_def t cmos_reg_def cmos_new_def word_less_nat_alt)
qed

text \<open>Once a guest has selected a register, no sequence of port accesses of any size, port,
  direction or data makes the CMOS leave its memory: starting from any value of the uninitialised
  index, a session whose first access is a one-byte write to port 0x70 runs to its end.\<close>

lemma cmos_session_safe:
  "\<exists>s'. io_run (cmos_Read os) (cmos_Write os)
     ((KVM_EXIT_IO_OUT, PIO_PORT_CMOS_INDEX, b, 1) # accs) (cmos_new i, h) = Inr s'"
proof -
  let ?c = "(cmos_new i)\<lparr>cmos_index := b 0 AND CMOS_INDEX_MASK\<rparr>"
  have "cmos_inv ?c" by (simp add: cmos_inv_def cmos_new_def u8_and_7F_less)
  then have "\<exists>s'. io_run (cmos_Read os) (cmos_Write os) accs (?c, h) = Inr s'"
    by (intro cmos.run_total) simp_all
  then show ?thesis by (simp add: cmos_Write_def)
qed

end
