(* ===== verification/Serial.thy ===== *)
theory Serial
  imports IODevice
begin

text \<open>
  The serial port COM1 (\<^verbatim>\<open>include/com1.hpp\<close>, \<^verbatim>\<open>src/com1.cpp\<close>): the register file, the
  receive queue \<^verbatim>\<open>rx_buf\<close>, the handlers \<^verbatim>\<open>COM1::Read\<close> and \<^verbatim>\<open>COM1::Write\<close>, and one iteration
  and the whole of the reader thread's loop. The interleaving of the reader thread with the
  vCPU thread is the subject of theory \<open>SerialRace\<close>, which uses the same pieces.

  Each critical section of \<^verbatim>\<open>rx_mutex\<close> is one atomic piece here. Terminal set-up in the
  constructor and destructor (\<^verbatim>\<open>tcsetattr\<close>) is not modelled.
\<close>

section \<open>Constants\<close>

abbreviation (input) COM1_IRQ :: u32 where "COM1_IRQ \<equiv> 4"

abbreviation (input) PIO_PORT_COM1_START :: u16 where "PIO_PORT_COM1_START \<equiv> 0x3F8"

abbreviation (input) PIO_PORT_COM1_SIZE :: u16 where "PIO_PORT_COM1_SIZE \<equiv> 0x8"

abbreviation (input) PIO_PORT_COM1_THR_RBR_DLL :: u16 where
  "PIO_PORT_COM1_THR_RBR_DLL \<equiv> PIO_PORT_COM1_START"

abbreviation (input) PIO_PORT_COM1_IER_DLH :: u16 where
  "PIO_PORT_COM1_IER_DLH \<equiv> PIO_PORT_COM1_START + 1"

abbreviation (input) PIO_PORT_COM1_IIR_FCR :: u16 where
  "PIO_PORT_COM1_IIR_FCR \<equiv> PIO_PORT_COM1_START + 2"

abbreviation (input) PIO_PORT_COM1_LCR :: u16 where
  "PIO_PORT_COM1_LCR \<equiv> PIO_PORT_COM1_START + 3"

abbreviation (input) PIO_PORT_COM1_MCR :: u16 where
  "PIO_PORT_COM1_MCR \<equiv> PIO_PORT_COM1_START + 4"

abbreviation (input) PIO_PORT_COM1_LSR :: u16 where
  "PIO_PORT_COM1_LSR \<equiv> PIO_PORT_COM1_START + 5"

abbreviation (input) PIO_PORT_COM1_MSR :: u16 where
  "PIO_PORT_COM1_MSR \<equiv> PIO_PORT_COM1_START + 6"

abbreviation (input) PIO_PORT_COM1_SR :: u16 where
  "PIO_PORT_COM1_SR \<equiv> PIO_PORT_COM1_START + 7"

abbreviation (input) COM1_REG_DLL_9600 :: u8 where "COM1_REG_DLL_9600 \<equiv> 0x0C"

abbreviation (input) COM1_REG_IER_WRITABLE_MASK :: u8 where "COM1_REG_IER_WRITABLE_MASK \<equiv> 0x0F"

abbreviation (input) COM1_REG_IER_DATA_AVL_MASK :: u8 where "COM1_REG_IER_DATA_AVL_MASK \<equiv> 0x01"

abbreviation (input) COM1_REG_DLH_9600 :: u8 where "COM1_REG_DLH_9600 \<equiv> 0x00"

abbreviation (input) COM1_REG_LCR_DLAB :: u8 where "COM1_REG_LCR_DLAB \<equiv> 0x80"

abbreviation (input) COM1_REG_LSR_TEMT :: u8 where "COM1_REG_LSR_TEMT \<equiv> 0x40"

abbreviation (input) COM1_REG_LSR_THRE :: u8 where "COM1_REG_LSR_THRE \<equiv> 0x20"

abbreviation (input) COM1_REG_FCR_ENABLE :: u8 where "COM1_REG_FCR_ENABLE \<equiv> 0x01"

abbreviation (input) COM1_REG_IIR_NO_INT_PEND :: u8 where "COM1_REG_IIR_NO_INT_PEND \<equiv> 0x01"

abbreviation (input) COM1_REG_IIR_FIFO_16550A :: u8 where "COM1_REG_IIR_FIFO_16550A \<equiv> 0xC0"

abbreviation (input) COM1_REG_MCR_DTR :: u8 where "COM1_REG_MCR_DTR \<equiv> 0x01"

abbreviation (input) COM1_REG_MCR_RTS :: u8 where "COM1_REG_MCR_RTS \<equiv> 0x02"

abbreviation (input) COM1_REG_MCR_OUT1 :: u8 where "COM1_REG_MCR_OUT1 \<equiv> 0x04"

abbreviation (input) COM1_REG_MCR_OUT2 :: u8 where "COM1_REG_MCR_OUT2 \<equiv> 0x08"

abbreviation (input) COM1_REG_MCR_LOOP :: u8 where "COM1_REG_MCR_LOOP \<equiv> 0x10"

abbreviation (input) COM1_REG_MSR_CTS :: u8 where "COM1_REG_MSR_CTS \<equiv> 0x10"

abbreviation (input) COM1_REG_MSR_DSR :: u8 where "COM1_REG_MSR_DSR \<equiv> 0x20"

abbreviation (input) COM1_REG_MSR_RI :: u8 where "COM1_REG_MSR_RI \<equiv> 0x40"

abbreviation (input) COM1_REG_MSR_DCD :: u8 where "COM1_REG_MSR_DCD \<equiv> 0x80"

section \<open>State\<close>

record com1 =
  com_THR :: u8
  com_RBR :: u8
  com_DLL :: u8
  com_IER :: u8
  com_DLH :: u8
  com_IIR :: u8
  com_FCR :: u8
  com_LCR :: u8
  com_MCR :: u8
  com_LSR :: u8
  com_MSR :: u8
  com_SR :: u8
  rx_buf :: "u8 list"
  shutting_down :: bool

text \<open>The constructor of \<^verbatim>\<open>IODev\<close> takes the size as a \<^verbatim>\<open>uint8_t\<close>.\<close>

definition COM1 :: iodev where
  "COM1 = \<lparr>dev_port = PIO_PORT_COM1_START, dev_size = ucast PIO_PORT_COM1_SIZE\<rparr>"

text \<open>All registers start at 0, the queue empty, the reader running.\<close>

definition com1_new :: com1 where
  "com1_new = \<lparr>com_THR = 0, com_RBR = 0, com_DLL = 0, com_IER = 0, com_DLH = 0, com_IIR = 0,
     com_FCR = 0, com_LCR = 0, com_MCR = 0, com_LSR = 0, com_MSR = 0, com_SR = 0,
     rx_buf = [], shutting_down = False\<rparr>"

definition is_dlab_set :: "com1 \<Rightarrow> bool" where
  "is_dlab_set c \<longleftrightarrow> com_LCR c AND COM1_REG_LCR_DLAB \<noteq> 0"

definition is_loop_set :: "com1 \<Rightarrow> bool" where
  "is_loop_set c \<longleftrightarrow> com_MCR c AND COM1_REG_MCR_LOOP \<noteq> 0"

section \<open>COM1::Read\<close>

text \<open>The interrupt identification: received data first, then transmitter empty.\<close>

definition com1_iir :: "com1 \<Rightarrow> u8" where
  "com1_iir c =
     (let rx_pending = rx_buf c \<noteq> [];
          v = (if com_IER c AND COM1_REG_IER_DATA_AVL_MASK \<noteq> 0 \<and> rx_pending then 0x04
               else if com_IER c AND 0x02 \<noteq> 0 then 0x02
               else COM1_REG_IIR_NO_INT_PEND)
      in if com_FCR c AND COM1_REG_FCR_ENABLE \<noteq> 0 then v OR COM1_REG_IIR_FIFO_16550A else v)"

definition com1_lsr :: "com1 \<Rightarrow> u8" where
  "com1_lsr c =
     (let v = COM1_REG_LSR_TEMT OR COM1_REG_LSR_THRE
      in if rx_buf c \<noteq> [] then v OR 0x01 else v)"

definition com1_msr :: "com1 \<Rightarrow> u8" where
  "com1_msr c =
     (if is_loop_set c then
        (let v0 = 0;
             v1 = (if com_MCR c AND COM1_REG_MCR_DTR \<noteq> 0 then v0 OR COM1_REG_MSR_DSR else v0);
             v2 = (if com_MCR c AND COM1_REG_MCR_RTS \<noteq> 0 then v1 OR COM1_REG_MSR_CTS else v1);
             v3 = (if com_MCR c AND COM1_REG_MCR_OUT1 \<noteq> 0 then v2 OR COM1_REG_MSR_RI else v2)
         in if com_MCR c AND COM1_REG_MCR_OUT2 \<noteq> 0 then v3 OR COM1_REG_MSR_DCD else v3)
      else COM1_REG_MSR_CTS OR COM1_REG_MSR_DSR OR COM1_REG_MSR_DCD)"

text \<open>Taking the front of the queue; 0 where it is empty.\<close>

definition com1_rbr :: "com1 \<Rightarrow> u8 \<times> com1" where
  "com1_rbr c =
     (case rx_buf c of [] \<Rightarrow> (0, c) | x # xs \<Rightarrow> (x, c\<lparr>rx_buf := xs\<rparr>))"

definition com1_Read :: "(com1 \<times> 'k host) dev_op" where
  "com1_Read port b sz s =
     (let (c, h) = s in
      if port = PIO_PORT_COM1_THR_RBR_DLL then
        (if \<not> is_dlab_set c then
           let (x, c') = com1_rbr c in Inr (0, b(0 := x), (c', h))
         else Inr (0, b(0 := COM1_REG_DLL_9600), s))
      else if port = PIO_PORT_COM1_IER_DLH then
        (if \<not> is_dlab_set c then Inr (0, b(0 := com_IER c), s)
         else Inr (0, b(0 := COM1_REG_DLH_9600), s))
      else if port = PIO_PORT_COM1_IIR_FCR then Inr (0, b(0 := com1_iir c), s)
      else if port = PIO_PORT_COM1_LCR then Inr (0, b(0 := com_LCR c), s)
      else if port = PIO_PORT_COM1_MCR then Inr (0, b(0 := com_MCR c), s)
      else if port = PIO_PORT_COM1_LSR then Inr (0, b(0 := com1_lsr c), s)
      else if port = PIO_PORT_COM1_MSR then Inr (0, b(0 := com1_msr c), s)
      else if port = PIO_PORT_COM1_SR then Inr (0, b(0 := com_SR c), s)
      else Inr (1, b, s))"

section \<open>COM1::Write\<close>

text \<open>\<^verbatim>\<open>rx_buf.push_back\<close>, by the loopback path and by the reader thread.\<close>

definition rx_push :: "u8 \<Rightarrow> com1 \<Rightarrow> com1" where
  "rx_push x c = c\<lparr>rx_buf := rx_buf c @ [x]\<rparr>"

text \<open>The write to the interrupt enable register, and whether it has to kick an interrupt.\<close>

definition ier_store :: "u8 \<Rightarrow> com1 \<Rightarrow> com1" where
  "ier_store v c = c\<lparr>com_IER := v AND COM1_REG_IER_WRITABLE_MASK\<rparr>"

definition ier_should_raise :: "com1 \<Rightarrow> bool" where
  "ier_should_raise c \<longleftrightarrow>
     com_IER c AND 0x02 \<noteq> 0
     \<or> com_IER c AND COM1_REG_IER_DATA_AVL_MASK \<noteq> 0 \<and> rx_buf c \<noteq> []"

text \<open>The transmitter outside loopback: one byte to the host's standard output.\<close>

definition com1_transmit ::
  "'k os \<Rightarrow> int \<Rightarrow> u8 \<Rightarrow> com1 \<times> 'k host \<Rightarrow> int \<times> com1 \<times> 'k host" where
  "com1_transmit os vm_fd x s =
     (let (c, h) = s; ((r, e), k') = os_write os x (kern h) in
      if r = - 1 then (- e, c, h\<lparr>kern := k', errno := e\<rparr>)
      else if com_IER c AND 0x02 \<noteq> 0 then
        let (r', h') = flapIRQLine os vm_fd COM1_IRQ (h\<lparr>kern := k'\<rparr>) in
        (if r' \<noteq> 0 then r' else 0, c, h')
      else (0, c, h\<lparr>kern := k'\<rparr>))"

definition com1_Write :: "'k os \<Rightarrow> int \<Rightarrow> (com1 \<times> 'k host) dev_op" where
  "com1_Write os vm_fd port b sz s =
     (let (c, h) = s in
      if port = PIO_PORT_COM1_THR_RBR_DLL then
        (if \<not> is_dlab_set c then
           (if is_loop_set c then Inr (0, b, (rx_push (b 0) c, h))
            else let (r, s') = com1_transmit os vm_fd (b 0) s in Inr (r, b, s'))
         else Inr (0, b, (c\<lparr>com_DLL := b 0\<rparr>, h)))
      else if port = PIO_PORT_COM1_IER_DLH then
        (if \<not> is_dlab_set c then
           let c' = ier_store (b 0) c in
           if ier_should_raise c' then
             let (r, h') = flapIRQLine os vm_fd COM1_IRQ h in
             Inr (if r \<noteq> 0 then r else 0, b, (c', h'))
           else Inr (0, b, (c', h))
         else Inr (0, b, (c\<lparr>com_DLH := b 0\<rparr>, h)))
      else if port = PIO_PORT_COM1_IIR_FCR then Inr (0, b, (c\<lparr>com_FCR := b 0\<rparr>, h))
      else if port = PIO_PORT_COM1_LCR then Inr (0, b, (c\<lparr>com_LCR := b 0\<rparr>, h))
      else if port = PIO_PORT_COM1_MCR then Inr (0, b, (c\<lparr>com_MCR := b 0\<rparr>, h))
      else if port = PIO_PORT_COM1_LSR \<or> port = PIO_PORT_COM1_MSR then Inr (0, b, s)
      else if port = PIO_PORT_COM1_SR then Inr (0, b, (c\<lparr>com_SR := b 0\<rparr>, h))
      else Inr (1, b, s))"

section \<open>The reader thread\<close>

text \<open>After a push: \<^verbatim>\<open>if (IER & COM1_REG_IER_DATA_AVL_MASK) vm->flapIRQLine(COM1_IRQ)\<close>.\<close>

definition reader_should_raise :: "com1 \<Rightarrow> bool" where
  "reader_should_raise c \<longleftrightarrow> com_IER c AND COM1_REG_IER_DATA_AVL_MASK \<noteq> 0"

text \<open>The body of the loop: whether it goes on, and the state.\<close>

definition reader_iter :: "'k os \<Rightarrow> int \<Rightarrow> com1 \<times> 'k host \<Rightarrow> bool \<times> com1 \<times> 'k host" where
  "reader_iter os vm_fd s =
     (let (c, h) = s; ((n, x), k') = os_read os (kern h); h1 = h\<lparr>kern := k'\<rparr> in
      if n = 1 then
        let c1 = rx_push x c in
        if reader_should_raise c1 then
          let (r, h2) = flapIRQLine os vm_fd COM1_IRQ h1 in (True, c1, h2)
        else (True, c1, h1)
      else if n = 0 then (False, c, h1)
      else (True, c, h1))"

text \<open>The loop, run on its own. It need not return: \<open>None\<close> is a loop that goes on for ever.\<close>

partial_function (option) readerLoop ::
  "'k os \<Rightarrow> int \<Rightarrow> com1 \<times> 'k host \<Rightarrow> (com1 \<times> 'k host) option" where
  "readerLoop os vm_fd s =
     (if shutting_down (fst s) then Some s
      else let (go_on, s') = reader_iter os vm_fd s in
           if go_on then readerLoop os vm_fd s' else Some s')"

section \<open>The device contract\<close>

definition com1_inv :: "com1 \<Rightarrow> bool" where
  "com1_inv c \<longleftrightarrow> com_IER c AND 0xF0 = 0"

lemma com1_inv_new: "com1_inv com1_new"
  by (simp add: com1_inv_def com1_new_def)

lemma com1_inv_ier_store: "com1_inv (ier_store v c)"
  by (simp add: com1_inv_def ier_store_def and.assoc)

lemma com1_inv_rx_push [simp]: "com1_inv (rx_push x c) = com1_inv c"
  by (simp add: com1_inv_def rx_push_def)

lemma com1_transmit_com: "fst (snd (com1_transmit os vm_fd x (c, h))) = c"
  by (simp add: com1_transmit_def Let_def split: prod.splits)

lemma com1_Read_keeps:
  "com1_Read p b n (c, h) = Inr (r, b', (c', h')) \<Longrightarrow>
     h' = h \<and> (c' = c \<or> c' = snd (com1_rbr c)) \<and> (\<exists>v. b' = b(0 := v))"
  by (auto simp: com1_Read_def Let_def split: if_splits prod.splits
      intro: exI [of _ "b 0"])

lemma com1_inv_rbr: "com1_inv c \<Longrightarrow> com1_inv (snd (com1_rbr c))"
  by (simp add: com1_rbr_def com1_inv_def split: list.splits)

lemma com1_Write_buffer: "com1_Write os vm_fd p b n s = Inr (r, b', s') \<Longrightarrow> b' = b"
  by (auto simp: com1_Write_def Let_def split: if_splits prod.splits)

lemma com1_Write_inv:
  assumes "com1_inv c" and w: "com1_Write os vm_fd p b n (c, h) = Inr (r, b', (c', h'))"
  shows "com1_inv c'"
proof -
  have keep: "com1_inv (c\<lparr>com_DLL := v\<rparr>)" "com1_inv (c\<lparr>com_DLH := v\<rparr>)"
    "com1_inv (c\<lparr>com_FCR := v\<rparr>)" "com1_inv (c\<lparr>com_LCR := v\<rparr>)"
    "com1_inv (c\<lparr>com_MCR := v\<rparr>)" "com1_inv (c\<lparr>com_SR := v\<rparr>)" for v
    using assms(1) by (simp_all add: com1_inv_def)
  from w show ?thesis
    using assms(1) keep com1_inv_ier_store com1_transmit_com [of os vm_fd "b 0" c h]
    by (auto simp: com1_Write_def Let_def split: if_splits prod.splits)
qed

interpretation com1: io_device com1_Read "com1_Write os vm_fd" "\<lambda>s. com1_inv (fst s)" "\<lambda>_. True"
  for os :: "'k os" and vm_fd :: int
proof
  fix s :: "com1 \<times> 'k host" and s' p b n r b' and i :: nat
  show "\<exists>x. com1_Read p b n s = Inr x"
    by (cases s) (auto simp: com1_Read_def Let_def split: prod.splits)
  show "\<exists>x. com1_Write os vm_fd p b n s = Inr x"
    by (cases s) (auto simp: com1_Write_def Let_def split: prod.splits)
  show "com1_inv (fst s')" if "com1_inv (fst s)" "com1_Read p b n s = Inr (r, b', s')"
    using that com1_Read_keeps [of p b n "fst s" "snd s" r b' "fst s'" "snd s'"]
    by (auto simp: com1_inv_rbr)
  show "com1_inv (fst s')" if "com1_inv (fst s)" "com1_Write os vm_fd p b n s = Inr (r, b', s')"
    using that com1_Write_inv [of "fst s" os vm_fd p b n "snd s" r b' "fst s'" "snd s'"] by simp
  show "b' i = b i" if "com1_Read p b n s = Inr (r, b', s')" "i \<noteq> 0"
    using that com1_Read_keeps [of p b n "fst s" "snd s" r b' "fst s'" "snd s'"] by auto
  show "b' = b" if "com1_Write os vm_fd p b n s = Inr (r, b', s')"
    using that by (rule com1_Write_buffer)
qed

end
