(* ===== verification/Pio.thy ===== *)
theory Pio
  imports IODevice Cmos Serial
begin

text \<open>
  Port I/O routing: the handlers without a device (\<^verbatim>\<open>src/pio.cpp\<close>), the table
  \<^verbatim>\<open>VM::pio_handler\<close> with \<^verbatim>\<open>VM::registerPIOHandler\<close> and \<^verbatim>\<open>VM::initPIOHandler\<close>
  (\<^verbatim>\<open>src/vm.cpp\<close>), and the routing that results from the order of the registrations.

  The table is \<^verbatim>\<open>PIOHandler pio_handler[PIO_PORT_NUM][2]\<close>. A \<^verbatim>\<open>std::function\<close> is a value of the
  datatype \<open>pio_handler\<close>; \<open>None\<close> is an empty one. Index \<^verbatim>\<open>0xFFFF\<close> is outside the array.
\<close>

section \<open>Constants\<close>

abbreviation (input) PIO_PORT_NUM :: u16 where "PIO_PORT_NUM \<equiv> 0xFFFF"

abbreviation (input) PIO_PORT_ALT_DELAY_START :: u16 where "PIO_PORT_ALT_DELAY_START \<equiv> 0xED"

abbreviation (input) PIO_PORT_ALT_DELAY_END :: u16 where "PIO_PORT_ALT_DELAY_END \<equiv> 0xEE"

abbreviation (input) PIO_PORT_COM4_START :: u16 where "PIO_PORT_COM4_START \<equiv> 0x2E8"

abbreviation (input) PIO_PORT_COM4_END :: u16 where "PIO_PORT_COM4_END \<equiv> 0x2F0"

abbreviation (input) PIO_PORT_COM2_START :: u16 where "PIO_PORT_COM2_START \<equiv> 0x2F8"

abbreviation (input) PIO_PORT_COM2_END :: u16 where "PIO_PORT_COM2_END \<equiv> 0x300"

abbreviation (input) PIO_PORT_VGA_0_START :: u16 where "PIO_PORT_VGA_0_START \<equiv> 0x3B0"

abbreviation (input) PIO_PORT_VGA_0_END :: u16 where "PIO_PORT_VGA_0_END \<equiv> 0x3BC"

abbreviation (input) PIO_PORT_VGA_1_START :: u16 where "PIO_PORT_VGA_1_START \<equiv> 0x3C0"

abbreviation (input) PIO_PORT_VGA_1_END :: u16 where "PIO_PORT_VGA_1_END \<equiv> 0x3E0"

abbreviation (input) PIO_PORT_COM3_START :: u16 where "PIO_PORT_COM3_START \<equiv> 0x3E8"

abbreviation (input) PIO_PORT_COM3_END :: u16 where "PIO_PORT_COM3_END \<equiv> 0x3F0"

abbreviation (input) PIO_PORT_RST_GEN_START :: u16 where "PIO_PORT_RST_GEN_START \<equiv> 0xCF9"

abbreviation (input) PIO_PORT_RST_GEN_END :: u16 where "PIO_PORT_RST_GEN_END \<equiv> 0xCFA"

abbreviation (input) PIO_PORT_UNKNOWN_1_START :: u16 where "PIO_PORT_UNKNOWN_1_START \<equiv> 0xCFA"

abbreviation (input) PIO_PORT_UNKNOWN_1_END :: u16 where "PIO_PORT_UNKNOWN_1_END \<equiv> 0xCFC"

abbreviation (input) PIO_PORT_UNKNOWN_2_START :: u16 where "PIO_PORT_UNKNOWN_2_START \<equiv> 0xCFE"

abbreviation (input) PIO_PORT_UNKNOWN_2_END :: u16 where "PIO_PORT_UNKNOWN_2_END \<equiv> 0xCFF"

abbreviation (input) PIO_PORT_PCI_CONFIG_ADDR_START :: u16 where
  "PIO_PORT_PCI_CONFIG_ADDR_START \<equiv> 0x0CF8"

abbreviation (input) PIO_PORT_PCI_CONFIG_ADDR_END :: u16 where
  "PIO_PORT_PCI_CONFIG_ADDR_END \<equiv> 0x0CF9"

abbreviation (input) PIO_PORT_PCI_CONFIG_DATA_START :: u16 where
  "PIO_PORT_PCI_CONFIG_DATA_START \<equiv> 0x0CFC"

abbreviation (input) PIO_PORT_PCI_CONFIG_DATA_END :: u16 where
  "PIO_PORT_PCI_CONFIG_DATA_END \<equiv> 0x0CFD"

abbreviation (input) PIO_PORT_PCI_CSAM2_START :: u16 where "PIO_PORT_PCI_CSAM2_START \<equiv> 0xC000"

abbreviation (input) PIO_PORT_PCI_CSAM2_END :: u16 where "PIO_PORT_PCI_CSAM2_END \<equiv> 0xD000"

section \<open>Handlers and the table\<close>

text \<open>
  The values a table entry can have: the three functions of \<^verbatim>\<open>src/pio.cpp\<close>, and the closures
  over the \<open>i\<close>-th device that \<^verbatim>\<open>VM::initPIOHandler\<close> builds.
\<close>

datatype pio_handler = H_default | H_do_nothing | H_reset_out | H_dev_read nat | H_dev_write nat

type_synonym pio_table = "u16 \<Rightarrow> io_dir \<Rightarrow> pio_handler option"

definition default_pio_handler :: "'s dev_op" where
  "default_pio_handler port b sz s = Inr (1, b, s)"

definition do_nothing_pio_handler :: "'s dev_op" where
  "do_nothing_pio_handler port b sz s = Inr (0, b, s)"

definition reset_generator_handler_out :: "'s dev_op" where
  "reset_generator_handler_out port b sz s = Inr (1, b, s)"

text \<open>\<^verbatim>\<open>for (uint16_t i = port_start; i < port_end; ++i)\<close>: two stores for each port.\<close>

function registerPIOHandler ::
  "u16 \<Rightarrow> u16 \<Rightarrow> pio_handler \<Rightarrow> pio_handler \<Rightarrow> pio_table \<Rightarrow> pio_table" where
  "registerPIOHandler i port_end in_func out_func tab =
     (if i < port_end then
        registerPIOHandler (i + 1) port_end in_func out_func
          (tab(i := (tab i)(KVM_EXIT_IO_IN := Some in_func, KVM_EXIT_IO_OUT := Some out_func)))
      else tab)"
  by pat_completeness auto
termination
  by (relation "measure (\<lambda>(i, port_end, _). unat port_end - unat i)")
    (auto simp: unat_inc_below word_less_nat_alt)

declare registerPIOHandler.simps [simp del]

text \<open>The loop over \<^verbatim>\<open>iodev\<close>; \<^verbatim>\<open>e->port+e->size\<close> is converted to \<^verbatim>\<open>uint16_t\<close>.\<close>

fun register_devices :: "nat \<Rightarrow> iodev list \<Rightarrow> pio_table \<Rightarrow> pio_table" where
  "register_devices n [] tab = tab"
| "register_devices n (e # es) tab =
     register_devices (Suc n) es
       (registerPIOHandler (dev_port e) (dev_port e + ucast (dev_size e))
         (H_dev_read n) (H_dev_write n) tab)"

definition initPIOHandler :: "iodev list \<Rightarrow> pio_table \<Rightarrow> pio_table" where
  "initPIOHandler devs tab0 =
     (let t1 = registerPIOHandler 0 PIO_PORT_NUM H_default H_default tab0;
          t2 = registerPIOHandler PIO_PORT_ALT_DELAY_START PIO_PORT_ALT_DELAY_END
                 H_do_nothing H_do_nothing t1;
          t3 = registerPIOHandler PIO_PORT_COM4_START PIO_PORT_COM4_END
                 H_do_nothing H_do_nothing t2;
          t4 = registerPIOHandler PIO_PORT_COM2_START PIO_PORT_COM2_END
                 H_do_nothing H_do_nothing t3;
          t5 = registerPIOHandler PIO_PORT_VGA_0_START PIO_PORT_VGA_0_END
                 H_do_nothing H_do_nothing t4;
          t6 = registerPIOHandler PIO_PORT_VGA_1_START PIO_PORT_VGA_1_END
                 H_do_nothing H_do_nothing t5;
          t7 = registerPIOHandler PIO_PORT_COM3_START PIO_PORT_COM3_END
                 H_do_nothing H_do_nothing t6;
          t8 = registerPIOHandler PIO_PORT_UNKNOWN_1_START PIO_PORT_UNKNOWN_1_END
                 H_do_nothing H_do_nothing t7;
          t9 = registerPIOHandler PIO_PORT_RST_GEN_START PIO_PORT_RST_GEN_END
                 H_default H_reset_out t8;
          t10 = registerPIOHandler PIO_PORT_PCI_CONFIG_ADDR_START PIO_PORT_PCI_CONFIG_ADDR_END
                 H_do_nothing H_do_nothing t9;
          t11 = registerPIOHandler PIO_PORT_UNKNOWN_2_START PIO_PORT_UNKNOWN_2_END
                 H_do_nothing H_do_nothing t10;
          t12 = registerPIOHandler PIO_PORT_PCI_CONFIG_DATA_START PIO_PORT_PCI_CONFIG_DATA_END
                 H_do_nothing H_do_nothing t11;
          t13 = registerPIOHandler PIO_PORT_PCI_CSAM2_START PIO_PORT_PCI_CSAM2_END
                 H_do_nothing H_do_nothing t12;
          t14 = registerPIOHandler 0x60 0x70 H_do_nothing H_do_nothing t13
      in register_devices 0 devs t14)"

section \<open>What a registration does\<close>

lemma registerPIOHandler_eq:
  "registerPIOHandler i e in_func out_func tab p =
     (if i \<le> p \<and> p < e
      then (tab p)(KVM_EXIT_IO_IN := Some in_func, KVM_EXIT_IO_OUT := Some out_func)
      else tab p)"
proof (induction i e in_func out_func tab rule: registerPIOHandler.induct)
  case (1 i e in_func out_func tab)
  show ?case
  proof (cases "i < e")
    case False
    then show ?thesis by (subst registerPIOHandler.simps) auto
  next
    case True
    have le: "i + 1 \<le> p \<longleftrightarrow> i \<le> p \<and> p \<noteq> i" by (rule inc_below_le_iff [OF True])
    let ?upd = "\<lambda>t. t(KVM_EXIT_IO_IN := Some in_func, KVM_EXIT_IO_OUT := Some out_func)"
    let ?tab = "tab(i := ?upd (tab i))"
    have "registerPIOHandler i e in_func out_func tab p
        = registerPIOHandler (i + 1) e in_func out_func ?tab p"
      by (subst registerPIOHandler.simps) (simp only: True if_True)
    also have "\<dots> = (if i + 1 \<le> p \<and> p < e then ?upd (?tab p) else ?tab p)"
      by (rule "1" [OF True])
    also have "\<dots> = (if i \<le> p \<and> p < e then ?upd (tab p) else tab p)"
      using le True by auto
    finally show ?thesis .
  qed
qed

section \<open>The routing of the machine's ports\<close>

text \<open>The devices \<^verbatim>\<open>VM::initMachine\<close> adds, in its order.\<close>

definition machine_devices :: "iodev list" where
  "machine_devices = [Post, CMOS, COM1]"

text \<open>
  The abstract specification: who owns a port. \<open>Unclaimed\<close> ports end the run of the vCPU that
  touches them, \<open>Ignored\<close> ones read and write nothing.
\<close>

datatype port_owner = Unclaimed | Ignored | Reset_Generator | Owned_By nat

definition port_owner :: "u16 \<Rightarrow> port_owner" where
  "port_owner p =
     (let n = unat p in
      if 0x3F8 \<le> n \<and> n \<le> 0x3FF then Owned_By 2
      else if 0x70 \<le> n \<and> n \<le> 0x71 then Owned_By 1
      else if 0x80 \<le> n \<and> n \<le> 0x11F then Owned_By 0
      else if n = 0xCF9 then Reset_Generator
      else if 0x60 \<le> n \<and> n \<le> 0x6F \<or> 0x2E8 \<le> n \<and> n \<le> 0x2EF \<or> 0x2F8 \<le> n \<and> n \<le> 0x2FF
           \<or> 0x3B0 \<le> n \<and> n \<le> 0x3BB \<or> 0x3C0 \<le> n \<and> n \<le> 0x3DF \<or> 0x3E8 \<le> n \<and> n \<le> 0x3EF
           \<or> n = 0xCF8 \<or> 0xCFA \<le> n \<and> n \<le> 0xCFC \<or> n = 0xCFE \<or> 0xC000 \<le> n \<and> n \<le> 0xCFFF
        then Ignored
      else Unclaimed)"

fun owner_handler :: "port_owner \<Rightarrow> io_dir \<Rightarrow> pio_handler" where
  "owner_handler Unclaimed d = H_default"
| "owner_handler Ignored d = H_do_nothing"
| "owner_handler Reset_Generator KVM_EXIT_IO_IN = H_default"
| "owner_handler Reset_Generator KVM_EXIT_IO_OUT = H_reset_out"
| "owner_handler (Owned_By i) KVM_EXIT_IO_IN = H_dev_read i"
| "owner_handler (Owned_By i) KVM_EXIT_IO_OUT = H_dev_write i"

lemma pair_upd:
  "((f :: io_dir \<Rightarrow> 'a option)(KVM_EXIT_IO_IN := Some a, KVM_EXIT_IO_OUT := Some b)) d
     = Some (case d of KVM_EXIT_IO_IN \<Rightarrow> a | KVM_EXIT_IO_OUT \<Rightarrow> b)"
  by (cases d) simp_all

lemma registerPIOHandler_entry:
  "registerPIOHandler i e f g tab p d =
     (if unat i \<le> unat p \<and> unat p < unat e
      then Some (case d of KVM_EXIT_IO_IN \<Rightarrow> f | KVM_EXIT_IO_OUT \<Rightarrow> g) else tab p d)"
  by (simp add: registerPIOHandler_eq pair_upd word_le_nat_alt word_less_nat_alt del: fun_upd_apply)

text \<open>
  The registrations in reverse order, as a decision list on the port number: the last one that
  covers a port decides.
\<close>

lemma machine_table_list:
  fixes p :: u16
  defines "n \<equiv> unat p"
  shows "initPIOHandler machine_devices (\<lambda>_ _. None) p d =
    (let pick = \<lambda>(f :: pio_handler) g. Some (case d of KVM_EXIT_IO_IN \<Rightarrow> f | KVM_EXIT_IO_OUT \<Rightarrow> g);
         nothing = pick H_do_nothing H_do_nothing in
     if 0x3F8 \<le> n \<and> n < 0x400 then pick (H_dev_read (Suc (Suc 0))) (H_dev_write (Suc (Suc 0)))
     else if 0x70 \<le> n \<and> n < 0x72 then pick (H_dev_read (Suc 0)) (H_dev_write (Suc 0))
     else if 0x80 \<le> n \<and> n < 0x120 then pick (H_dev_read 0) (H_dev_write 0)
     else if 0x60 \<le> n \<and> n < 0x70 then nothing
     else if 0xC000 \<le> n \<and> n < 0xD000 then nothing
     else if 0xCFC \<le> n \<and> n < 0xCFD then nothing
     else if 0xCFE \<le> n \<and> n < 0xCFF then nothing
     else if 0xCF8 \<le> n \<and> n < 0xCF9 then nothing
     else if 0xCF9 \<le> n \<and> n < 0xCFA then pick H_default H_reset_out
     else if 0xCFA \<le> n \<and> n < 0xCFC then nothing
     else if 0x3E8 \<le> n \<and> n < 0x3F0 then nothing
     else if 0x3C0 \<le> n \<and> n < 0x3E0 then nothing
     else if 0x3B0 \<le> n \<and> n < 0x3BC then nothing
     else if 0x2F8 \<le> n \<and> n < 0x300 then nothing
     else if 0x2E8 \<le> n \<and> n < 0x2F0 then nothing
     else if 0xED \<le> n \<and> n < 0xEE then nothing
     else if n < 0xFFFF then pick H_default H_default
     else None)"
  unfolding initPIOHandler_def machine_devices_def Post_def CMOS_def COM1_def Let_def
    register_devices.simps registerPIOHandler_entry n_def
  by (simp split del: if_split cong: if_cong)

lemmas machine_table_rules =
  machine_table_list [folded numeral_2_eq_2] port_owner_def Let_def

lemma u16_below: "unat (p :: u16) < 65536"
  using unsigned_less [of p] by simp

text \<open>The two agree on every interval of ports; the intervals are taken in five groups.\<close>

lemma machine_table_1:
  assumes n: "unat p = n" and "n < 0x2E8"
  shows "initPIOHandler machine_devices (\<lambda>_ _. None) p d =
     (if p = 0xFFFF then None else Some (owner_handler (port_owner p) d))"
proof -
  have m: "p = 0xFFFF \<longleftrightarrow> n = 0xFFFF" using n by (simp add: word_unat_eq_iff)
  consider "n < 0x60" | "0x60 \<le> n" "n < 0x70"
    | "0x70 \<le> n" "n < 0x72" | "0x72 \<le> n" "n < 0x80"
    | "0x80 \<le> n" "n < 0x120" | "0x120 \<le> n" "n < 0x2E8"
    using assms u16_below [of p] by linarith
  then show ?thesis by cases (cases d; simp add: machine_table_rules n m split del: if_split)+
qed

lemma machine_table_2:
  assumes n: "unat p = n" and "0x2E8 \<le> n" "n < 0x3C0"
  shows "initPIOHandler machine_devices (\<lambda>_ _. None) p d =
     (if p = 0xFFFF then None else Some (owner_handler (port_owner p) d))"
proof -
  have m: "p = 0xFFFF \<longleftrightarrow> n = 0xFFFF" using n by (simp add: word_unat_eq_iff)
  consider "0x2E8 \<le> n" "n < 0x2F0" | "0x2F0 \<le> n" "n < 0x2F8"
    | "0x2F8 \<le> n" "n < 0x300" | "0x300 \<le> n" "n < 0x3B0"
    | "0x3B0 \<le> n" "n < 0x3BC" | "0x3BC \<le> n" "n < 0x3C0"
    using assms u16_below [of p] by linarith
  then show ?thesis by cases (cases d; simp add: machine_table_rules n m split del: if_split)+
qed

lemma machine_table_3:
  assumes n: "unat p = n" and "0x3C0 \<le> n" "n < 0xCF8"
  shows "initPIOHandler machine_devices (\<lambda>_ _. None) p d =
     (if p = 0xFFFF then None else Some (owner_handler (port_owner p) d))"
proof -
  have m: "p = 0xFFFF \<longleftrightarrow> n = 0xFFFF" using n by (simp add: word_unat_eq_iff)
  consider "0x3C0 \<le> n" "n < 0x3E0" | "0x3E0 \<le> n" "n < 0x3E8"
    | "0x3E8 \<le> n" "n < 0x3F0" | "0x3F0 \<le> n" "n < 0x3F8"
    | "0x3F8 \<le> n" "n < 0x400" | "0x400 \<le> n" "n < 0xCF8"
    using assms u16_below [of p] by linarith
  then show ?thesis by cases (cases d; simp add: machine_table_rules n m split del: if_split)+
qed

lemma machine_table_4:
  assumes n: "unat p = n" and "0xCF8 \<le> n" "n < 0xCFF"
  shows "initPIOHandler machine_devices (\<lambda>_ _. None) p d =
     (if p = 0xFFFF then None else Some (owner_handler (port_owner p) d))"
proof -
  have m: "p = 0xFFFF \<longleftrightarrow> n = 0xFFFF" using n by (simp add: word_unat_eq_iff)
  consider "n = 0xCF8" | "n = 0xCF9" | "0xCFA \<le> n" "n < 0xCFC"
    | "n = 0xCFC" | "n = 0xCFD" | "n = 0xCFE"
    using assms u16_below [of p] by linarith
  then show ?thesis by cases (cases d; simp add: machine_table_rules n m split del: if_split)+
qed

lemma machine_table_5:
  assumes n: "unat p = n" and "0xCFF \<le> n"
  shows "initPIOHandler machine_devices (\<lambda>_ _. None) p d =
     (if p = 0xFFFF then None else Some (owner_handler (port_owner p) d))"
proof -
  have m: "p = 0xFFFF \<longleftrightarrow> n = 0xFFFF" using n by (simp add: word_unat_eq_iff)
  consider "0xCFF \<le> n" "n < 0xC000" | "0xC000 \<le> n" "n < 0xD000"
    | "0xD000 \<le> n" "n < 0xFFFF" | "n = 0xFFFF"
    using assms u16_below [of p] by linarith
  then show ?thesis by cases (cases d; simp add: machine_table_rules n m split del: if_split)+
qed

lemma machine_table:
  "initPIOHandler machine_devices (\<lambda>_ _. None) p d =
     (if p = 0xFFFF then None else Some (owner_handler (port_owner p) d))"
  using machine_table_1 [OF refl] machine_table_2 [OF refl] machine_table_3 [OF refl]
    machine_table_4 [OF refl] machine_table_5 [OF refl]
  by (meson not_le)

lemma port_owner_bound: "port_owner p = Owned_By i \<Longrightarrow> i < 3"
  by (auto simp: port_owner_def Let_def split: if_splits)

section \<open>Properties\<close>

text \<open>C20: After \<^verbatim>\<open>VM::initPIOHandler\<close> every port from 0 to 0xFFFE has a handler for both
  directions, and it is the one the ownership map assigns: the ranges registered for a device
  reach that device whatever was registered for the port before, the reset generator answers
  writes to 0xCF9 only, the ignored ranges are inert, and everything else is refused. Port 0xFFFF
  has no entry.\<close>

theorem pio_routing:
  "initPIOHandler machine_devices (\<lambda>_ _. None) p d =
     (if p = 0xFFFF then None else Some (owner_handler (port_owner p) d))"
  by (rule machine_table)

end
