(* ===== verification/PortBus.thy ===== *)
theory PortBus
  imports Pio
begin

text \<open>
  The port bus a vCPU sees: the devices behind the table of theory \<open>Pio\<close>, the virtual dispatch
  of \<^verbatim>\<open>IODev::Read\<close> and \<^verbatim>\<open>IODev::Write\<close> that the closures of \<^verbatim>\<open>VM::initPIOHandler\<close> make,
  and the call \<^verbatim>\<open>vm->pio_handler[port][direction](port, data, size)\<close> of \<^verbatim>\<open>Vcpu::RunOnce\<close>.
  The bus is itself an interpretation of the device contract, so that what holds of a device's
  sessions holds of the machine's.
\<close>

section \<open>The devices of the machine\<close>

datatype device = D_Post | D_Cmos cmos | D_Com1 com1

type_synonym 'k bus = "device list \<times> 'k host"

fun device_inv :: "device \<Rightarrow> bool" where
  "device_inv D_Post = True"
| "device_inv (D_Cmos c) = cmos_inv c"
| "device_inv (D_Com1 c) = com1_inv c"

text \<open>The objects \<^verbatim>\<open>VM::initMachine\<close> constructs; \<open>i\<close> is what the CMOS index happens to hold.\<close>

definition new_devices :: "u8 \<Rightarrow> device list" where
  "new_devices i = [D_Post, D_Cmos (cmos_new i), D_Com1 com1_new]"

text \<open>\<^verbatim>\<open>ptr->Read(port, data_ptr, size)\<close> and \<^verbatim>\<open>ptr->Write(port, data_ptr, size)\<close>.\<close>

fun dev_Read :: "'k os \<Rightarrow> u16 \<Rightarrow> buf \<Rightarrow> u8 \<Rightarrow> device \<times> 'k host \<Rightarrow>
    fault + (int \<times> buf \<times> device \<times> 'k host)" where
  "dev_Read os p b n (D_Post, h) =
     chain (post_Read p b n h) (\<lambda>(r, b', h'). Inr (r, b', (D_Post, h')))"
| "dev_Read os p b n (D_Cmos c, h) =
     chain (cmos_Read os p b n (c, h)) (\<lambda>(r, b', (c', h')). Inr (r, b', (D_Cmos c', h')))"
| "dev_Read os p b n (D_Com1 c, h) =
     chain (com1_Read p b n (c, h)) (\<lambda>(r, b', (c', h')). Inr (r, b', (D_Com1 c', h')))"

fun dev_Write :: "'k os \<Rightarrow> int \<Rightarrow> u16 \<Rightarrow> buf \<Rightarrow> u8 \<Rightarrow> device \<times> 'k host \<Rightarrow>
    fault + (int \<times> buf \<times> device \<times> 'k host)" where
  "dev_Write os vm_fd p b n (D_Post, h) =
     chain (post_Write p b n h) (\<lambda>(r, b', h'). Inr (r, b', (D_Post, h')))"
| "dev_Write os vm_fd p b n (D_Cmos c, h) =
     chain (cmos_Write os p b n (c, h)) (\<lambda>(r, b', (c', h')). Inr (r, b', (D_Cmos c', h')))"
| "dev_Write os vm_fd p b n (D_Com1 c, h) =
     chain (com1_Write os vm_fd p b n (c, h)) (\<lambda>(r, b', (c', h')). Inr (r, b', (D_Com1 c', h')))"

lemma dev_Read_total: "device_inv d \<Longrightarrow> \<exists>x. dev_Read os p b n (d, h) = Inr x"
  using cmos.read_total [where s = "(_, h)" and os = os and p = p and b = b and n = n]
    com1.read_total [where s = "(_, h)" and p = p and b = b and n = n]
  by (cases d) (fastforce simp: post_Read_def)+

lemma dev_Write_total: "device_inv d \<Longrightarrow> \<exists>x. dev_Write os vm_fd p b n (d, h) = Inr x"
  using cmos.write_total [where s = "(_, h)" and os = os and p = p and b = b and n = n]
    com1.write_total [where s = "(_, h)" and os = os and vm_fd = vm_fd and p = p and b = b and n = n]
  by (cases d) (fastforce simp: post_Write_def)+

text \<open>A device read or written through the contract of its class.\<close>

interpretation dev: io_device "dev_Read os" "dev_Write os vm_fd" "\<lambda>s. device_inv (fst s)"
    "\<lambda>_. True"
  for os :: "'k os" and vm_fd :: int
proof
  fix s :: "device \<times> 'k host" and s' p b n r b' and i :: nat
  obtain d h where s: "s = (d, h)" by (cases s)
  assume inv: "device_inv (fst s)"
  show "\<exists>x. dev_Read os p b n s = Inr x" "\<exists>x. dev_Write os vm_fd p b n s = Inr x"
    using inv unfolding s by (simp_all add: dev_Read_total dev_Write_total del: split_paired_Ex)
  show "device_inv (fst s')" if "dev_Read os p b n s = Inr (r, b', s')"
    using that inv cmos.read_inv com1.read_inv unfolding s by (cases d) fastforce+
  show "device_inv (fst s')" if "dev_Write os vm_fd p b n s = Inr (r, b', s')"
    using that inv cmos.write_inv com1.write_inv unfolding s by (cases d) fastforce+
  show "b' i = b i" if "dev_Read os p b n s = Inr (r, b', s')" "i \<noteq> 0"
    using that inv cmos.read_frame com1.read_frame
    unfolding s by (cases d) (fastforce simp: post_Read_def)+
  show "b' = b" if "dev_Write os vm_fd p b n s = Inr (r, b', s')"
    using that inv cmos.write_buffer com1.write_buffer
    unfolding s by (cases d) (fastforce simp: post_Write_def)+
qed

section \<open>A call through the table\<close>

text \<open>The handlers as functions of the bus: the closures capture the device's position.\<close>

fun pio_call :: "'k os \<Rightarrow> int \<Rightarrow> pio_handler \<Rightarrow> 'k bus dev_op" where
  "pio_call os vm_fd H_default p b n s = default_pio_handler p b n s"
| "pio_call os vm_fd H_do_nothing p b n s = do_nothing_pio_handler p b n s"
| "pio_call os vm_fd H_reset_out p b n s = reset_generator_handler_out p b n s"
| "pio_call os vm_fd (H_dev_read i) p b n (devs, h) =
     (if i < length devs then
        chain (dev_Read os p b n (devs ! i, h)) (\<lambda>(r, b', (d', h')). Inr (r, b', (devs[i := d'], h')))
      else Inl Out_Of_Bounds)"
| "pio_call os vm_fd (H_dev_write i) p b n (devs, h) =
     (if i < length devs then
        chain (dev_Write os vm_fd p b n (devs ! i, h)) (\<lambda>(r, b', (d', h')). Inr (r, b', (devs[i := d'], h')))
      else Inl Out_Of_Bounds)"

text \<open>
  \<^verbatim>\<open>vm->pio_handler[port][direction]\<close>: the array has \<^verbatim>\<open>PIO_PORT_NUM\<close> rows; calling an empty
  \<^verbatim>\<open>std::function\<close> throws.
\<close>

definition pio_access :: "'k os \<Rightarrow> int \<Rightarrow> pio_table \<Rightarrow> io_dir \<Rightarrow> 'k bus dev_op" where
  "pio_access os vm_fd tab d p b n s =
     (if \<not> p < PIO_PORT_NUM then Inl Out_Of_Bounds
      else case tab p d of
             None \<Rightarrow> Inl Bad_Function_Call
           | Some f \<Rightarrow> pio_call os vm_fd f p b n s)"

section \<open>The machine's bus\<close>

definition machine_pio :: pio_table where
  "machine_pio = initPIOHandler machine_devices (\<lambda>_ _. None)"

text \<open>Three devices, of the classes the table was built for, each with its invariant.\<close>

definition bus_inv :: "'k bus \<Rightarrow> bool" where
  "bus_inv s \<longleftrightarrow> length (fst s) = 3 \<and> (\<forall>d \<in> set (fst s). device_inv d)"

lemma bus_inv_new: "i < 0x80 \<Longrightarrow> bus_inv (new_devices i, h)"
  by (simp add: bus_inv_def new_devices_def cmos_inv_new com1_inv_new)

lemma bus_inv_device: "bus_inv s \<Longrightarrow> i < 3 \<Longrightarrow> i < length (fst s) \<and> device_inv (fst s ! i)"
  by (simp add: bus_inv_def)

lemma bus_inv_update: "bus_inv (devs, h) \<Longrightarrow> device_inv d \<Longrightarrow> bus_inv (devs[i := d], h')"
  using set_update_subset_insert [of devs i d] by (auto simp: bus_inv_def)

text \<open>An access by the owner of its port: the table is gone.\<close>

lemma pio_access_owner:
  "pio_access os vm_fd machine_pio d p b n s =
     (if p = 0xFFFF then Inl Out_Of_Bounds
      else pio_call os vm_fd (owner_handler (port_owner p) d) p b n s)"
  by (simp add: pio_access_def machine_pio_def machine_table less_u16_max_iff)

lemma owner_handler_cases:
  "owner_handler w d \<in> {H_default, H_do_nothing, H_reset_out} \<or>
     (\<exists>i. w = Owned_By i \<and> owner_handler w d =
        (case d of KVM_EXIT_IO_IN \<Rightarrow> H_dev_read i | KVM_EXIT_IO_OUT \<Rightarrow> H_dev_write i))"
  by (cases w; cases d) simp_all

lemma inert_handler:
  "f \<in> {H_default, H_do_nothing, H_reset_out} \<Longrightarrow>
     \<exists>r. pio_call os vm_fd f p b n s = Inr (r, b, s)"
  by (auto simp: default_pio_handler_def do_nothing_pio_handler_def
      reset_generator_handler_out_def)

text \<open>The two shapes of an access: inert, or a call of the owning device.\<close>

lemma pio_access_cases:
  assumes "p \<noteq> 0xFFFF"
  shows "(\<exists>r. pio_access os vm_fd machine_pio d p b n s = Inr (r, b, s)) \<or>
    (\<exists>i. port_owner p = Owned_By i \<and> i < 3
       \<and> pio_access os vm_fd machine_pio d p b n s =
           pio_call os vm_fd (case d of KVM_EXIT_IO_IN \<Rightarrow> H_dev_read i
                                      | KVM_EXIT_IO_OUT \<Rightarrow> H_dev_write i) p b n s)"
  using owner_handler_cases [of "port_owner p" d] inert_handler [of _ os vm_fd p b n s]
    port_owner_bound [of p] assms
  by (simp add: pio_access_owner) metis

lemma pio_read_shape:
  assumes "pio_access os vm_fd machine_pio KVM_EXIT_IO_IN p b n (devs, h) = Inr (r, b', (devs', h'))"
  shows "(b' = b \<and> devs' = devs \<and> h' = h) \<or>
    (\<exists>i d. port_owner p = Owned_By i \<and> i < 3 \<and> devs' = devs[i := d] \<and> i < length devs
        \<and> dev_Read os p b n (devs ! i, h) = Inr (r, b', (d, h')))"
proof -
  have "p \<noteq> 0xFFFF" using assms by (auto simp: pio_access_owner)
  from pio_access_cases [OF this, of os vm_fd KVM_EXIT_IO_IN b n "(devs, h)"] assms
  show ?thesis by (auto split: if_splits)
qed

lemma pio_write_shape:
  assumes "pio_access os vm_fd machine_pio KVM_EXIT_IO_OUT p b n (devs, h) = Inr (r, b', (devs', h'))"
  shows "(b' = b \<and> devs' = devs \<and> h' = h) \<or>
    (\<exists>i d. port_owner p = Owned_By i \<and> i < 3 \<and> devs' = devs[i := d] \<and> i < length devs
        \<and> dev_Write os vm_fd p b n (devs ! i, h) = Inr (r, b', (d, h')))"
proof -
  have "p \<noteq> 0xFFFF" using assms by (auto simp: pio_access_owner)
  from pio_access_cases [OF this, of os vm_fd KVM_EXIT_IO_OUT b n "(devs, h)"] assms
  show ?thesis by (auto split: if_splits)
qed

lemma pio_read_total:
  assumes "bus_inv (devs, h)" "p \<noteq> 0xFFFF"
  shows "\<exists>x. pio_access os vm_fd machine_pio KVM_EXIT_IO_IN p b n (devs, h) = Inr x"
proof -
  have "\<exists>x. pio_call os vm_fd (H_dev_read i) p b n (devs, h) = Inr x" if "i < 3" for i
  proof -
    have i: "i < length devs" "device_inv (devs ! i)"
      using bus_inv_device [OF assms(1) that] by simp_all
    obtain r b' d' h' where "dev_Read os p b n (devs ! i, h) = Inr (r, b', (d', h'))"
      using dev.read_total [where s = "(devs ! i, h)"] i(2) by (metis fst_conv prod_cases4)
    with i show ?thesis by simp
  qed
  with pio_access_cases [OF assms(2), of os vm_fd KVM_EXIT_IO_IN b n "(devs, h)"]
  show ?thesis by (auto simp del: pio_call.simps split_paired_Ex)
qed

lemma pio_write_total:
  assumes "bus_inv (devs, h)" "p \<noteq> 0xFFFF"
  shows "\<exists>x. pio_access os vm_fd machine_pio KVM_EXIT_IO_OUT p b n (devs, h) = Inr x"
proof -
  have "\<exists>x. pio_call os vm_fd (H_dev_write i) p b n (devs, h) = Inr x" if "i < 3" for i
  proof -
    have i: "i < length devs" "device_inv (devs ! i)"
      using bus_inv_device [OF assms(1) that] by simp_all
    obtain r b' d' h' where "dev_Write os vm_fd p b n (devs ! i, h) = Inr (r, b', (d', h'))"
      using dev.write_total [where s = "(devs ! i, h)"] i(2) by (metis fst_conv prod_cases4)
    with i show ?thesis by simp
  qed
  with pio_access_cases [OF assms(2), of os vm_fd KVM_EXIT_IO_OUT b n "(devs, h)"]
  show ?thesis by (auto simp del: pio_call.simps split_paired_Ex)
qed

interpretation bus: io_device
    "pio_access os vm_fd machine_pio KVM_EXIT_IO_IN"
    "pio_access os vm_fd machine_pio KVM_EXIT_IO_OUT" bus_inv "\<lambda>p. p \<noteq> 0xFFFF"
  for os :: "'k os" and vm_fd :: int
proof
  fix s s' :: "'k bus" and p b n r b' and i :: nat
  obtain devs h devs' h' where s: "s = (devs, h)" "s' = (devs', h')" by (cases s; cases s')
  assume inv: "bus_inv s"
  have dinv: "j < 3 \<Longrightarrow> device_inv (devs ! j)" for j
    using bus_inv_device [OF inv] by (simp add: s)
  show "\<exists>x. pio_access os vm_fd machine_pio KVM_EXIT_IO_IN p b n s = Inr x" if "p \<noteq> 0xFFFF"
    using pio_read_total inv that unfolding s by blast
  show "\<exists>x. pio_access os vm_fd machine_pio KVM_EXIT_IO_OUT p b n s = Inr x" if "p \<noteq> 0xFFFF"
    using pio_write_total inv that unfolding s by blast
  show "bus_inv s'"
    if "pio_access os vm_fd machine_pio KVM_EXIT_IO_IN p b n s = Inr (r, b', s')"
    using pio_read_shape [of os vm_fd p b n devs h r b' devs' h'] that inv dinv
      dev.read_inv [of "(_, h)"] bus_inv_update
    unfolding s by fastforce
  show "bus_inv s'"
    if "pio_access os vm_fd machine_pio KVM_EXIT_IO_OUT p b n s = Inr (r, b', s')"
    using pio_write_shape [of os vm_fd p b n devs h r b' devs' h'] that inv dinv
      dev.write_inv [of "(_, h)"] bus_inv_update
    unfolding s by fastforce
  show "b' i = b i"
    if "pio_access os vm_fd machine_pio KVM_EXIT_IO_IN p b n s = Inr (r, b', s')" "i \<noteq> 0"
    using pio_read_shape [of os vm_fd p b n devs h r b' devs' h'] that dinv
      dev.read_frame [of "(_, h)"]
    unfolding s by fastforce
  show "b' = b"
    if "pio_access os vm_fd machine_pio KVM_EXIT_IO_OUT p b n s = Inr (r, b', s')"
    using pio_write_shape [of os vm_fd p b n devs h r b' devs' h'] that dinv
      dev.write_buffer [of "(_, h)"]
    unfolding s by fastforce
qed

section \<open>Properties\<close>

text \<open>A session that touches the row the table does not have ends in the fault.\<close>

lemma bus_run_out_of_bounds:
  "(d, 0xFFFF, b, n) \<in> set accs \<Longrightarrow>
     \<exists>e. io_run (pio_access os vm_fd machine_pio KVM_EXIT_IO_IN)
          (pio_access os vm_fd machine_pio KVM_EXIT_IO_OUT) accs s = Inl e"
proof (induction accs arbitrary: s)
  case (Cons a accs)
  obtain d1 p1 b1 n1 where a: "a = (d1, p1, b1, n1)" by (cases a)
  show ?case
  proof (cases "a = (d, 0xFFFF, b, n)")
    case True
    then show ?thesis by (cases d) (simp_all add: pio_access_owner)
  next
    case False
    with Cons.prems have "(d, 0xFFFF, b, n) \<in> set accs" by auto
    note IH = Cons.IH [OF this]
    show ?thesis
    proof (cases "pio_access os vm_fd machine_pio d1 p1 b1 n1 s")
      case (Inl e)
      then show ?thesis by (cases d1) (simp_all add: a)
    next
      case (Inr x)
      then show ?thesis using IH [of "snd (snd x)"] by (cases x; cases d1) (simp_all add: a)
    qed
  qed
qed simp

text \<open>C7: The whole port bus of the machine as \<^verbatim>\<open>VM::initMachine\<close> builds it: a guest session of port
  accesses, of any ports, directions, sizes and data, whatever the devices answer, runs to its end
  exactly when no access is to port 0xFFFF, for which the handler table has no row. (The leftover
  CMOS index is assumed to be inside its memory.)\<close>

theorem bus_session_safe:
  assumes "i < 0x80"
  shows "(\<exists>s'. io_run (pio_access os vm_fd machine_pio KVM_EXIT_IO_IN)
               (pio_access os vm_fd machine_pio KVM_EXIT_IO_OUT) accs (new_devices i, h) = Inr s')
         \<longleftrightarrow> 0xFFFF \<notin> (\<lambda>(d, p, b, n). p) ` set accs"
proof
  assume "\<exists>s'. io_run (pio_access os vm_fd machine_pio KVM_EXIT_IO_IN)
    (pio_access os vm_fd machine_pio KVM_EXIT_IO_OUT) accs (new_devices i, h) = Inr s'"
  then show "0xFFFF \<notin> (\<lambda>(d, p, b, n). p) ` set accs"
    using bus_run_out_of_bounds [of _ _ _ accs os vm_fd "(new_devices i, h)"] by fastforce
next
  assume "0xFFFF \<notin> (\<lambda>(d, p, b, n). p) ` set accs"
  then have "\<And>d p b n. (d, p, b, n) \<in> set accs \<Longrightarrow> p \<noteq> 0xFFFF" by force
  then show "\<exists>s'. io_run (pio_access os vm_fd machine_pio KVM_EXIT_IO_IN)
    (pio_access os vm_fd machine_pio KVM_EXIT_IO_OUT) accs (new_devices i, h) = Inr s'"
    by (rule bus.run_total [OF bus_inv_new [OF assms]])
qed

theorem bus_session_safe_witness:
  "(\<exists>s'. io_run (pio_access sample_os 4 machine_pio KVM_EXIT_IO_IN)
           (pio_access sample_os 4 machine_pio KVM_EXIT_IO_OUT)
           [(KVM_EXIT_IO_OUT, 0x70, \<lambda>_. 0xFF, 1), (KVM_EXIT_IO_IN, 0x71, \<lambda>_. 0, 1)]
           (new_devices 0, sample_host [] []) = Inr s')
   \<longleftrightarrow> 0xFFFF \<notin> (\<lambda>(d, p, b, n). p) `
         set [(KVM_EXIT_IO_OUT, 0x70 :: u16, \<lambda>_ :: nat. 0xFF :: u8, 1 :: u8),
              (KVM_EXIT_IO_IN, 0x71, \<lambda>_. 0, 1)]"
  by (rule bus_session_safe) simp

text \<open>C39: Devices do not reach into each other: an access to a port changes the state of no device
  but the one the ownership map names for that port, whatever the direction, size and data.\<close>

theorem pio_device_isolation:
  assumes "pio_access os vm_fd machine_pio d p b n (devs, h) = Inr (r, b', (devs', h'))"
    and "port_owner p \<noteq> Owned_By j"
  shows "devs' ! j = devs ! j"
  using assms pio_read_shape [of os vm_fd p b n devs h r b' devs' h']
    pio_write_shape [of os vm_fd p b n devs h r b' devs' h']
  by (cases d) (auto simp: nth_list_update_neq)

theorem pio_device_isolation_witness:
  "[D_Post, D_Cmos ((cmos_new 0)\<lparr>cmos_index := 0x20\<rparr>), D_Com1 com1_new] ! 2
     = (new_devices 0 :: device list) ! 2"
  by (rule pio_device_isolation [where os = sample_os and vm_fd = 4 and d = KVM_EXIT_IO_OUT
        and p = "0x70" and b = "\<lambda>_. 0x20" and b' = "\<lambda>_. 0x20" and n = 1 and r = 0
        and h = "sample_host [] []" and h' = "sample_host [] []"])
    (simp_all add: pio_access_owner port_owner_def new_devices_def cmos_Write_def)

end
