(* ===== verification/OStream.thy ===== *)
theory OStream
  imports LvmmPrelude
begin

text \<open>
  What the program uses of \<^verbatim>\<open>std::ostream\<close>: the formatting state (base, fill character, the
  width that one insertion consumes) and the insertion of strings and unsigned integers. The
  dump functions of theory \<open>VcpuDump\<close> are written as the lists of items they insert.
\<close>

section \<open>The stream\<close>

record ostream =
  st_hex :: bool
  st_fill :: char
  st_width :: nat
  st_text :: string

datatype out_item = Str string | Num nat | Setw nat | Setfill char | Set_hex | Set_dec

abbreviation NL :: char where "NL \<equiv> CHR 0x0A"

text \<open>The digits of a number, most significant first, never none.\<close>

function nat_digits :: "nat \<Rightarrow> nat \<Rightarrow> nat list" where
  "nat_digits base n =
     (if base < 2 \<or> n < base then [n] else nat_digits base (n div base) @ [n mod base])"
  by pat_completeness auto
termination
  by (relation "measure snd") (auto intro: div_less_dividend)

declare nat_digits.simps [simp del]

definition digit_char :: "nat \<Rightarrow> char" where
  "digit_char d = ''0123456789abcdef'' ! d"

definition num_text :: "bool \<Rightarrow> nat \<Rightarrow> string" where
  "num_text hexa n = map digit_char (nat_digits (if hexa then 16 else 10) n)"

definition pad_left :: "nat \<Rightarrow> char \<Rightarrow> string \<Rightarrow> string" where
  "pad_left w c s = replicate (w - length s) c @ s"

primrec out_step :: "out_item \<Rightarrow> ostream \<Rightarrow> ostream" where
  "out_step (Str s) o1 =
     o1\<lparr>st_width := 0, st_text := st_text o1 @ pad_left (st_width o1) (st_fill o1) s\<rparr>"
| "out_step (Num n) o1 =
     o1\<lparr>st_width := 0,
        st_text := st_text o1 @ pad_left (st_width o1) (st_fill o1) (num_text (st_hex o1) n)\<rparr>"
| "out_step (Setw n) o1 = o1\<lparr>st_width := n\<rparr>"
| "out_step (Setfill c) o1 = o1\<lparr>st_fill := c\<rparr>"
| "out_step Set_hex o1 = o1\<lparr>st_hex := True\<rparr>"
| "out_step Set_dec o1 = o1\<lparr>st_hex := False\<rparr>"

definition out_all :: "out_item list \<Rightarrow> ostream \<Rightarrow> ostream" where
  "out_all items o1 = fold out_step items o1"

text \<open>\<^verbatim>\<open>(value & MASK ? "1" : "0")\<close> with what follows it on the line.\<close>

definition flag :: "'a::len word \<Rightarrow> 'a word \<Rightarrow> string \<Rightarrow> out_item" where
  "flag v m t = Str ((if v AND m \<noteq> 0 then ''1'' else ''0'') @ t)"

section \<open>What the items do\<close>

lemma out_all_simps [simp]:
  "out_all [] o1 = o1"
  "out_all (x # xs) o1 = out_all xs (out_step x o1)"
  by (simp_all add: out_all_def)

lemma out_all_append: "out_all (xs @ ys) o1 = out_all ys (out_all xs o1)"
  by (simp add: out_all_def)

lemma pad_left_0 [simp]: "pad_left 0 c s = s"
  by (simp add: pad_left_def)

lemma flag_step [simp]:
  "out_step (flag v m t) o1 =
     out_step (Str ((if v AND m \<noteq> 0 then ''1'' else ''0'') @ t)) o1"
  by (simp add: flag_def)

section \<open>Numbers read back\<close>

definition digits_value :: "nat \<Rightarrow> nat list \<Rightarrow> nat" where
  "digits_value base ds = fold (\<lambda>d v. v * base + d) ds 0"

lemma digits_value_append1: "digits_value base (ds @ [d]) = digits_value base ds * base + d"
  by (simp add: digits_value_def)

lemma nat_digits_value: "2 \<le> base \<Longrightarrow> digits_value base (nat_digits base n) = n"
proof (induction base n rule: nat_digits.induct)
  case (1 base n)
  show ?case
  proof (cases "n < base")
    case True
    then show ?thesis by (simp add: nat_digits.simps [of base n] digits_value_def)
  next
    case False
    then have "digits_value base (nat_digits base (n div base)) = n div base"
      using 1 by simp
    with False 1(2) show ?thesis
      by (simp add: nat_digits.simps [of base n] digits_value_append1)
  qed
qed

lemma nat_digits_less: "2 \<le> base \<Longrightarrow> d \<in> set (nat_digits base n) \<Longrightarrow> d < base"
proof (induction base n rule: nat_digits.induct)
  case (1 base n)
  then show ?case by (auto simp: nat_digits.simps [of base n] split: if_splits)
qed

lemma nat_digits_length: "2 \<le> base \<Longrightarrow> n < base ^ Suc k \<Longrightarrow> length (nat_digits base n) \<le> Suc k"
proof (induction k arbitrary: n)
  case 0
  then show ?case by (simp add: nat_digits.simps [of base n])
next
  case (Suc k)
  show ?case
  proof (cases "n < base")
    case True
    then show ?thesis by (simp add: nat_digits.simps [of base n])
  next
    case False
    have "n div base < base ^ Suc k"
      using Suc.prems by (simp add: less_mult_imp_div_less mult.commute)
    with Suc.IH Suc.prems(1) have "length (nat_digits base (n div base)) \<le> Suc k" by simp
    with False Suc.prems(1) show ?thesis by (simp add: nat_digits.simps [of base n])
  qed
qed

text \<open>The value of a padded hexadecimal field: leading zeros do not count.\<close>

definition hex_digit :: "char \<Rightarrow> nat" where
  "hex_digit c = (let v = of_char c :: nat in if v < 58 then v - 48 else v - 87)"

definition hex_value :: "string \<Rightarrow> nat" where
  "hex_value s = digits_value 16 (map hex_digit s)"

lemma hex_digit_char: "d < 16 \<Longrightarrow> hex_digit (digit_char d) = d"
proof -
  have "\<forall>d < 16. hex_digit (digit_char d) = d"
    by code_simp
  then show "d < 16 \<Longrightarrow> hex_digit (digit_char d) = d" by blast
qed

lemma hex_value_num_text: "hex_value (num_text True n) = n"
proof -
  have "map (hex_digit \<circ> digit_char) (nat_digits 16 n) = nat_digits 16 n"
    using nat_digits_less [of 16 _ n] by (intro map_idI) (simp add: hex_digit_char)
  then show ?thesis by (simp add: hex_value_def num_text_def nat_digits_value)
qed

lemma hex_value_pad: "hex_value (pad_left w CHR ''0'' s) = hex_value s"
proof -
  have "fold (\<lambda>d v. v * 16 + d) (replicate k (0 :: nat)) 0 = 0" for k :: nat
    by (induction k) simp_all
  then show ?thesis
    by (simp add: pad_left_def hex_value_def digits_value_def hex_digit_def)
qed

text \<open>A register in a field of sixteen digits: exactly sixteen characters, and they say it all.\<close>

definition hex16 :: "u64 \<Rightarrow> string" where
  "hex16 w = pad_left 16 CHR ''0'' (num_text True (unat w))"

lemma length_hex16 [simp]: "length (hex16 w) = 16"
proof -
  have "unat w < 16 ^ Suc 15" using unsigned_less [of w] by simp
  then have "length (nat_digits 16 (unat w)) \<le> Suc 15" by (intro nat_digits_length) simp_all
  then show ?thesis by (simp add: hex16_def pad_left_def num_text_def)
qed

lemma hex_value_hex16 [simp]: "hex_value (hex16 w) = unat w"
  by (simp add: hex16_def hex_value_pad hex_value_num_text)

lemma hex16_inj [simp]: "hex16 v = hex16 w \<longleftrightarrow> v = w"
  by (metis hex_value_hex16 word_unat_eq_iff)

end
