(* ===== verification/VcpuConsts.thy ===== *)
theory VcpuConsts
  imports HostIface
begin

text \<open>
  The constants of \<^verbatim>\<open>include/vcpu.hpp\<close>: the hypervisor CPUID leaf, the bits of the control
  registers, of \<^verbatim>\<open>RFLAGS\<close> and of the EFER register, and the fields of a segment descriptor.

  Two kinds of value are not what the name suggests, and are written here as the compiler sees
  them: \<^verbatim>\<open>1 << 31\<close> is a negative \<^verbatim>\<open>int\<close>, which the conversion to \<^verbatim>\<open>uint64_t\<close> sign-extends
  (\<open>CR0_PG\<close>, \<open>RF_AI\<close>), and \<^verbatim>\<open>1 << 12 & 1 << 13\<close> is 0 (\<open>RF_IOPL\<close>).
\<close>

section \<open>CPUID\<close>

abbreviation (input) KVM_CPUID_ENTRIES_NUM :: nat where "KVM_CPUID_ENTRIES_NUM \<equiv> 100"

abbreviation (input) KVM_CPUID_SIGNATURE :: u32 where "KVM_CPUID_SIGNATURE \<equiv> 0x40000000"

abbreviation (input) KVM_CPUID_FEATURES :: u32 where "KVM_CPUID_FEATURES \<equiv> 0x40000001"

abbreviation (input) KVM_CPUID_EBX :: u32 where "KVM_CPUID_EBX \<equiv> 0x4B4D564B"

abbreviation (input) KVM_CPUID_ECX :: u32 where "KVM_CPUID_ECX \<equiv> 0x564B4D56"

abbreviation (input) KVM_CPUID_EDX :: u32 where "KVM_CPUID_EDX \<equiv> 0x4D"

section \<open>Control registers\<close>

abbreviation (input) CR0_PE :: u64 where "CR0_PE \<equiv> 1"

abbreviation (input) CR0_MP :: u64 where "CR0_MP \<equiv> 2"

abbreviation (input) CR0_EM :: u64 where "CR0_EM \<equiv> 4"

abbreviation (input) CR0_TS :: u64 where "CR0_TS \<equiv> 8"

abbreviation (input) CR0_ET :: u64 where "CR0_ET \<equiv> 0x10"

abbreviation (input) CR0_NE :: u64 where "CR0_NE \<equiv> 0x20"

abbreviation (input) CR0_WP :: u64 where "CR0_WP \<equiv> 0x10000"

abbreviation (input) CR0_AM :: u64 where "CR0_AM \<equiv> 0x40000"

abbreviation (input) CR0_NW :: u64 where "CR0_NW \<equiv> 0x20000000"

abbreviation (input) CR0_CD :: u64 where "CR0_CD \<equiv> 0x40000000"

abbreviation (input) CR0_PG :: u64 where "CR0_PG \<equiv> 0xFFFFFFFF80000000"

abbreviation (input) CR3_PWT :: u64 where "CR3_PWT \<equiv> 8"

abbreviation (input) CR3_PCD :: u64 where "CR3_PCD \<equiv> 0x10"

abbreviation (input) CR3_PDBR_MASK :: u64 where "CR3_PDBR_MASK \<equiv> 0xFFFFFFFFFFFFF000"

abbreviation (input) CR4_VME :: u64 where "CR4_VME \<equiv> 1"

abbreviation (input) CR4_PVI :: u64 where "CR4_PVI \<equiv> 2"

abbreviation (input) CR4_TSD :: u64 where "CR4_TSD \<equiv> 4"

abbreviation (input) CR4_DE :: u64 where "CR4_DE \<equiv> 8"

abbreviation (input) CR4_PSE :: u64 where "CR4_PSE \<equiv> 0x10"

abbreviation (input) CR4_PAE :: u64 where "CR4_PAE \<equiv> 0x20"

abbreviation (input) CR4_MCE :: u64 where "CR4_MCE \<equiv> 0x40"

abbreviation (input) CR4_PGE :: u64 where "CR4_PGE \<equiv> 0x80"

abbreviation (input) CR4_PCE :: u64 where "CR4_PCE \<equiv> 0x100"

abbreviation (input) CR4_OSFXSR :: u64 where "CR4_OSFXSR \<equiv> 0x200"

abbreviation (input) CR4_OSXMMEXCPT :: u64 where "CR4_OSXMMEXCPT \<equiv> 0x400"

abbreviation (input) CR4_UMIP :: u64 where "CR4_UMIP \<equiv> 0x800"

abbreviation (input) CR4_VMXE :: u64 where "CR4_VMXE \<equiv> 0x2000"

abbreviation (input) CR4_SMXE :: u64 where "CR4_SMXE \<equiv> 0x4000"

abbreviation (input) CR4_FSGSBASE :: u64 where "CR4_FSGSBASE \<equiv> 0x10000"

abbreviation (input) CR4_PCIDE :: u64 where "CR4_PCIDE \<equiv> 0x20000"

abbreviation (input) CR4_OSXSAVE :: u64 where "CR4_OSXSAVE \<equiv> 0x40000"

abbreviation (input) CR4_SMEP :: u64 where "CR4_SMEP \<equiv> 0x100000"

abbreviation (input) CR4_SMAP :: u64 where "CR4_SMAP \<equiv> 0x200000"

abbreviation (input) CR4_PKE :: u64 where "CR4_PKE \<equiv> 0x400000"

abbreviation (input) CR4_CET :: u64 where "CR4_CET \<equiv> 0x800000"

abbreviation (input) CR4_PKS :: u64 where "CR4_PKS \<equiv> 0x1000000"

section \<open>RFLAGS\<close>

abbreviation (input) RF_CF :: u64 where "RF_CF \<equiv> 1"

abbreviation (input) RF_INIT :: u64 where "RF_INIT \<equiv> 2"

abbreviation (input) RF_PF :: u64 where "RF_PF \<equiv> 4"

abbreviation (input) RF_AF :: u64 where "RF_AF \<equiv> 0x10"

abbreviation (input) RF_ZF :: u64 where "RF_ZF \<equiv> 0x40"

abbreviation (input) RF_SF :: u64 where "RF_SF \<equiv> 0x80"

abbreviation (input) RF_TF :: u64 where "RF_TF \<equiv> 0x100"

abbreviation (input) RF_IF :: u64 where "RF_IF \<equiv> 0x200"

abbreviation (input) RF_DF :: u64 where "RF_DF \<equiv> 0x400"

abbreviation (input) RF_OF :: u64 where "RF_OF \<equiv> 0x800"

abbreviation (input) RF_IOPL :: u64 where "RF_IOPL \<equiv> 0"

abbreviation (input) RF_NT :: u64 where "RF_NT \<equiv> 0x4000"

abbreviation (input) RF_MD :: u64 where "RF_MD \<equiv> 0x8000"

abbreviation (input) RF_RF :: u64 where "RF_RF \<equiv> 0x10000"

abbreviation (input) RF_VM :: u64 where "RF_VM \<equiv> 0x20000"

abbreviation (input) RF_AC :: u64 where "RF_AC \<equiv> 0x40000"

abbreviation (input) RF_VIF :: u64 where "RF_VIF \<equiv> 0x80000"

abbreviation (input) RF_VIP :: u64 where "RF_VIP \<equiv> 0x100000"

abbreviation (input) RF_ID :: u64 where "RF_ID \<equiv> 0x200000"

abbreviation (input) RF_AES :: u64 where "RF_AES \<equiv> 0x40000000"

abbreviation (input) RF_AI :: u64 where "RF_AI \<equiv> 0xFFFFFFFF80000000"

section \<open>EFER\<close>

abbreviation (input) MSR_IA32_EFER_SCE :: u64 where "MSR_IA32_EFER_SCE \<equiv> 1"

abbreviation (input) MSR_IA32_EFER_LME :: u64 where "MSR_IA32_EFER_LME \<equiv> 0x100"

abbreviation (input) MSR_IA32_EFER_LMA :: u64 where "MSR_IA32_EFER_LMA \<equiv> 0x400"

abbreviation (input) MSR_IA32_EFER_NXE :: u64 where "MSR_IA32_EFER_NXE \<equiv> 0x800"

abbreviation (input) MSR_IA32_EFER_SVME :: u64 where "MSR_IA32_EFER_SVME \<equiv> 0x1000"

abbreviation (input) MSR_IA32_EFER_LMSLE :: u64 where "MSR_IA32_EFER_LMSLE \<equiv> 0x2000"

abbreviation (input) MSR_IA32_EFER_FFXSR :: u64 where "MSR_IA32_EFER_FFXSR \<equiv> 0x4000"

abbreviation (input) MSR_IA32_EFER_TCE :: u64 where "MSR_IA32_EFER_TCE \<equiv> 0x8000"

section \<open>Segment descriptors\<close>

abbreviation (input) SEG_DESC_SELECTOR_TI_GDT :: u16 where "SEG_DESC_SELECTOR_TI_GDT \<equiv> 0"

abbreviation (input) SEG_DESC_SELECTOR_TI_LDT :: u16 where "SEG_DESC_SELECTOR_TI_LDT \<equiv> 4"

abbreviation (input) SEG_DESC_SELECTOR_IDX_SHIFT :: u8 where
  "SEG_DESC_SELECTOR_IDX_SHIFT \<equiv> 3"

abbreviation (input) SEG_DESC_SELECTOR_RPL_KERNEL :: u16 where
  "SEG_DESC_SELECTOR_RPL_KERNEL \<equiv> 0"

abbreviation (input) SEG_DESC_TYPE_CODE_A :: u8 where "SEG_DESC_TYPE_CODE_A \<equiv> 1"

abbreviation (input) SEG_DESC_TYPE_CODE_R :: u8 where "SEG_DESC_TYPE_CODE_R \<equiv> 2"

abbreviation (input) SEG_DESC_TYPE_CODE_C :: u8 where "SEG_DESC_TYPE_CODE_C \<equiv> 4"

abbreviation (input) SEG_DESC_TYPE_CODE :: u8 where "SEG_DESC_TYPE_CODE \<equiv> 8"

abbreviation (input) SEG_DESC_TYPE_DATA_A :: u8 where "SEG_DESC_TYPE_DATA_A \<equiv> 1"

abbreviation (input) SEG_DESC_TYPE_DATA_W :: u8 where "SEG_DESC_TYPE_DATA_W \<equiv> 2"

abbreviation (input) SEG_DESC_TYPE_DATA_E :: u8 where "SEG_DESC_TYPE_DATA_E \<equiv> 4"

abbreviation (input) SEG_DESC_TYPE_DATA :: u8 where "SEG_DESC_TYPE_DATA \<equiv> 0"

abbreviation (input) SEG_DESC_TYPE_FLAG_CD :: u8 where "SEG_DESC_TYPE_FLAG_CD \<equiv> 1"

abbreviation (input) SEG_DESC_DPL_KERNEL :: u8 where "SEG_DESC_DPL_KERNEL \<equiv> 0"

abbreviation (input) SEG_DESC_DB_EX_LSET :: u8 where "SEG_DESC_DB_EX_LSET \<equiv> 0"

abbreviation (input) SEG_DESC_L_64BIT_MODE :: u8 where "SEG_DESC_L_64BIT_MODE \<equiv> 1"

abbreviation (input) SEG_DESC_GRAN_4KB :: u8 where "SEG_DESC_GRAN_4KB \<equiv> 1"

section \<open>The values of the constants with a shift\<close>

text \<open>The two sign-extended constants as the source writes them, on a 32-bit \<^verbatim>\<open>int\<close>.\<close>

lemma sign_extended_constants:
  "CR0_PG = (scast (push_bit 31 (1 :: u32)) :: u64)" "RF_AI = (scast (push_bit 31 (1 :: u32)) :: u64)"
  by code_simp+

lemma rf_iopl_value: "RF_IOPL = (push_bit 12 1 AND push_bit 13 1 :: u64)"
  by simp

lemma cr3_pdbr_mask_value: "CR3_PDBR_MASK = (push_bit 12 (push_bit 52 1 - 1) :: u64)"
  by simp

end
