(* ===== verification/BootConsts.thy ===== *)
theory BootConsts
  imports LvmmPrelude
begin

text \<open>
  The constants of \<^verbatim>\<open>include/boot.hpp\<close>: the guest-physical memory map of the machine, the
  MultiProcessor tables, the E820 types and the setup header of the Linux boot protocol.
\<close>

abbreviation (input) PARAGRAPH_SIZE :: nat where "PARAGRAPH_SIZE \<equiv> 16"

abbreviation (input) SECT_SIZE :: nat where "SECT_SIZE \<equiv> 512"

abbreviation (input) REALMODE_IVT_START :: u64 where "REALMODE_IVT_START \<equiv> 0"

abbreviation (input) BOOT_PARAMS_ADDR :: u64 where "BOOT_PARAMS_ADDR \<equiv> 0x10000"

abbreviation (input) COMMANDLINE_ADDR :: u64 where "COMMANDLINE_ADDR \<equiv> 0x20000"

abbreviation (input) BOOT_PAGETABLE_BASE :: u64 where "BOOT_PAGETABLE_BASE \<equiv> 0x30000"

abbreviation (input) EBDA_START :: u64 where "EBDA_START \<equiv> 0x9FC00"

abbreviation (input) VGARAM_START :: u64 where "VGARAM_START \<equiv> 0xA0000"

abbreviation (input) MBBIOS_START :: u64 where "MBBIOS_START \<equiv> 0xF0000"

abbreviation (input) HIGHMEM_BASE :: u64 where "HIGHMEM_BASE \<equiv> 0x100000"

abbreviation (input) INITRAMFS_ADDR :: u64 where "INITRAMFS_ADDR \<equiv> 0xF000000"

abbreviation (input) TSS_BASE :: u64 where "TSS_BASE \<equiv> 0xF8000000"

abbreviation (input) IDENTITY_MAP_BASE :: u64 where "IDENTITY_MAP_BASE \<equiv> 0xF8003000"

abbreviation (input) APIC_BASE :: u64 where "APIC_BASE \<equiv> 0xFEE00000"

abbreviation (input) MBBIOS_SIZE :: u32 where "MBBIOS_SIZE \<equiv> 0xFFFF"

abbreviation (input) EBDA_PADDING_SIZE :: nat where "EBDA_PADDING_SIZE \<equiv> 48"

abbreviation (input) MP_MAX_VCPU_NUM :: nat where "MP_MAX_VCPU_NUM \<equiv> 32"

abbreviation (input) MP_SPEC_REV_1_4 :: u8 where "MP_SPEC_REV_1_4 \<equiv> 4"

abbreviation (input) MPFPS_INTEL_SIGNATURE :: u32 where
  "MPFPS_INTEL_SIGNATURE \<equiv> 0x5F504D5F"

abbreviation (input) MPFPS_LENGTH :: u8 where "MPFPS_LENGTH \<equiv> 1"

abbreviation (input) MPFPS_SPEC_REV_1_4 :: u8 where "MPFPS_SPEC_REV_1_4 \<equiv> 4"

abbreviation (input) MPFPS_FEAT_CTPRESENT :: u8 where "MPFPS_FEAT_CTPRESENT \<equiv> 0"

abbreviation (input) MPFPS_FEAT_VIRTWIRE :: u8 where "MPFPS_FEAT_VIRTWIRE \<equiv> 0"

abbreviation (input) MPCTABLE_INTEL_SIGNATURE :: u32 where
  "MPCTABLE_INTEL_SIGNATURE \<equiv> 0x504D4350"

abbreviation (input) MPCTABLE_SPEC_REV_1_4 :: u8 where "MPCTABLE_SPEC_REV_1_4 \<equiv> 4"

abbreviation (input) MPCTABLE_OEM_ID :: u64 where "MPCTABLE_OEM_ID \<equiv> 0x5453455447494D4C"

abbreviation (input) MPCTE_ENTRY_TYPE_PROC :: u8 where "MPCTE_ENTRY_TYPE_PROC \<equiv> 0"

abbreviation (input) MPCTE_PROC_APIC_VER :: u8 where "MPCTE_PROC_APIC_VER \<equiv> 0x14"

abbreviation (input) MPCTE_PROC_CPUFLAGS_EN :: u8 where "MPCTE_PROC_CPUFLAGS_EN \<equiv> 1"

abbreviation (input) MPCTE_PROC_CPUFLAGS_BP :: u8 where "MPCTE_PROC_CPUFLAGS_BP \<equiv> 2"

abbreviation (input) MPCTE_PROC_FEATFLAGS_FPU :: u32 where "MPCTE_PROC_FEATFLAGS_FPU \<equiv> 1"

abbreviation (input) MPCTE_PROC_FEATFLAGS_APIC :: u32 where
  "MPCTE_PROC_FEATFLAGS_APIC \<equiv> 0x200"

abbreviation (input) MPCTE_PROC_CPUSIGNATURE :: u32 where
  "MPCTE_PROC_CPUSIGNATURE \<equiv> 0x6000000"

abbreviation (input) BOOT_EDD_MBR_SIG_MAX :: u32 where "BOOT_EDD_MBR_SIG_MAX \<equiv> 0x10"

abbreviation (input) BOOT_E820_MAP_MAX :: u32 where "BOOT_E820_MAP_MAX \<equiv> 0x80"

abbreviation (input) BOOT_E820_TYPE_RAM :: u32 where "BOOT_E820_TYPE_RAM \<equiv> 1"

abbreviation (input) BOOT_E820_TYPE_RESERVED :: u32 where "BOOT_E820_TYPE_RESERVED \<equiv> 2"

abbreviation (input) SETUP_HEADER_ADDR :: nat where "SETUP_HEADER_ADDR \<equiv> 0x1F1"

abbreviation (input) BOOT_HDR_VID_MODE_NML :: u16 where "BOOT_HDR_VID_MODE_NML \<equiv> 0xFFFF"

abbreviation (input) BOOT_HDR_BOOT_FLAG :: u16 where "BOOT_HDR_BOOT_FLAG \<equiv> 0xAAFF"

abbreviation (input) BOOT_HDR_MAGIC :: u32 where "BOOT_HDR_MAGIC \<equiv> 0x53726448"

abbreviation (input) BOOT_HDR_BLT_UNDEFINED :: u8 where "BOOT_HDR_BLT_UNDEFINED \<equiv> 0xFF"

abbreviation (input) BOOT_HDR_LF_HIGH :: u8 where "BOOT_HDR_LF_HIGH \<equiv> 1"

abbreviation (input) BOOT_HDR_LF_KASLR :: u8 where "BOOT_HDR_LF_KASLR \<equiv> 2"

abbreviation (input) BOOT_HDR_LF_QUIET :: u8 where "BOOT_HDR_LF_QUIET \<equiv> 0x10"

abbreviation (input) BOOT_HDR_LF_KEEP_SGMT :: u8 where "BOOT_HDR_LF_KEEP_SGMT \<equiv> 0x40"

abbreviation (input) BOOT_HDR_LF_HEAP :: u8 where "BOOT_HDR_LF_HEAP \<equiv> 0x80"

abbreviation (input) BOOT_HDR_HEAPEND_OFFSET :: u32 where "BOOT_HDR_HEAPEND_OFFSET \<equiv> 0x200"

abbreviation (input) ELF_MAGIC_SIZE :: nat where "ELF_MAGIC_SIZE \<equiv> 4"

definition ELF_MAGIC :: "u8 list" where
  "ELF_MAGIC = [0x7F, of_char CHR ''E'', of_char CHR ''L'', of_char CHR ''F'']"

end
