(* ===== verification/VcpuRegs.thy ===== *)
theory VcpuRegs
  imports VcpuConsts BootConsts SampleHost
begin

text \<open>
  The register state of a vCPU (\<^verbatim>\<open>src/vcpu.cpp\<close>): the four wrappers of the register ioctls,
  \<^verbatim>\<open>Vcpu::InitRegs\<close> and \<^verbatim>\<open>Vcpu::InitSregs\<close>. The local structures \<^verbatim>\<open>regs\<close> and \<^verbatim>\<open>sregs\<close>
  start uninitialised: their first content is an argument (\<open>r0\<close>, \<open>s0\<close>) of the model.
\<close>

section \<open>The register ioctls\<close>

definition GetRegs :: "'k os \<Rightarrow> int \<Rightarrow> vcpu_regs \<Rightarrow> 'k host \<Rightarrow> (int \<times> vcpu_regs) \<times> 'k host" where
  "GetRegs os fd regs h =
     (let ((r, req), h') = kvmIoctl os fd (KVM_GET_REGS regs) h;
          regs' = (case req of KVM_GET_REGS x \<Rightarrow> x | _ \<Rightarrow> regs)
      in if r < 0 then ((- errno h', regs'), h') else ((0, regs'), h'))"

definition GetSregs :: "'k os \<Rightarrow> int \<Rightarrow> vcpu_sregs \<Rightarrow> 'k host \<Rightarrow> (int \<times> vcpu_sregs) \<times> 'k host" where
  "GetSregs os fd sregs h =
     (let ((r, req), h') = kvmIoctl os fd (KVM_GET_SREGS sregs) h;
          sregs' = (case req of KVM_GET_SREGS x \<Rightarrow> x | _ \<Rightarrow> sregs)
      in if r < 0 then ((- errno h', sregs'), h') else ((0, sregs'), h'))"

definition SetRegs :: "'k os \<Rightarrow> int \<Rightarrow> vcpu_regs \<Rightarrow> 'k host \<Rightarrow> int \<times> 'k host" where
  "SetRegs os fd regs h = ioctl_status os fd (KVM_SET_REGS regs) h"

definition SetSregs :: "'k os \<Rightarrow> int \<Rightarrow> vcpu_sregs \<Rightarrow> 'k host \<Rightarrow> int \<times> 'k host" where
  "SetSregs os fd sregs h = ioctl_status os fd (KVM_SET_SREGS sregs) h"

section \<open>InitRegs\<close>

definition InitRegs :: "'k os \<Rightarrow> int \<Rightarrow> u64 \<Rightarrow> u64 \<Rightarrow> vcpu_regs \<Rightarrow> 'k host \<Rightarrow> int \<times> 'k host" where
  "InitRegs os fd new_rip new_rsi r0 h =
     (let ((r, regs), h1) = GetRegs os fd r0 h in
      if r \<noteq> 0 then (r, h1)
      else
        let regs' = regs\<lparr>rip := new_rip, rsi := new_rsi, rflags := RF_INIT\<rparr>;
            (r', h2) = SetRegs os fd regs' h1
        in if r' \<noteq> 0 then (r', h2) else (0, h2))"

section \<open>InitSregs\<close>

text \<open>A segment stretched over the whole 4 GiB, in 4 KiB granules.\<close>

definition flat_segment :: "kvm_segment \<Rightarrow> kvm_segment" where
  "flat_segment sd = sd\<lparr>sd_base := 0, sd_limit := 0xFFFFFFFF, sd_g := 1\<rparr>"

definition protected_mode_sregs :: "vcpu_sregs \<Rightarrow> vcpu_sregs" where
  "protected_mode_sregs sregs =
     (let s1 = sregs\<lparr>seg_cs := flat_segment (seg_cs sregs), seg_ds := flat_segment (seg_ds sregs),
                 seg_fs := flat_segment (seg_fs sregs), seg_gs := flat_segment (seg_gs sregs),
                 seg_es := flat_segment (seg_es sregs), seg_ss := flat_segment (seg_ss sregs)\<rparr>
      in s1\<lparr>seg_cs := (seg_cs s1)\<lparr>sd_db := 1\<rparr>, seg_ss := (seg_ss s1)\<lparr>sd_db := 1\<rparr>,
            cr0 := cr0 s1 OR CR0_PE\<rparr>)"

definition long_mode_code_segment :: kvm_segment where
  "long_mode_code_segment =
     \<lparr>sd_base = 0, sd_limit = 0xFFFFFFFF,
      sd_selector = push_bit (unat SEG_DESC_SELECTOR_IDX_SHIFT) 1
        OR SEG_DESC_SELECTOR_TI_GDT OR SEG_DESC_SELECTOR_RPL_KERNEL,
      sd_type = SEG_DESC_TYPE_CODE OR SEG_DESC_TYPE_CODE_A OR SEG_DESC_TYPE_CODE_R,
      sd_present = 1, sd_dpl = SEG_DESC_DPL_KERNEL, sd_db = SEG_DESC_DB_EX_LSET,
      sd_s = SEG_DESC_TYPE_FLAG_CD, sd_l = SEG_DESC_L_64BIT_MODE, sd_g = SEG_DESC_GRAN_4KB,
      sd_avl = 0, sd_unusable = 0, sd_padding = 0\<rparr>"

definition long_mode_data_segment :: kvm_segment where
  "long_mode_data_segment = long_mode_code_segment\<lparr>
     sd_selector := push_bit (unat SEG_DESC_SELECTOR_IDX_SHIFT) 2
       OR SEG_DESC_SELECTOR_TI_GDT OR SEG_DESC_SELECTOR_RPL_KERNEL,
     sd_type := SEG_DESC_TYPE_DATA OR SEG_DESC_TYPE_DATA_A OR SEG_DESC_TYPE_DATA_W\<rparr>"

definition long_mode_sregs :: "vcpu_sregs \<Rightarrow> vcpu_sregs" where
  "long_mode_sregs sregs = sregs\<lparr>
     cr3 := BOOT_PAGETABLE_BASE, cr4 := CR4_PAE,
     cr0 := CR0_PE OR CR0_MP OR CR0_ET OR CR0_NE OR CR0_WP OR CR0_AM OR CR0_PG,
     efer := MSR_IA32_EFER_LME OR MSR_IA32_EFER_LMA,
     seg_cs := long_mode_code_segment,
     seg_ds := long_mode_data_segment, seg_es := long_mode_data_segment,
     seg_fs := long_mode_data_segment, seg_gs := long_mode_data_segment,
     seg_ss := long_mode_data_segment\<rparr>"

definition InitSregs :: "'k os \<Rightarrow> int \<Rightarrow> bool \<Rightarrow> vcpu_sregs \<Rightarrow> 'k host \<Rightarrow> int \<times> 'k host" where
  "InitSregs os fd is_64bit_boot s0 h =
     (let ((r, sregs), h1) = GetSregs os fd s0 h in
      if r \<noteq> 0 then (r, h1)
      else if \<not> is_64bit_boot then
        let (r', h2) = SetSregs os fd (protected_mode_sregs sregs) h1
        in if r' \<noteq> 0 then (r', h2) else (0, h2)
      else
        let (r', h2) = SetSregs os fd (long_mode_sregs sregs) h1
        in if r' \<noteq> 0 then (r', h2) else (0, h2))"

section \<open>The kernel as a register file\<close>

text \<open>
  What \<^verbatim>\<open>Documentation/virt/kvm/api.rst\<close> of Linux promises of the four ioctls on a vCPU in good
  order: they succeed, a read returns the registers the vCPU has, a write replaces them, and
  neither touches the other set.
\<close>

definition register_file ::
  "'k os \<Rightarrow> int \<Rightarrow> ('k \<Rightarrow> vcpu_regs) \<Rightarrow> ('k \<Rightarrow> vcpu_sregs) \<Rightarrow> bool" where
  "register_file os fd regs_of sregs_of \<longleftrightarrow>
     (\<forall>k r. \<exists>e k'. os_ioctl os fd (KVM_GET_REGS r) k = ((0, e, KVM_GET_REGS (regs_of k)), k')
          \<and> regs_of k' = regs_of k \<and> sregs_of k' = sregs_of k)
   \<and> (\<forall>k r. \<exists>e q k'. os_ioctl os fd (KVM_SET_REGS r) k = ((0, e, q), k')
          \<and> regs_of k' = r \<and> sregs_of k' = sregs_of k)
   \<and> (\<forall>k r. \<exists>e k'. os_ioctl os fd (KVM_GET_SREGS r) k = ((0, e, KVM_GET_SREGS (sregs_of k)), k')
          \<and> regs_of k' = regs_of k \<and> sregs_of k' = sregs_of k)
   \<and> (\<forall>k r. \<exists>e q k'. os_ioctl os fd (KVM_SET_SREGS r) k = ((0, e, q), k')
          \<and> regs_of k' = regs_of k \<and> sregs_of k' = r)"

lemma GetRegs_file:
  assumes "register_file os fd regs_of sregs_of"
  obtains k' where "GetRegs os fd r0 h = ((0, regs_of (kern h)), h\<lparr>kern := k', errno := 0\<rparr>)"
    "regs_of k' = regs_of (kern h)" "sregs_of k' = sregs_of (kern h)"
proof -
  obtain e k' where k: "os_ioctl os fd (KVM_GET_REGS r0) (kern h)
      = ((0, e, KVM_GET_REGS (regs_of (kern h))), k')"
    "regs_of k' = regs_of (kern h)" "sregs_of k' = sregs_of (kern h)"
    using assms unfolding register_file_def by metis
  from k(1) have "GetRegs os fd r0 h = ((0, regs_of (kern h)), h\<lparr>kern := k', errno := 0\<rparr>)"
    by (simp add: GetRegs_def kvmIoctl_def)
  with k(2,3) show ?thesis using that by blast
qed

lemma GetSregs_file:
  assumes "register_file os fd regs_of sregs_of"
  obtains k' where "GetSregs os fd r0 h = ((0, sregs_of (kern h)), h\<lparr>kern := k', errno := 0\<rparr>)"
    "regs_of k' = regs_of (kern h)" "sregs_of k' = sregs_of (kern h)"
proof -
  obtain e k' where k: "os_ioctl os fd (KVM_GET_SREGS r0) (kern h)
      = ((0, e, KVM_GET_SREGS (sregs_of (kern h))), k')"
    "regs_of k' = regs_of (kern h)" "sregs_of k' = sregs_of (kern h)"
    using assms unfolding register_file_def by metis
  from k(1) have "GetSregs os fd r0 h = ((0, sregs_of (kern h)), h\<lparr>kern := k', errno := 0\<rparr>)"
    by (simp add: GetSregs_def kvmIoctl_def)
  with k(2,3) show ?thesis using that by blast
qed

lemma SetRegs_file:
  assumes "register_file os fd regs_of sregs_of"
  obtains k' where "SetRegs os fd r h = (0, h\<lparr>kern := k', errno := 0\<rparr>)"
    "regs_of k' = r" "sregs_of k' = sregs_of (kern h)"
proof -
  obtain e q k' where k: "os_ioctl os fd (KVM_SET_REGS r) (kern h) = ((0, e, q), k')"
    "regs_of k' = r" "sregs_of k' = sregs_of (kern h)"
    using assms unfolding register_file_def by metis
  from k(1) have "SetRegs os fd r h = (0, h\<lparr>kern := k', errno := 0\<rparr>)"
    by (simp add: SetRegs_def ioctl_status_ok)
  with k(2,3) show ?thesis using that by blast
qed

lemma SetSregs_file:
  assumes "register_file os fd regs_of sregs_of"
  obtains k' where "SetSregs os fd r h = (0, h\<lparr>kern := k', errno := 0\<rparr>)"
    "regs_of k' = regs_of (kern h)" "sregs_of k' = r"
proof -
  obtain e q k' where k: "os_ioctl os fd (KVM_SET_SREGS r) (kern h) = ((0, e, q), k')"
    "regs_of k' = regs_of (kern h)" "sregs_of k' = r"
    using assms unfolding register_file_def by metis
  from k(1) have "SetSregs os fd r h = (0, h\<lparr>kern := k', errno := 0\<rparr>)"
    by (simp add: SetSregs_def ioctl_status_ok)
  with k(2,3) show ?thesis using that by blast
qed

text \<open>The two initialisations against the register file.\<close>

lemma InitRegs_file:
  assumes "register_file os fd regs_of sregs_of"
  shows "\<exists>k'. InitRegs os fd ip si r0 h = (0, h\<lparr>kern := k', errno := 0\<rparr>)
       \<and> regs_of k' = (regs_of (kern h))\<lparr>rip := ip, rsi := si, rflags := 2\<rparr>
       \<and> sregs_of k' = sregs_of (kern h)"
proof -
  obtain k1 where g: "GetRegs os fd r0 h = ((0, regs_of (kern h)), h\<lparr>kern := k1, errno := 0\<rparr>)"
    "sregs_of k1 = sregs_of (kern h)" by (rule GetRegs_file [OF assms])
  let ?regs = "(regs_of (kern h))\<lparr>rip := ip, rsi := si, rflags := RF_INIT\<rparr>"
  obtain k2 where "SetRegs os fd ?regs (h\<lparr>kern := k1, errno := 0\<rparr>)
      = (0, h\<lparr>kern := k1, errno := 0\<rparr>\<lparr>kern := k2, errno := 0\<rparr>)"
    "regs_of k2 = ?regs" "sregs_of k2 = sregs_of (kern (h\<lparr>kern := k1, errno := 0\<rparr>))"
    by (rule SetRegs_file [OF assms])
  with g show ?thesis by (auto simp: InitRegs_def intro: exI [of _ k2])
qed

lemma InitSregs_file:
  assumes "register_file os fd regs_of sregs_of"
  shows "\<exists>k'. InitSregs os fd b s0 h = (0, h\<lparr>kern := k', errno := 0\<rparr>)
       \<and> sregs_of k' = (if b then long_mode_sregs else protected_mode_sregs) (sregs_of (kern h))
       \<and> regs_of k' = regs_of (kern h)"
proof -
  obtain k1 where g: "GetSregs os fd s0 h = ((0, sregs_of (kern h)), h\<lparr>kern := k1, errno := 0\<rparr>)"
    "regs_of k1 = regs_of (kern h)" by (rule GetSregs_file [OF assms])
  let ?sregs = "(if b then long_mode_sregs else protected_mode_sregs) (sregs_of (kern h))"
  obtain k2 where "SetSregs os fd ?sregs (h\<lparr>kern := k1, errno := 0\<rparr>)
      = (0, h\<lparr>kern := k1, errno := 0\<rparr>\<lparr>kern := k2, errno := 0\<rparr>)"
    "sregs_of k2 = ?sregs" "regs_of k2 = regs_of (kern (h\<lparr>kern := k1, errno := 0\<rparr>))"
    by (rule SetSregs_file [OF assms])
  with g show ?thesis by (cases b) (auto simp: InitSregs_def intro: exI [of _ k2])
qed

lemma sample_register_file: "register_file sample_os fd sk_regs sk_sregs"
  by (auto simp: register_file_def sample_simps)

section \<open>Properties\<close>

text \<open>A segment that maps linear addresses 0 to 4 GiB one to one.\<close>

definition flat_4g :: "kvm_segment \<Rightarrow> bool" where
  "flat_4g sd \<longleftrightarrow> sd_base sd = 0 \<and> sd_limit sd = 0xFFFFFFFF \<and> sd_g sd = 1"

text \<open>
  What \<^verbatim>\<open>InitSregs(false)\<close> makes of the segments and the control registers: protected mode, all six
  segments flat, code and stack 32 bits wide, everything else (the selectors and the types of the
  segments, paging, the descriptor tables) as it was.
\<close>

definition flat_protected_mode :: "vcpu_sregs \<Rightarrow> vcpu_sregs \<Rightarrow> bool" where
  "flat_protected_mode s s' \<longleftrightarrow>
     list_all flat_4g [seg_cs s', seg_ds s', seg_es s', seg_fs s', seg_gs s', seg_ss s']
   \<and> sd_db (seg_cs s') = 1 \<and> sd_db (seg_ss s') = 1
   \<and> sd_selector (seg_cs s') = sd_selector (seg_cs s) \<and> sd_type (seg_cs s') = sd_type (seg_cs s)
   \<and> bit (cr0 s') 0 \<and> (\<forall>i > 0. bit (cr0 s') i \<longleftrightarrow> bit (cr0 s) i)
   \<and> cr3 s' = cr3 s \<and> cr4 s' = cr4 s \<and> efer s' = efer s
   \<and> tab_gdt s' = tab_gdt s \<and> tab_idt s' = tab_idt s \<and> seg_tr s' = seg_tr s \<and> seg_ldt s' = seg_ldt s"

lemma protected_mode_flat: "flat_protected_mode s (protected_mode_sregs s)"
  by (auto simp: flat_protected_mode_def protected_mode_sregs_def flat_segment_def flat_4g_def
      Let_def bit_simps)

text \<open>
  The entry conditions of the 32-bit boot protocol of Linux, as far as they are conditions on the
  registers (\<^verbatim>\<open>Documentation/arch/x86/boot.rst\<close>, \<^emph>\<open>32-bit boot protocol\<close>): protected mode without
  paging; a GDT loaded that reaches to the descriptor 0x18; \<^verbatim>\<open>CS\<close> is \<^verbatim>\<open>__BOOT_CS\<close> and \<^verbatim>\<open>DS\<close>, \<^verbatim>\<open>ES\<close>, \<^verbatim>\<open>SS\<close>
  are \<^verbatim>\<open>__BOOT_DS\<close>, flat, with the permissions to execute and read, and to read and write;
  interrupts off; \<open>esi\<close> at the boot parameters; \<open>ebp\<close>, \<open>edi\<close> and \<open>ebx\<close> zero.
\<close>

abbreviation BOOT_CS :: u16 where "BOOT_CS \<equiv> 0x10"
abbreviation BOOT_DS :: u16 where "BOOT_DS \<equiv> 0x18"

definition loaded_segment :: "u16 \<Rightarrow> (u8 \<Rightarrow> bool) \<Rightarrow> kvm_segment \<Rightarrow> bool" where
  "loaded_segment sel perm sd \<longleftrightarrow> sd_selector sd = sel \<and> perm (sd_type sd)
     \<and> sd_s sd = 1 \<and> sd_present sd = 1 \<and> sd_unusable sd = 0"

definition exec_read :: "u8 \<Rightarrow> bool" where "exec_read ty \<longleftrightarrow> bit ty 3 \<and> bit ty 1"
definition read_write :: "u8 \<Rightarrow> bool" where "read_write ty \<longleftrightarrow> \<not> bit ty 3 \<and> bit ty 1"

definition linux_boot_protocol_32 :: "u64 \<Rightarrow> vcpu_regs \<Rightarrow> vcpu_sregs \<Rightarrow> bool" where
  "linux_boot_protocol_32 params r s \<longleftrightarrow>
     bit (cr0 s) 0 \<and> \<not> bit (cr0 s) 31 \<and> 0x1F \<le> dt_limit (tab_gdt s)
   \<and> loaded_segment BOOT_CS exec_read (seg_cs s) \<and> sd_db (seg_cs s) = 1 \<and> flat_4g (seg_cs s)
   \<and> (\<forall>sd \<in> {seg_ds s, seg_es s, seg_ss s}. loaded_segment BOOT_DS read_write sd \<and> flat_4g sd)
   \<and> \<not> bit (rflags r) 9 \<and> rsi r = params
   \<and> rbp r AND 0xFFFFFFFF = 0 \<and> rdi r AND 0xFFFFFFFF = 0 \<and> rbx r AND 0xFFFFFFFF = 0"

text \<open>What of it the code leaves to the state KVM gave the vCPU.\<close>

definition protocol_left_to_kvm :: "vcpu_regs \<Rightarrow> vcpu_sregs \<Rightarrow> bool" where
  "protocol_left_to_kvm r s \<longleftrightarrow>
     \<not> bit (cr0 s) 31 \<and> 0x1F \<le> dt_limit (tab_gdt s)
   \<and> loaded_segment BOOT_CS exec_read (seg_cs s)
   \<and> (\<forall>sd \<in> {seg_ds s, seg_es s, seg_ss s}. loaded_segment BOOT_DS read_write sd)
   \<and> rbp r AND 0xFFFFFFFF = 0 \<and> rdi r AND 0xFFFFFFFF = 0 \<and> rbx r AND 0xFFFFFFFF = 0"

lemma boot_protocol_after_init:
  "linux_boot_protocol_32 si (r\<lparr>rip := ip, rsi := si, rflags := 2\<rparr>) (protected_mode_sregs s)
     \<longleftrightarrow> protocol_left_to_kvm r s"
proof -
  have "\<not> bit (2 :: u64) 9" by code_simp
  then show ?thesis
    by (auto simp: linux_boot_protocol_32_def protocol_left_to_kvm_def protected_mode_sregs_def
        flat_segment_def flat_4g_def loaded_segment_def Let_def bit_simps)
qed



text \<open>A vCPU with the selectors and the GDT of the protocol is left in the state it asks for.\<close>

lemma boot_protocol_possible:
  "\<exists>s. linux_boot_protocol_32 si (sample_regs\<lparr>rip := ip, rsi := si, rflags := 2\<rparr>) (protected_mode_sregs s)"
proof -
  let ?cs = "sample_segment\<lparr>sd_selector := BOOT_CS\<rparr>"
  let ?ds = "sample_segment\<lparr>sd_selector := BOOT_DS, sd_type := 3\<rparr>"
  let ?s = "sample_sregs\<lparr>seg_cs := ?cs, seg_ds := ?ds, seg_es := ?ds, seg_ss := ?ds\<rparr>"
  have "bit (11 :: u8) 3" "bit (11 :: u8) 1" "\<not> bit (3 :: u8) 3" "bit (3 :: u8) 1" "\<not> bit (0x60000010 :: u64) 31"
    by code_simp+
  then have "protocol_left_to_kvm sample_regs ?s"
    by (simp add: protocol_left_to_kvm_def loaded_segment_def exec_read_def read_write_def sample_sregs_def
        sample_segment_def sample_table_def sample_regs_def)
  then show ?thesis using boot_protocol_after_init by blast
qed

text \<open>A failing register ioctl is reported with its errno and stops the initialisation: when
  the read of the registers fails, \<^verbatim>\<open>InitRegs\<close> and \<^verbatim>\<open>InitSregs\<close> return its negated errno and the
  kernel is left as the failed call left it, with no write attempted.\<close>

lemma init_registers_error:
  assumes "os_ioctl os fd (KVM_GET_REGS r0) (kern h) = ((g, e, q), k1)" "g < 0" "0 < e"
    and "os_ioctl os fd (KVM_GET_SREGS s0) (kern h) = ((g', e', q'), k2)" "g' < 0" "0 < e'"
  shows "InitRegs os fd ip si r0 h = (- e, h\<lparr>kern := k1, errno := e\<rparr>)
       \<and> InitSregs os fd b s0 h = (- e', h\<lparr>kern := k2, errno := e'\<rparr>)"
  using assms by (simp_all add: InitRegs_def InitSregs_def GetRegs_def GetSregs_def kvmIoctl_fail)

text \<open>A kernel whose vCPU is gone: every register ioctl fails with EINVAL.\<close>

definition dead_vcpu_os :: "unit os" where
  "dead_vcpu_os = \<lparr>os_ioctl = (\<lambda>fd req k. ((- 1, EINVAL, req), k)),
     os_write = (\<lambda>x k. ((1, 0), k)), os_read = (\<lambda>k. ((0, 0), k)),
     os_localtime = (\<lambda>k. (sample_now, k)), os_mmap = (\<lambda>n k. (Inl EINVAL, k)),
     os_open_kvm = (\<lambda>k. ((- 1, EINVAL), k)), os_cpuid = (\<lambda>_. (0, 0, 0, 0))\<rparr>"

lemma long_mode_fields:
  "cr0 (long_mode_sregs s) = CR0_PE OR CR0_MP OR CR0_ET OR CR0_NE OR CR0_WP OR CR0_AM OR CR0_PG"
  "cr4 (long_mode_sregs s) = CR4_PAE" "cr3 (long_mode_sregs s) = BOOT_PAGETABLE_BASE"
  "efer (long_mode_sregs s) = MSR_IA32_EFER_LME OR MSR_IA32_EFER_LMA"
  "sd_l (seg_cs (long_mode_sregs s)) = 1" "sd_db (seg_cs (long_mode_sregs s)) = 0"
  by (simp_all add: long_mode_sregs_def long_mode_code_segment_def)

text \<open>The 64-bit variant sets up long mode with 4-level paging rooted at the boot page table
  (PE, PG, PAE, LME and LMA set, LA57 clear, a 64-bit code segment), but it also hands the kernel
  a CR0 whose upper 32 bits, which the architecture reserves as zero, are all ones.\<close>

lemma long_mode_cr0_reserved_bits:
  "bit (cr0 (long_mode_sregs s)) 0 \<and> bit (cr0 (long_mode_sregs s)) 31
   \<and> bit (cr4 (long_mode_sregs s)) 5 \<and> \<not> bit (cr4 (long_mode_sregs s)) 12
   \<and> bit (efer (long_mode_sregs s)) 8 \<and> bit (efer (long_mode_sregs s)) 10
   \<and> cr3 (long_mode_sregs s) = BOOT_PAGETABLE_BASE
   \<and> sd_l (seg_cs (long_mode_sregs s)) = 1 \<and> sd_db (seg_cs (long_mode_sregs s)) = 0
   \<and> drop_bit 32 (cr0 (long_mode_sregs s)) = 0xFFFFFFFF"
proof -
  have "bit (CR0_PE OR CR0_MP OR CR0_ET OR CR0_NE OR CR0_WP OR CR0_AM OR CR0_PG) 0"
    "bit (CR0_PE OR CR0_MP OR CR0_ET OR CR0_NE OR CR0_WP OR CR0_AM OR CR0_PG) 31"
    "bit CR4_PAE 5" "\<not> bit CR4_PAE 12"
    "bit (MSR_IA32_EFER_LME OR MSR_IA32_EFER_LMA) 8" "bit (MSR_IA32_EFER_LME OR MSR_IA32_EFER_LMA) 10"
    "drop_bit 32 (CR0_PE OR CR0_MP OR CR0_ET OR CR0_NE OR CR0_WP OR CR0_AM OR CR0_PG)
       = (0xFFFFFFFF :: u64)"
    by code_simp+
  then show ?thesis
    unfolding long_mode_fields by (simp only: simp_thms)
qed

end
