(* ===== verification/VcpuDump.thy ===== *)
theory VcpuDump
  imports OStream VcpuRegs
begin

text \<open>
  The register dumps of \<^verbatim>\<open>src/vcpu.cpp\<close>: \<^verbatim>\<open>Vcpu::DumpRegs\<close>, \<^verbatim>\<open>DumpSegmentDescriptor\<close>,
  \<^verbatim>\<open>DumpDescriptorTable\<close> and \<^verbatim>\<open>DumpSregs\<close>, as the items they insert in \<^verbatim>\<open>std::cout\<close>, in order.
  A flag that the source tests without a mask is tested against all ones.
\<close>

section \<open>DumpRegs\<close>

definition reg_items :: "vcpu_regs \<Rightarrow> out_item list" where
  "reg_items regs =
    [Setfill CHR ''0'', Str ''RAX: 0x'', Setw 16, Num (unat (rax regs)), Str '' '',
     Str ''RBX: 0x'', Setw 16, Num (unat (rbx regs)), Str '' '', Str ''RCX: 0x'', Setw 16,
     Num (unat (rcx regs)), Str '' '', Str ''RDX: 0x'', Setw 16, Num (unat (rdx regs)), Str [NL],
     Str ''RSI: 0x'', Setw 16, Num (unat (rsi regs)), Str '' '', Str ''RDI: 0x'', Setw 16,
     Num (unat (rdi regs)), Str '' '', Str ''RSP: 0x'', Setw 16, Num (unat (rsp regs)),
     Str '' '', Str ''RBP: 0x'', Setw 16, Num (unat (rbp regs)), Str [NL], Str ''R8:  0x'',
     Setw 16, Num (unat (r8 regs)), Str '' '', Str ''R9:  0x'', Setw 16, Num (unat (r9 regs)),
     Str '' '', Str ''R10: 0x'', Setw 16, Num (unat (r10 regs)), Str '' '', Str ''R11: 0x'',
     Setw 16, Num (unat (r11 regs)), Str [NL], Str ''R12: 0x'', Setw 16, Num (unat (r12 regs)),
     Str '' '', Str ''R13: 0x'', Setw 16, Num (unat (r13 regs)), Str '' '', Str ''R14: 0x'',
     Setw 16, Num (unat (r14 regs)), Str '' '', Str ''R15: 0x'', Setw 16, Num (unat (r15 regs)),
     Str [NL], Str ''RIP: 0x'', Setw 16, Num (unat (rip regs)), Str [NL], Str ''RFLAGS: 0x'',
     Setw 16, Num (unat (rflags regs)), Str [NL]]"

definition rflags_items :: "vcpu_regs \<Rightarrow> out_item list" where
  "rflags_items regs =
    [Str ''CF:   '', flag (rflags regs) RF_CF '' '', Str ''INIT: '',
     flag (rflags regs) RF_INIT '' '', Str ''PF:   '', flag (rflags regs) RF_PF '' '',
     Str ''AF:   '', flag (rflags regs) RF_AF '' '', Str ''ZF:   '',
     flag (rflags regs) RF_ZF '' '', Str ''SF:   '', flag (rflags regs) RF_SF '' '',
     Str ''TF:   '', flag (rflags regs) RF_TF [NL], Str ''IF:   '',
     flag (rflags regs) RF_IF '' '', Str ''DF:   '', flag (rflags regs) RF_DF '' '',
     Str ''OF:   '', flag (rflags regs) RF_OF '' '', Str ''IOPL: '',
     flag (rflags regs) RF_IOPL '' '', Str ''NT:   '', flag (rflags regs) RF_NT '' '',
     Str ''MD:   '', flag (rflags regs) RF_MD '' '', Str ''RF:   '',
     flag (rflags regs) RF_RF [NL], Str ''VM:   '', flag (rflags regs) RF_VM '' '',
     Str ''AC:   '', flag (rflags regs) RF_AC '' '', Str ''VIF:  '',
     flag (rflags regs) RF_VIF '' '', Str ''VIP:  '', flag (rflags regs) RF_VIP '' '',
     Str ''ID:   '', flag (rflags regs) RF_ID '' '', Str ''AES:  '',
     flag (rflags regs) RF_AES '' '', Str ''AI:   '', flag (rflags regs) RF_AI [NL]]"

definition dump_regs_items :: "nat \<Rightarrow> vcpu_regs \<Rightarrow> out_item list" where
  "dump_regs_items cpu_id regs =
     [Set_hex, Str ''vCPU '', Num cpu_id, Str ('': vcpu_regs'' @ [NL])]
       @ reg_items regs @ rflags_items regs @ [Set_dec]"

definition DumpRegs ::
  "'k os \<Rightarrow> int \<Rightarrow> nat \<Rightarrow> vcpu_regs \<Rightarrow> ostream \<times> 'k host \<Rightarrow> int \<times> ostream \<times> 'k host" where
  "DumpRegs os fd cpu_id r0 s =
     (let (out, h) = s; ((r, regs), h') = GetRegs os fd r0 h in
      if r \<noteq> 0 then (r, out, h') else (0, out_all (dump_regs_items cpu_id regs) out, h'))"

section \<open>DumpSegmentDescriptor and DumpDescriptorTable\<close>

definition DumpSegmentDescriptor :: "kvm_segment \<Rightarrow> out_item list" where
  "DumpSegmentDescriptor sd =
    [Set_hex, Setfill CHR ''0'', Str ''base:     0x'', Setw 16, Num (unat (sd_base sd)),
     Str [NL], Str ''limit:    0x'', Setw 8, Num (unat (sd_limit sd)), Str [NL],
     Str ''selector: 0x'', Setw 4, Num (unat (sd_selector sd)), Str [NL], Str ''type:     0x'',
     Setw 2, Num (unat (sd_type sd)), Str [NL], Str ''present:  '',
     flag (sd_present sd) (- 1) '' '', Str ''dpl:      '', flag (sd_dpl sd) (- 1) '' '',
     Str ''db:       '', flag (sd_db sd) (- 1) '' '', Str ''s:        '',
     flag (sd_s sd) (- 1) [NL], Str ''l:        '', flag (sd_l sd) (- 1) '' '',
     Str ''g:        '', flag (sd_g sd) (- 1) '' '', Str ''avl:      '',
     flag (sd_avl sd) (- 1) [NL], Set_dec]"

definition DumpDescriptorTable :: "descriptor_table \<Rightarrow> out_item list" where
  "DumpDescriptorTable dt =
    [Set_hex, Setfill CHR ''0'', Str ''base:  0x'', Setw 16, Num (unat (dt_base dt)), Str [NL],
     Str ''limit: 0x'', Setw 4, Num (unat (dt_limit dt)), Str [NL], Set_dec]"

section \<open>DumpSregs\<close>

definition sdmap :: "(string \<times> (vcpu_sregs \<Rightarrow> kvm_segment)) list" where
  "sdmap = [(''CS'', seg_cs), (''DS'', seg_ds), (''ES'', seg_es), (''FS'', seg_fs),
     (''GS'', seg_gs), (''SS'', seg_ss), (''TR'', seg_tr), (''LDT'', seg_ldt)]"

definition dtmap :: "(string \<times> (vcpu_sregs \<Rightarrow> descriptor_table)) list" where
  "dtmap = [(''GDT'', tab_gdt), (''IDT'', tab_idt)]"

definition cr0_items :: "vcpu_sregs \<Rightarrow> out_item list" where
  "cr0_items sregs =
    [Str ''CR0: 0x'', Setfill CHR ''0'', Setw 16, Num (unat (cr0 sregs)), Str [NL], Str ''PE: '',
     flag (cr0 sregs) CR0_PE '' '', Str ''MP: '', flag (cr0 sregs) CR0_MP '' '', Str ''EM: '',
     flag (cr0 sregs) CR0_EM '' '', Str ''TS: '', flag (cr0 sregs) CR0_TS '' '', Str ''ET: '',
     flag (cr0 sregs) CR0_ET '' '', Str ''NE: '', flag (cr0 sregs) CR0_NE [NL], Str ''WP: '',
     flag (cr0 sregs) CR0_WP '' '', Str ''AM: '', flag (cr0 sregs) CR0_AM '' '', Str ''NW: '',
     flag (cr0 sregs) CR0_NW '' '', Str ''CD: '', flag (cr0 sregs) CR0_CD '' '', Str ''PG: '',
     flag (cr0 sregs) CR0_PG [NL]]"

definition cr23_items :: "vcpu_sregs \<Rightarrow> out_item list" where
  "cr23_items sregs =
    [Setfill CHR ''0'', Str ''CR2: 0x'', Setw 16, Num (unat (cr2 sregs)), Str [NL],
     Str ''CR3: 0x'', Setw 16, Num (unat (cr3 sregs)), Str [NL], Str ''PWT: '',
     flag (cr3 sregs) CR3_PWT '' '', Str ''PCD: '', flag (cr3 sregs) CR3_PCD '' '',
     Str ''PDBR: 0x'', Num (unat (cr3 sregs AND CR3_PDBR_MASK)), Str [NL]]"

definition cr4_items :: "vcpu_sregs \<Rightarrow> out_item list" where
  "cr4_items sregs =
    [Str ''CR4: 0x'', Setfill CHR ''0'', Setw 16, Num (unat (cr4 sregs)), Str [NL],
     Str ''CR4.VME:        '', flag (cr4 sregs) CR4_VME '' '', Str ''CR4.PVI:        '',
     flag (cr4 sregs) CR4_PVI '' '', Str ''CR4.TSD:        '', flag (cr4 sregs) CR4_TSD '' '',
     Str ''CR4.DE:         '', flag (cr4 sregs) CR4_DE '' '', Str ''CR4.PSE:        '',
     flag (cr4 sregs) CR4_PSE '' '', Str ''CR4.PAE:        '', flag (cr4 sregs) CR4_PAE [NL],
     Str ''CR4.MCE:        '', flag (cr4 sregs) CR4_MCE '' '', Str ''CR4.PGE:        '',
     flag (cr4 sregs) CR4_PGE '' '', Str ''CR4.PCE:        '', flag (cr4 sregs) CR4_PCE '' '',
     Str ''CR4.OSFXSR:     '', flag (cr4 sregs) CR4_OSFXSR '' '', Str ''CR4.OSXMMEXCPT: '',
     flag (cr4 sregs) CR4_OSXMMEXCPT '' '', Str ''CR4.UMIP:       '',
     flag (cr4 sregs) CR4_UMIP [NL], Str ''CR4.VMXE:       '', flag (cr4 sregs) CR4_VMXE '' '',
     Str ''CR4.SMXE:       '', flag (cr4 sregs) CR4_SMXE '' '', Str ''CR4.FSGSBASE:   '',
     flag (cr4 sregs) CR4_FSGSBASE '' '', Str ''CR4.PCIDE:      '',
     flag (cr4 sregs) CR4_PCIDE '' '', Str ''CR4.OSXSAVE:    '',
     flag (cr4 sregs) CR4_OSXSAVE '' '', Str ''CR4.SMEP:       '',
     flag (cr4 sregs) CR4_SMEP [NL], Str ''CR4.SMAP:       '', flag (cr4 sregs) CR4_SMAP '' '',
     Str ''CR4.PKE:        '', flag (cr4 sregs) CR4_PKE '' '', Str ''CR4.CET:        '',
     flag (cr4 sregs) CR4_CET '' '', Str ''CR4.PKS:        '', flag (cr4 sregs) CR4_PKS [NL]]"

definition cr8_efer_items :: "vcpu_sregs \<Rightarrow> out_item list" where
  "cr8_efer_items sregs =
    [Str ''CR8: 0x'', Setfill CHR ''0'', Setw 16, Num (unat (cr8 sregs)), Str [NL],
     Str ''EFER: 0x'', Setfill CHR ''0'', Setw 16, Num (unat (efer sregs)), Str [NL],
     Str ''EFER.SCE:   '', flag (efer sregs) MSR_IA32_EFER_SCE '' '', Str ''EFER.LME:   '',
     flag (efer sregs) MSR_IA32_EFER_LME '' '', Str ''EFER.LMA:   '',
     flag (efer sregs) MSR_IA32_EFER_LMA '' '', Str ''EFER.NXE:   '',
     flag (efer sregs) MSR_IA32_EFER_NXE [NL], Str ''EFER.SVME:  '',
     flag (efer sregs) MSR_IA32_EFER_SVME '' '', Str ''EFER.LMSLE: '',
     flag (efer sregs) MSR_IA32_EFER_LMSLE '' '', Str ''EFER.FFXSR: '',
     flag (efer sregs) MSR_IA32_EFER_FFXSR '' '', Str ''EFER.TCE:   '',
     flag (efer sregs) MSR_IA32_EFER_TCE [NL], Str ''APIC_BASE: 0x'', Setfill CHR ''0'', Setw 16,
     Num (unat (apic_base sregs)), Str [NL]]"

definition dump_sregs_items :: "nat \<Rightarrow> vcpu_sregs \<Rightarrow> out_item list" where
  "dump_sregs_items cpu_id sregs =
     [Set_hex, Str ''vCPU '', Num cpu_id, Str ('': vcpu_sregs'' @ [NL])]
       @ concat (map (\<lambda>(name, f). [Str name, Str [NL]] @ DumpSegmentDescriptor (f sregs)) sdmap)
       @ concat (map (\<lambda>(name, f). [Str name, Str [NL]] @ DumpDescriptorTable (f sregs)) dtmap)
       @ cr0_items sregs @ cr23_items sregs @ cr4_items sregs @ cr8_efer_items sregs @ [Set_dec]"

definition DumpSregs ::
  "'k os \<Rightarrow> int \<Rightarrow> nat \<Rightarrow> vcpu_sregs \<Rightarrow> ostream \<times> 'k host \<Rightarrow> int \<times> ostream \<times> 'k host" where
  "DumpSregs os fd cpu_id s0 s =
     (let (out, h) = s; ((r, sregs), h') = GetSregs os fd s0 h in
      if r \<noteq> 0 then (r, out, h') else (0, out_all (dump_sregs_items cpu_id sregs) out, h'))"

section \<open>The dump of the general registers\<close>

text \<open>The eighteen registers, in the order of the dump.\<close>

definition dumped_regs :: "vcpu_regs \<Rightarrow> u64 list" where
  "dumped_regs regs = [rax regs, rbx regs, rcx regs, rdx regs, rsi regs, rdi regs, rsp regs,
     rbp regs, r8 regs, r9 regs, r10 regs, r11 regs, r12 regs, r13 regs, r14 regs, r15 regs,
     rip regs, rflags regs]"

lemma vcpu_regs_eq_iff: "a = (b :: vcpu_regs) \<longleftrightarrow> dumped_regs a = dumped_regs b"
  by (cases a; cases b) (auto simp: dumped_regs_def)

text \<open>What the stream holds after the dump, as one string.\<close>

lemma dump_regs_text:
  "st_text (out_all (dump_regs_items cpu_id regs) out) =
     st_text out @ pad_left (st_width out) (st_fill out) ''vCPU '' @ num_text True cpu_id
       @ '': vcpu_regs'' @ [NL]
       @ concat (map2 (\<lambda>(l, e) v. l @ hex16 v @ e)
           [(''RAX: 0x'', '' ''), (''RBX: 0x'', '' ''), (''RCX: 0x'', '' ''), (''RDX: 0x'', [NL]),
            (''RSI: 0x'', '' ''), (''RDI: 0x'', '' ''), (''RSP: 0x'', '' ''), (''RBP: 0x'', [NL]),
            (''R8:  0x'', '' ''), (''R9:  0x'', '' ''), (''R10: 0x'', '' ''), (''R11: 0x'', [NL]),
            (''R12: 0x'', '' ''), (''R13: 0x'', '' ''), (''R14: 0x'', '' ''), (''R15: 0x'', [NL]),
            (''RIP: 0x'', [NL]), (''RFLAGS: 0x'', [NL])] (dumped_regs regs))
       @ st_text (out_all (rflags_items regs)
           \<lparr>st_hex = True, st_fill = CHR ''0'', st_width = 0, st_text = []\<rparr>)"
  by (simp add: dump_regs_items_def reg_items_def rflags_items_def out_all_append dumped_regs_def
      hex16_def [symmetric] flag_def)

text \<open>Insertions only append to the text.\<close>

lemma out_step_extends: "\<exists>t. st_text (out_step x out) = st_text out @ t"
  by (cases x) simp_all

lemma out_all_extends: "\<exists>t. st_text (out_all xs out) = st_text out @ t"
proof (induction xs arbitrary: out)
  case (Cons x xs)
  obtain t where "st_text (out_step x out) = st_text out @ t" using out_step_extends by blast
  moreover obtain u where "st_text (out_all xs (out_step x out)) = st_text (out_step x out) @ u"
    using Cons.IH by blast
  ultimately show ?case by simp
qed simp

lemma out_all_keeps_text:
  assumes "st_text out = pre @ t"
  shows "\<exists>pre post. st_text (out_all xs out) = pre @ t @ post"
  using out_all_extends [of xs out] assms by auto

text \<open>The helpers leave the stream in decimal, with no width pending.\<close>

lemma dump_helpers_leave_decimal:
  "\<not> st_hex (out_all (DumpSegmentDescriptor sd) out)"
  "st_width (out_all (DumpSegmentDescriptor sd) out) = 0"
  "st_fill (out_all (DumpSegmentDescriptor sd) out) = CHR ''0''"
  "\<not> st_hex (out_all (DumpDescriptorTable dt) out)"
  "st_width (out_all (DumpDescriptorTable dt) out) = 0"
  "st_fill (out_all (DumpDescriptorTable dt) out) = CHR ''0''"
  by (simp_all add: DumpSegmentDescriptor_def DumpDescriptorTable_def)

text \<open>A 16-digit field on a stream that was left in decimal.\<close>

lemma decimal_field:
  "\<not> st_hex out \<Longrightarrow> st_width out = 0 \<Longrightarrow> st_fill out = CHR ''0'' \<Longrightarrow>
     st_text (out_all [Str l, Setw 16, Num n] out) =
       st_text out @ l @ pad_left 16 CHR ''0'' (num_text False n)"
  by simp

lemma rflags_iopl_blind:
  "rflags_items regs = rflags_items (regs\<lparr>rflags := rflags regs XOR 0x3000\<rparr>)"
proof -
  have "(rflags regs XOR 0x3000) AND m = rflags regs AND m" if "0x3000 AND m = 0" for m
    using that by (simp add: bit.conj_xor_distrib2)
  then show ?thesis by (simp add: rflags_items_def flag_def)
qed

section \<open>Properties\<close>

text \<open>The register dump loses nothing: on any stream, two dumps of a vCPU are the same text
  exactly when the two register files are the same.\<close>

lemma dump_regs_injective:
  "st_text (out_all (dump_regs_items cpu_id a) out) = st_text (out_all (dump_regs_items cpu_id b) out)
   \<longleftrightarrow> a = b"
proof
  assume "st_text (out_all (dump_regs_items cpu_id a) out)
    = st_text (out_all (dump_regs_items cpu_id b) out)"
  then show "a = b" by (simp add: dump_regs_text vcpu_regs_eq_iff dumped_regs_def)
qed simp

text \<open>In the dump of the special registers the control registers are printed in decimal behind
  a \<^verbatim>\<open>0x\<close> prefix, whatever the stream was set to, because the descriptor helpers that run before
  them reset the base of the shared stream.\<close>

lemma dump_sregs_cr3_in_decimal:
  "\<exists>pre post. st_text (out_all (dump_sregs_items cpu_id sregs) out) =
     pre @ ''CR3: 0x'' @ pad_left 16 CHR ''0'' (num_text False (unat (cr3 sregs))) @ post"
proof -
  let ?front = "[Set_hex, Str ''vCPU '', Num cpu_id, Str ('': vcpu_sregs'' @ [NL])]
       @ concat (map (\<lambda>(name, f). [Str name, Str [NL]] @ DumpSegmentDescriptor (f sregs)) sdmap)
       @ concat (map (\<lambda>(name, f). [Str name, Str [NL]] @ DumpDescriptorTable (f sregs)) dtmap)"
  define o1 where "o1 = out_all ?front out"
  have dec: "\<not> st_hex o1" "st_width o1 = 0" "st_fill o1 = CHR ''0''"
    by (simp_all add: o1_def out_all_append sdmap_def dtmap_def dump_helpers_leave_decimal)
  define o2 where "o2 = out_all (cr0_items sregs @ take 5 (cr23_items sregs)) o1"
  let ?cr3 = "[Str ''CR3: 0x'', Setw 16, Num (unat (cr3 sregs))]"
  have "\<not> st_hex o2" "st_width o2 = 0" "st_fill o2 = CHR ''0''"
    using dec by (simp_all add: o2_def out_all_append cr0_items_def cr23_items_def flag_def)
  note field = decimal_field [OF this, of "''CR3: 0x''" "unat (cr3 sregs)"]
  have "cr23_items sregs = take 5 (cr23_items sregs) @ ?cr3 @ drop 8 (cr23_items sregs)"
    by (simp add: cr23_items_def)
  then have "out_all (dump_sregs_items cpu_id sregs) out =
      out_all (drop 8 (cr23_items sregs) @ cr4_items sregs @ cr8_efer_items sregs @ [Set_dec])
        (out_all ?cr3 o2)"
    unfolding dump_sregs_items_def o2_def o1_def by (metis append_assoc out_all_append)
  then show ?thesis using out_all_keeps_text [OF field] by (simp only: append_assoc)
qed

end
