(* ===== verification/VcpuRun.thy ===== *)
theory VcpuRun
  imports PortBus VcpuDump
begin

text \<open>
  The run loop of a vCPU (\<^verbatim>\<open>src/vcpu.cpp\<close>): \<^verbatim>\<open>Vcpu::Run\<close>, \<^verbatim>\<open>Vcpu::RunOnce\<close> with its
  dispatch on the exit reason and its string I/O loop, and \<^verbatim>\<open>Vcpu::RunLoop\<close>. The message of
  \<^verbatim>\<open>perror\<close> in \<^verbatim>\<open>Run\<close> is not modelled; the code under \<^verbatim>\<open>GUEST_DEBUG\<close> is in theory \<open>TraceBuild\<close>.

  The mapped \<^verbatim>\<open>kvm_run\<close> area is part of the state: the kernel gets it with \<^verbatim>\<open>KVM_RUN\<close> and
  leaves the exit in it. A \<^verbatim>\<open>vcpu\<close> is what its methods use of \<^verbatim>\<open>this\<close>.
\<close>

section \<open>State\<close>

record vcpu =
  vcpu_fd :: int
  vcpu_vm_fd :: int
  vcpu_id :: nat
  vcpu_pio :: pio_table

type_synonym 'k guest = "kvm_run \<times> 'k bus"

section \<open>Run\<close>

definition Run :: "'k os \<Rightarrow> vcpu \<Rightarrow> kvm_run \<times> 'k host \<Rightarrow> int \<times> kvm_run \<times> 'k host" where
  "Run os v s =
     (let (run, h) = s;
          ((r, req), h') = kvmIoctl os (vcpu_fd v) (KVM_RUN run) h;
          run' = (case req of KVM_RUN x \<Rightarrow> x | _ \<Rightarrow> run)
      in if r < 0 then
           if errno h' \<noteq> EAGAIN \<and> errno h' \<noteq> EINTR then (- errno h', run', h') else (r, run', h')
         else (r, run', h'))"

section \<open>RunOnce\<close>

text \<open>What happens to the exit the area holds: 0 to go on, 1 to stop.\<close>

fun handle_exit :: "'k os \<Rightarrow> vcpu \<Rightarrow> exit_reason \<Rightarrow> 'k guest \<Rightarrow> fault + (int \<times> 'k guest)" where
  "handle_exit os v KVM_EXIT_UNKNOWN s = Inr (0, s)"
| "handle_exit os v KVM_EXIT_INTR s = Inr (0, s)"
| "handle_exit os v KVM_EXIT_DEBUG s = Inr (1, s)"
| "handle_exit os v KVM_EXIT_HLT s = Inr (1, s)"
| "handle_exit os v KVM_EXIT_IO (run, b) =
     chain (io_repeat (unat (run_count run))
             (pio_access os (vcpu_vm_fd v) (vcpu_pio v) (run_direction run))
             (run_port run) (run_data run) (run_size run) b)
       (\<lambda>(r, data, b'). Inr (if r \<noteq> 0 then 1 else 0, (run\<lparr>run_data := data\<rparr>, b')))"
| "handle_exit os v KVM_EXIT_MMIO s = Inr (1, s)"
| "handle_exit os v _ s = Inr (1, s)"

definition RunOnce :: "'k os \<Rightarrow> vcpu \<Rightarrow> 'k guest \<Rightarrow> fault + (int \<times> 'k guest)" where
  "RunOnce os v s =
     (let (run, (devs, h)) = s; (r, run', h') = Run os v (run, h)
      in handle_exit os v (run_exit_reason run') (run', (devs, h')))"

section \<open>RunLoop\<close>

text \<open>The two streams of the process: \<^verbatim>\<open>std::cout\<close> and \<^verbatim>\<open>std::cerr\<close>.\<close>

type_synonym console = "ostream \<times> ostream"

abbreviation (input) TAB :: char where "TAB \<equiv> CHR 0x09"

text \<open>The numbers of \<^verbatim>\<open>linux/kvm.h\<close>, which the report prints.\<close>

primrec exit_code :: "exit_reason \<Rightarrow> nat" where
  "exit_code KVM_EXIT_UNKNOWN = 0"
| "exit_code KVM_EXIT_INTR = 10"
| "exit_code KVM_EXIT_DEBUG = 4"
| "exit_code KVM_EXIT_HLT = 5"
| "exit_code KVM_EXIT_IO = 2"
| "exit_code KVM_EXIT_MMIO = 6"
| "exit_code KVM_EXIT_SHUTDOWN = 8"
| "exit_code KVM_EXIT_FAIL_ENTRY = 9"
| "exit_code (KVM_EXIT_OTHER n) = n"

text \<open>The details of an exit: the \<^verbatim>\<open>switch\<close> of the loop.\<close>

definition exit_details :: "kvm_run \<Rightarrow> out_item list" where
  "exit_details run =
     (case run_exit_reason run of
        KVM_EXIT_DEBUG \<Rightarrow> [Str ''KVM_EXIT_DEBUG'', Str [NL]]
      | KVM_EXIT_MMIO \<Rightarrow>
          [Set_hex, Str (''KVM_EXIT_MMIO'' @ [NL]), Str (''run->mmio:'' @ [NL]),
           Str (TAB # ''phys_addr: 0x''), Num (unat (run_mmio_phys_addr run)), Str [NL],
           Str (TAB # ''len: ''), Num (unat (run_mmio_len run)), Str [NL], Str (TAB # ''data: '')]
          @ concat (map (\<lambda>i. [Set_hex, Num (unat (run_mmio_data run i))]) [0..<8])
          @ [Str [NL], Str (TAB # ''is_write: ''), Num (unat (run_mmio_is_write run)), Str [NL]]
      | KVM_EXIT_SHUTDOWN \<Rightarrow> [Str ''KVM_EXIT_SHUTDOWN'', Str [NL]]
      | KVM_EXIT_FAIL_ENTRY \<Rightarrow>
          [Str (''KVM_EXIT_FAIL_ENTRY'' @ [NL]), Str ''hardware_entry_failure_reason: '',
           Num (unat (run_hw_entry_failure_reason run)), Str [NL]]
      | _ \<Rightarrow> [])"

definition stop_message :: "nat \<Rightarrow> kvm_run \<Rightarrow> out_item list" where
  "stop_message cpu_id run =
     [Str ''Vcpu::RunLoop: cpu '', Num cpu_id, Str '' : can not keep vCPU running'', Str [NL],
      Str ''exit_reason: '', Num (exit_code (run_exit_reason run)), Str [NL]]"

definition report_exit :: "nat \<Rightarrow> kvm_run \<Rightarrow> ostream \<Rightarrow> ostream" where
  "report_exit cpu_id run err = out_all (stop_message cpu_id run @ exit_details run) err"

text \<open>The end of the loop: dump the registers, return 1 or the dump's error.\<close>

definition dump_and_stop ::
  "'k os \<Rightarrow> vcpu \<Rightarrow> vcpu_regs \<Rightarrow> vcpu_sregs \<Rightarrow> console \<Rightarrow> 'k guest \<Rightarrow> int \<times> console \<times> 'k guest" where
  "dump_and_stop os v r0 s0 con s =
     (let (run, (devs, h)) = s; (out, err) = con;
          (r, out1, h1) = DumpRegs os (vcpu_fd v) (vcpu_id v) r0 (out, h)
      in if r \<noteq> 0 then (r, (out1, err), (run, (devs, h1)))
         else
           let (r', out2, h2) = DumpSregs os (vcpu_fd v) (vcpu_id v) s0 (out1, h1)
           in if r' \<noteq> 0 then (r', (out2, err), (run, (devs, h2)))
              else (1, (out2, err), (run, (devs, h2))))"

text \<open>After the exit that stops the loop: report it, then dump the registers.\<close>

definition stop_running ::
  "'k os \<Rightarrow> vcpu \<Rightarrow> vcpu_regs \<Rightarrow> vcpu_sregs \<Rightarrow> console \<Rightarrow> 'k guest \<Rightarrow> int \<times> console \<times> 'k guest" where
  "stop_running os v r0 s0 con s =
     (let (out, err) = con
      in dump_and_stop os v r0 s0 (out, report_exit (vcpu_id v) (fst s) err) s)"

text \<open>The loop itself. It need not end: \<open>None\<close> is a guest that runs for ever.\<close>

partial_function (option) run_while ::
  "'k os \<Rightarrow> vcpu \<Rightarrow> 'k guest \<Rightarrow> (fault + 'k guest) option" where
  "run_while os v s =
     (case RunOnce os v s of
        Inl e \<Rightarrow> Some (Inl e)
      | Inr (r, s') \<Rightarrow> if r \<noteq> 0 then Some (Inr s') else run_while os v s')"

definition RunLoop ::
  "'k os \<Rightarrow> vcpu \<Rightarrow> vcpu_regs \<Rightarrow> vcpu_sregs \<Rightarrow> console \<Rightarrow> 'k guest \<Rightarrow>
     (fault + (int \<times> console \<times> 'k guest)) option" where
  "RunLoop os v r0 s0 con s =
     (let (out, err) = con;
          out1 = out_all [Str ''Vcpu::RunLoop: cpu '', Num (vcpu_id v), Str '' is running'', Str [NL]] out
      in case run_while os v s of
           None \<Rightarrow> None
         | Some (Inl e) \<Rightarrow> Some (Inl e)
         | Some (Inr s') \<Rightarrow> Some (Inr (stop_running os v r0 s0 (out1, err) s')))"

section \<open>The loop as a transition system\<close>

text \<open>One turn of the loop that goes on.\<close>

inductive keeps_running :: "'k os \<Rightarrow> vcpu \<Rightarrow> 'k guest \<Rightarrow> 'k guest \<Rightarrow> bool" for os v where
  "RunOnce os v s = Inr (0, s') \<Longrightarrow> keeps_running os v s s'"

inductive_cases keeps_runningE: "keeps_running os v s s'"

text \<open>A turn that ends the loop, by a stopping exit or by a fault.\<close>

definition stops :: "'k os \<Rightarrow> vcpu \<Rightarrow> 'k guest \<Rightarrow> fault + 'k guest \<Rightarrow> bool" where
  "stops os v s out \<longleftrightarrow>
     (case RunOnce os v s of Inl e \<Rightarrow> out = Inl e | Inr (r, s') \<Rightarrow> r \<noteq> 0 \<and> out = Inr s')"

lemma run_while_step:
  "keeps_running os v s s' \<Longrightarrow> run_while os v s = run_while os v s'"
  by (erule keeps_runningE) (subst run_while.simps, simp)

lemma run_while_stop: "stops os v s out \<Longrightarrow> run_while os v s = Some out"
  by (subst run_while.simps) (auto simp: stops_def split: sum.splits prod.splits)

lemma run_while_sound:
  assumes "run_while os v s = Some out"
  shows "\<exists>s'. (keeps_running os v)\<^sup>*\<^sup>* s s' \<and> stops os v s' out"
proof (rule run_while.raw_induct [OF _ assms])
  fix rw and os :: "'a os" and v s out
  assume IH: "\<And>os v s out. rw os v s = Some out \<Longrightarrow>
      \<exists>s'. (keeps_running os v)\<^sup>*\<^sup>* s s' \<and> stops os v s' out"
    and step: "(case RunOnce os v s of
        Inl e \<Rightarrow> Some (Inl e)
      | Inr (r, s') \<Rightarrow> if r \<noteq> 0 then Some (Inr s') else rw os v s') = Some out"
  show "\<exists>s'. (keeps_running os v)\<^sup>*\<^sup>* s s' \<and> stops os v s' out"
  proof (cases "\<exists>s1. RunOnce os v s = Inr (0, s1)")
    case True
    then obtain s1 where s1: "RunOnce os v s = Inr (0, s1)" by blast
    with step have "rw os v s1 = Some out" by simp
    then obtain s' where "(keeps_running os v)\<^sup>*\<^sup>* s1 s'" "stops os v s' out"
      using IH by blast
    moreover have "keeps_running os v s s1" using s1 by (rule keeps_running.intros)
    ultimately show ?thesis by (meson converse_rtranclp_into_rtranclp)
  next
    case False
    with step have "stops os v s out"
      by (auto simp: stops_def split: sum.splits prod.splits if_splits)
    then show ?thesis by blast
  qed
qed

lemma run_while_complete:
  assumes "(keeps_running os v)\<^sup>*\<^sup>* s s'" "stops os v s' out"
  shows "run_while os v s = Some out"
  using assms
  by (induction rule: converse_rtranclp_induct) (simp_all add: run_while_stop run_while_step)

lemma run_while_iff:
  "run_while os v s = Some out \<longleftrightarrow> (\<exists>s'. (keeps_running os v)\<^sup>*\<^sup>* s s' \<and> stops os v s' out)"
  using run_while_sound run_while_complete by blast

section \<open>The bus along a run\<close>

lemma handle_exit_io_access:
  "vcpu_pio v = machine_pio \<Longrightarrow>
     handle_exit os v KVM_EXIT_IO (run, b) =
       chain (io_repeat (unat (run_count run)) (bus.dev_access os (vcpu_vm_fd v) (run_direction run))
               (run_port run) (run_data run) (run_size run) b)
         (\<lambda>(r, data, b'). Inr (if r \<noteq> 0 then 1 else 0, (run\<lparr>run_data := data\<rparr>, b')))"
  by (cases "run_direction run") (simp_all add: bus.dev_access_def)

lemma handle_exit_inv:
  assumes "vcpu_pio v = machine_pio" "bus_inv b"
    and "handle_exit os v x (run, b) = Inr (r, (run', b'))"
  shows "bus_inv b'"
proof (cases "x = KVM_EXIT_IO")
  case True
  with assms obtain r1 data where
    "io_repeat (unat (run_count run)) (bus.dev_access os (vcpu_vm_fd v) (run_direction run))
       (run_port run) (run_data run) (run_size run) b = Inr (r1, data, b')"
    by (auto simp: handle_exit_io_access simp del: handle_exit.simps)
  then show ?thesis by (rule bus.repeat_inv [OF assms(2)])
next
  case False
  with assms show ?thesis by (cases x) auto
qed

lemma bus_inv_host: "bus_inv (devs, h) = bus_inv (devs, h')"
  by (simp add: bus_inv_def)

lemma RunOnce_exit:
  assumes "Run os v (run, h) = (rr, run', h')"
  shows "RunOnce os v (run, (devs, h)) = handle_exit os v (run_exit_reason run') (run', (devs, h'))"
  using assms by (simp add: RunOnce_def)

lemma RunOnce_inv:
  assumes "vcpu_pio v = machine_pio" "bus_inv (snd s)" "RunOnce os v s = Inr (r, s')"
  shows "bus_inv (snd s')"
proof -
  obtain run devs h where s: "s = (run, (devs, h))" by (cases s) auto
  obtain rr run1 h1 where run: "Run os v (run, h) = (rr, run1, h1)" by (cases "Run os v (run, h)")
  have "bus_inv (devs, h1)" using assms(2) bus_inv_host unfolding s by (metis snd_conv)
  moreover obtain run2 b2 where "s' = (run2, b2)" by (cases s')
  ultimately show ?thesis
    using assms(1,3) handle_exit_inv unfolding s RunOnce_exit [OF run] by fastforce
qed

interpretation turns: step_invariant "keeps_running os v" "\<lambda>s. vcpu_pio v = machine_pio \<and> bus_inv (snd s)"
  for os :: "'k os" and v :: vcpu
  by unfold_locales (auto elim!: keeps_runningE intro: RunOnce_inv)

lemma keeps_running_inv:
  assumes "vcpu_pio v = machine_pio" "(keeps_running os v)\<^sup>*\<^sup>* s s'" "bus_inv (snd s)"
  shows "bus_inv (snd s')"
  using turns.path_inv [OF assms(2)] assms(1,3) by blast

text \<open>An exit can only fault by an access to the port without a table row.\<close>

lemma io_repeat_off_table:
  "io_repeat (Suc c) (bus.dev_access os fd d) 0xFFFF b n s = Inl Out_Of_Bounds"
  by (cases d) (simp_all add: bus.dev_access_def pio_access_owner)

lemma handle_exit_fault:
  assumes "vcpu_pio v = machine_pio" "bus_inv b" "handle_exit os v x (run, b) = Inl e"
  shows "x = KVM_EXIT_IO \<and> run_port run = 0xFFFF \<and> run_count run \<noteq> 0 \<and> e = Out_Of_Bounds"
proof -
  have x: "x = KVM_EXIT_IO" using assms(3) by (cases x) auto
  let ?rep = "io_repeat (unat (run_count run)) (bus.dev_access os (vcpu_vm_fd v) (run_direction run))
       (run_port run) (run_data run) (run_size run) b"
  have rep: "?rep = Inl e"
    using assms(1,3) unfolding x
    by (auto simp: handle_exit_io_access chain_eq_Inl simp del: handle_exit.simps)
  then have port: "run_port run = 0xFFFF"
    using bus.repeat_total [OF assms(2), of "run_port run" "unat (run_count run)" os
        "vcpu_vm_fd v" "run_direction run" "run_data run" "run_size run"]
    by (auto simp del: split_paired_Ex)
  from rep obtain c where c: "unat (run_count run) = Suc c"
    by (cases "unat (run_count run)") auto
  with rep port have "e = Out_Of_Bounds" by (simp only: io_repeat_off_table) simp
  with x port c show ?thesis by auto
qed

section \<open>The report of an exit\<close>

text \<open>The report of an MMIO exit leaves the error stream in hexadecimal, and no report puts it back:
  every number a later report prints, of this thread or another, is in hexadecimal too.\<close>

lemma exit_details_hex:
  "st_hex (out_all (exit_details run) o1) \<longleftrightarrow> st_hex o1 \<or> run_exit_reason run = KVM_EXIT_MMIO"
  by (cases "run_exit_reason run") (simp_all add: exit_details_def upt_rec)

lemma report_exit_hex:
  "st_hex (report_exit cpu_id run err) \<longleftrightarrow> st_hex err \<or> run_exit_reason run = KVM_EXIT_MMIO"
  by (simp add: report_exit_def stop_message_def out_all_append exit_details_hex)

text \<open>And the bytes of an MMIO exit are printed without padding: two different data are reported alike.\<close>

lemma report_mmio_ambiguous:
  assumes "run_exit_reason run = KVM_EXIT_MMIO"
    and "run_mmio_data run = (\<lambda>_. 0)(0 := 0x12, 1 := 0x03)"
  shows "report_exit cpu_id (run\<lparr>run_mmio_data := (\<lambda>_. 0)(0 := 0x01, 1 := 0x23)\<rparr>) err = report_exit cpu_id run err"
proof -
  have d: "num_text True 0x12 = ''12''" "num_text True 0x03 = ''3''" "num_text True 0x01 = ''1''"
    "num_text True 0x23 = ''23''"
    by (simp_all add: num_text_def nat_digits.simps digit_char_def)
  show ?thesis
    using assms d by (simp add: report_exit_def stop_message_def exit_details_def out_all_append upt_rec)
qed

section \<open>String output\<close>

text \<open>What a call does besides the buffer.\<close>

definition effect :: "fault + (int \<times> buf \<times> 's) \<Rightarrow> fault + (int \<times> 's)" where
  "effect x = (case x of Inl e \<Rightarrow> Inl e | Inr (r, b, s) \<Rightarrow> Inr (r, s))"

lemma effect_simps [simp]: "effect (Inl e) = Inl e" "effect (Inr (r, b, s)) = Inr (r, s)"
  by (simp_all add: effect_def)

lemma effect_eq_iff:
  "effect x = effect y \<longleftrightarrow>
     (\<exists>e. x = Inl e \<and> y = Inl e) \<or> (\<exists>r b b' s. x = Inr (r, b, s) \<and> y = Inr (r, b', s))"
  by (cases x; cases y) (auto simp: effect_def split: prod.splits)

lemma effect_eqD: "effect x = effect y \<Longrightarrow> x = Inr (r, b, s) \<Longrightarrow> \<exists>b'. y = Inr (r, b', s)"
  unfolding effect_eq_iff by auto

lemma effect_chain:
  "effect x = effect y \<Longrightarrow> (\<And>r b b' s. effect (f (r, b, s)) = effect (g (r, b', s))) \<Longrightarrow>
     effect (chain x f) = effect (chain y g)"
  by (subst (asm) effect_eq_iff) auto

lemma dev_Write_first_byte:
  "b 0 = b' 0 \<Longrightarrow> effect (dev_Write os fd p b n s) = effect (dev_Write os fd p b' n s)"
proof (induction os fd p b n s rule: dev_Write.induct)
  case (1 os fd p b n h)
  then show ?case by (simp add: post_Write_def)
next
  case (2 os fd p b n c h)
  then show ?case by (simp add: cmos_Write_def)
next
  case (3 os fd p b n c h)
  then show ?case by (simp add: com1_Write_def Let_def split: prod.splits)
qed

lemma pio_out_first_byte:
  assumes "b 0 = b' 0"
  shows "effect (pio_access os fd machine_pio KVM_EXIT_IO_OUT p b n s)
       = effect (pio_access os fd machine_pio KVM_EXIT_IO_OUT p b' n s)"
proof -
  obtain devs h where s: "s = (devs, h)" by (cases s)
  have "effect (pio_call os fd (H_dev_write i) p b n s)
      = effect (pio_call os fd (H_dev_write i) p b' n s)" for i
    using dev_Write_first_byte [of b b', OF assms] by (auto simp: s intro!: effect_chain)
  moreover have "effect (pio_call os fd f p b n s) = effect (pio_call os fd f p b' n s)"
    if "f \<in> {H_default, H_do_nothing, H_reset_out}" for f
    using that by (auto simp: default_pio_handler_def do_nothing_pio_handler_def
        reset_generator_handler_out_def)
  ultimately show ?thesis
    using owner_handler_cases [of "port_owner p" KVM_EXIT_IO_OUT]
    by (simp add: pio_access_owner) metis
qed

lemma io_repeat_out_first_byte:
  assumes "bus_inv s" "b 0 = b' 0"
  shows "effect (io_repeat c (bus.dev_access os fd KVM_EXIT_IO_OUT) p b n s)
       = effect (io_repeat c (bus.dev_access os fd KVM_EXIT_IO_OUT) p b' n s)"
  using assms(1)
proof (induction c arbitrary: s)
  case 0
  then show ?case by simp
next
  case (Suc c)
  let ?acc = "\<lambda>b. bus.dev_access os fd KVM_EXIT_IO_OUT p b n s"
  have same: "effect (?acc b) = effect (?acc b')"
    using pio_out_first_byte [of b b', OF assms(2)] by (simp add: bus.dev_access_def)
  then consider e where "?acc b = Inl e" "?acc b' = Inl e"
    | r b1 b2 s1 where "?acc b = Inr (r, b1, s1)" "?acc b' = Inr (r, b2, s1)"
    unfolding effect_eq_iff by blast
  then show ?case
  proof cases
    case 1
    then show ?thesis by simp
  next
    case (2 r b1 b2 s1)
    have "b1 = b" "b2 = b'"
      using 2 bus.write_buffer [OF Suc.prems] by (simp_all add: bus.dev_access_def)
    with 2 Suc.IH [OF bus.access_inv [OF Suc.prems 2(1)]] show ?thesis by simp
  qed
qed

section \<open>Properties\<close>

text \<open>The message of the loop's start.\<close>

definition run_banner :: "vcpu \<Rightarrow> console \<Rightarrow> console" where
  "run_banner v con =
     (out_all [Str ''Vcpu::RunLoop: cpu '', Num (vcpu_id v), Str '' is running'', Str [NL]] (fst con), snd con)"

lemma RunLoop_alt:
  "RunLoop os v r0 s0 out s =
     map_option (map_sum id (stop_running os v r0 s0 (run_banner v out))) (run_while os v s)"
  by (cases out) (auto simp: RunLoop_def run_banner_def split: option.splits sum.splits)

lemma run_while_fault:
  "RunLoop os v r0 s0 out s = Some (Inl e) \<Longrightarrow> run_while os v s = Some (Inl e)"
  unfolding RunLoop_alt by (cases "run_while os v s"; cases "the (run_while os v s)") simp_all

lemma run_while_result:
  "RunLoop os v r0 s0 out s = Some (Inr x) \<Longrightarrow>
     \<exists>s'. run_while os v s = Some (Inr s') \<and> x = stop_running os v r0 s0 (run_banner v out) s'"
  unfolding RunLoop_alt by (cases "run_while os v s"; cases "the (run_while os v s)") simp_all

text \<open>The run loop returns exactly when a finite number of turns that go on leads the guest to a
  turn that does not, and then its result is that turn's fault, or the register dump of the state
  it stopped in. In particular a guest that never reaches such a turn keeps its vCPU thread for
  ever, and nothing else does.\<close>

lemma run_loop_returns_iff:
  "RunLoop os v r0 s0 out s = Some x \<longleftrightarrow>
     (\<exists>s1 y. (keeps_running os v)\<^sup>*\<^sup>* s s1 \<and> stops os v s1 y
        \<and> x = map_sum id (stop_running os v r0 s0 (run_banner v out)) y)"
  by (auto simp: RunLoop_alt run_while_iff)

text \<open>With the handler table of the machine, a vCPU thread can only fail outside its return
  value through the one missing table row: whenever the loop ends in a fault, the guest got there
  by turns that went on, and its last exit was an access to port 0xFFFF.\<close>

lemma run_loop_fault:
  assumes "vcpu_pio v = machine_pio" "bus_inv (snd s)"
    and "RunLoop os v r0 s0 out s = Some (Inl e)"
  shows "e = Out_Of_Bounds \<and>
    (\<exists>run1 devs1 h1 r run' h'. (keeps_running os v)\<^sup>*\<^sup>* s (run1, (devs1, h1))
       \<and> Run os v (run1, h1) = (r, run', h')
       \<and> run_exit_reason run' = KVM_EXIT_IO \<and> run_port run' = 0xFFFF)"
proof -
  obtain run1 devs1 h1 where path: "(keeps_running os v)\<^sup>*\<^sup>* s (run1, (devs1, h1))"
    and stop: "stops os v (run1, (devs1, h1)) (Inl e)"
    using run_while_fault [OF assms(3)] run_while_iff by (metis prod_cases3)
  obtain r run' h' where run: "Run os v (run1, h1) = (r, run', h')" by (cases "Run os v (run1, h1)")
  have "bus_inv (devs1, h')"
    using keeps_running_inv [OF assms(1) path assms(2)] bus_inv_host by (metis snd_conv)
  moreover have "handle_exit os v (run_exit_reason run') (run', (devs1, h')) = Inl e"
    using stop by (auto simp: stops_def RunOnce_exit [OF run] split: sum.splits)
  ultimately have "run_exit_reason run' = KVM_EXIT_IO \<and> run_port run' = 0xFFFF \<and> e = Out_Of_Bounds"
    using handle_exit_fault [OF assms(1)] by blast
  with path run show ?thesis by blast
qed

text \<open>An exit for an access of one byte, for the witnesses.\<close>

definition io_exit :: "io_dir \<Rightarrow> u16 \<Rightarrow> u32 \<Rightarrow> buf \<Rightarrow> kvm_run" where
  "io_exit d p n b = \<lparr>run_exit_reason = KVM_EXIT_IO, run_direction = d, run_size = 1,
     run_port = p, run_count = n, run_data = b, run_mmio_phys_addr = 0, run_mmio_data = (\<lambda>_. 0),
     run_mmio_len = 0, run_mmio_is_write = 0, run_hw_entry_failure_reason = 0\<rparr>"

definition empty_console :: console where
  "empty_console = (let o1 = \<lparr>st_hex = False, st_fill = CHR '' '', st_width = 0, st_text = []\<rparr> in (o1, o1))"

definition sample_vcpu :: vcpu where
  "sample_vcpu = \<lparr>vcpu_fd = 5, vcpu_vm_fd = 4, vcpu_id = 0, vcpu_pio = machine_pio\<rparr>"

definition sample_guest :: "kvm_run list \<Rightarrow> sample_kernel guest" where
  "sample_guest script = (io_exit KVM_EXIT_IO_IN 0 0 (\<lambda>_. 0), (new_devices 0, sample_host [] script))"

lemma sample_guest_inv: "bus_inv (snd (sample_guest script))"
  by (simp add: sample_guest_def bus_inv_new)

lemma sample_RunLoop_fault:
  "RunLoop sample_os sample_vcpu r0 s0 out (sample_guest [io_exit KVM_EXIT_IO_OUT 0xFFFF 1 (\<lambda>_. 0)])
     = Some (Inl Out_Of_Bounds)"
proof -
  have "stops sample_os sample_vcpu (sample_guest [io_exit KVM_EXIT_IO_OUT 0xFFFF 1 (\<lambda>_. 0)])
          (Inl Out_Of_Bounds)"
    by (simp add: stops_def RunOnce_def Run_def kvmIoctl_def sample_guest_def sample_vcpu_def
        sample_host_def sample_kernel_def sample_simps io_exit_def pio_access_owner)
  then show ?thesis by (simp add: RunLoop_alt run_while_stop)
qed

lemma dump_and_stop_result:
  assumes "errno_positive os"
    and "dump_and_stop os v r0 s0 con (run, (devs, h)) = (r, con', s')"
  shows "(r = 1 \<or> r < 0) \<and> (\<exists>h'. s' = (run, (devs, h')))"
proof -
  have "x \<le> 0" if "GetRegs os fd r0 h = ((x, y), z)" for fd h x y z
    using that assms(1) unfolding errno_positive_def
    by (force simp: GetRegs_def kvmIoctl_def Let_def split: prod.splits if_splits)
  moreover have "x \<le> 0" if "GetSregs os fd s0 h = ((x, y), z)" for fd h x y z
    using that assms(1) unfolding errno_positive_def
    by (force simp: GetSregs_def kvmIoctl_def Let_def split: prod.splits if_splits)
  ultimately show ?thesis
    using assms(2)
    by (fastforce simp: dump_and_stop_def DumpRegs_def DumpSregs_def Let_def
        split: prod.splits if_splits)
qed

lemma stop_running_result:
  assumes "errno_positive os"
    and "stop_running os v r0 s0 out (run, (devs, h)) = (r, out', s')"
  shows "(r = 1 \<or> r < 0) \<and> (\<exists>h'. snd s' = (devs, h'))"
proof -
  obtain con where "dump_and_stop os v r0 s0 con (run, (devs, h)) = (r, out', s')"
    using assms(2) by (cases out) (simp add: stop_running_def)
  from dump_and_stop_result [OF assms(1) this] show ?thesis by auto
qed

text \<open>The loop never reports success: a thread that stops without a fault returns 1, or the
  negated errno of a register read that failed while dumping; and the devices are still in a
  consistent state then.\<close>

lemma run_loop_result:
  assumes "vcpu_pio v = machine_pio" "bus_inv (snd s)" "errno_positive os"
    and "RunLoop os v r0 s0 out s = Some (Inr (r, out', s'))"
  shows "(r = 1 \<or> r < 0) \<and> bus_inv (snd s')"
proof -
  obtain s1 where w: "run_while os v s = Some (Inr s1)"
    and x: "(r, out', s') = stop_running os v r0 s0 (run_banner v out) s1"
    using run_while_result [OF assms(4)] by blast
  obtain s2 where path: "(keeps_running os v)\<^sup>*\<^sup>* s s2" and "stops os v s2 (Inr s1)"
    using w unfolding run_while_iff by blast
  then obtain r1 where "RunOnce os v s2 = Inr (r1, s1)"
    by (auto simp: stops_def split: sum.splits)
  then have inv: "bus_inv (snd s1)"
    using RunOnce_inv [OF assms(1) keeps_running_inv [OF assms(1) path assms(2)]] by blast
  obtain run devs h where s1: "s1 = (run, (devs, h))" by (cases s1) auto
  have "\<exists>h'. snd s' = (devs, h')" "r = 1 \<or> r < 0"
    using stop_running_result [OF assms(3) x [symmetric, unfolded s1]] by auto
  with inv bus_inv_host show ?thesis unfolding s1 by (metis snd_conv)
qed


lemma sample_RunLoop_halt:
  "\<exists>r out' s'. RunLoop sample_os sample_vcpu r0 s0 out (sample_guest []) = Some (Inr (r, out', s'))"
proof -
  have "\<exists>y. stops sample_os sample_vcpu (sample_guest []) (Inr y)"
    by (simp add: stops_def RunOnce_def Run_def kvmIoctl_def sample_guest_def sample_vcpu_def
        sample_host_def sample_kernel_def sample_simps io_exit_def)
  then show ?thesis
    by (auto simp: RunLoop_alt simp del: split_paired_Ex dest!: run_while_stop) (metis prod_cases3)
qed

text \<open>The result of \<^verbatim>\<open>KVM_RUN\<close> is dropped: when the ioctl fails without touching the shared
  area, \<^verbatim>\<open>RunOnce\<close> handles the exit the area still holds from the turn before, so that an I/O
  exit is carried out a second time.\<close>

lemma run_failure_replays_last_exit:
  assumes "os_ioctl os (vcpu_fd v) (KVM_RUN run) (kern h) = ((g, e, KVM_RUN run), k')" "g < 0"
  shows "RunOnce os v (run, (devs, h)) =
    handle_exit os v (run_exit_reason run) (run, (devs, h\<lparr>kern := k', errno := e\<rparr>))"
proof -
  have "\<exists>r. Run os v (run, h) = (r, run, h\<lparr>kern := k', errno := e\<rparr>)"
    using assms by (simp add: Run_def kvmIoctl_fail)
  then show ?thesis using RunOnce_exit by blast
qed

text \<open>String output is broken for more than one element: a \<^verbatim>\<open>rep outsb\<close> exit of any count, to
  any port, has an effect that depends on the first byte of the data alone. Two strings that
  agree on it cannot be told apart by the devices, the host or the result.\<close>

lemma string_output_first_byte:
  assumes "vcpu_pio v = machine_pio" "bus_inv s" "run_direction run = KVM_EXIT_IO_OUT"
    and "b 0 = b' 0"
    and "handle_exit os v KVM_EXIT_IO (run\<lparr>run_data := b\<rparr>, s) = Inr (r, (run1, s1))"
  shows "handle_exit os v KVM_EXIT_IO (run\<lparr>run_data := b'\<rparr>, s) = Inr (r, (run\<lparr>run_data := b'\<rparr>, s1))"
proof -
  let ?rep = "\<lambda>b. io_repeat (unat (run_count run)) (bus.dev_access os (vcpu_vm_fd v) KVM_EXIT_IO_OUT)
       (run_port run) b (run_size run) s"
  obtain q b1 where rep: "?rep b = Inr (q, b1, s1)" "r = (if q \<noteq> 0 then 1 else 0)"
    using assms(5) by (auto simp: handle_exit_io_access [OF assms(1)] assms(3)
        simp del: handle_exit.simps)
  obtain b2 where rep': "?rep b' = Inr (q, b2, s1)"
    using effect_eqD [OF io_repeat_out_first_byte [of s b b', OF assms(2,4)] rep(1)] by blast
  have "b2 = b'" by (rule bus.repeat_out_buffer [OF assms(2) rep'])
  with rep rep' show ?thesis
    by (simp add: handle_exit_io_access [OF assms(1)] assms(3) del: handle_exit.simps)
qed

lemma io_repeat_numeral:
  "io_repeat (numeral k) f port b sz s =
     chain (f port b sz s) (\<lambda>(r, b', s').
       if r \<noteq> 0 then Inr (1, b', s') else io_repeat (pred_numeral k) f port b' sz s')"
  by (simp add: numeral_eq_Suc)

text \<open>A two-element string to the serial port, as the handler leaves it.\<close>

lemma sample_string_output:
  "\<exists>s1. handle_exit sample_os sample_vcpu KVM_EXIT_IO
      ((io_exit KVM_EXIT_IO_OUT 0x3F8 2 b)\<lparr>run_data := b\<rparr>, (new_devices 0, sample_host [] []))
    = Inr (0, ((io_exit KVM_EXIT_IO_OUT 0x3F8 2 b)\<lparr>run_data := b\<rparr>, s1))"
  by (simp add: sample_vcpu_def io_exit_def pio_access_owner port_owner_def new_devices_def
      com1_Write_def com1_transmit_def com1_new_def is_dlab_set_def is_loop_set_def sample_simps
      io_repeat_numeral)

text \<open>String input is broken the same way: after an input exit of any count, from any port,
  every byte of the data area but the first still has its old value.\<close>

lemma string_input_first_byte:
  assumes "vcpu_pio v = machine_pio" "bus_inv s"
    and "handle_exit os v KVM_EXIT_IO (run, s) = Inr (r, (run1, s1))" "i \<noteq> 0"
  shows "run_data run1 i = run_data run i"
proof -
  obtain q b1 where rep: "io_repeat (unat (run_count run))
      (bus.dev_access os (vcpu_vm_fd v) (run_direction run))
      (run_port run) (run_data run) (run_size run) s = Inr (q, b1, s1)"
    and "run1 = run\<lparr>run_data := b1\<rparr>"
    using assms(3) by (auto simp: handle_exit_io_access [OF assms(1)] simp del: handle_exit.simps)
  then show ?thesis using bus.repeat_frame [OF assms(2) rep assms(4)] by simp
qed

end
