(* ===== verification/KvmSys.thy ===== *)
theory KvmSys
  imports HostIface SampleHost
begin

text \<open>
  The system object (\<^verbatim>\<open>include/kvm.hpp\<close>, \<^verbatim>\<open>src/kvm.cpp\<close>) and the CPU feature test
  (\<^verbatim>\<open>include/cpufeat.hpp\<close>): opening \<^verbatim>\<open>/dev/kvm\<close>, the constructor of \<^verbatim>\<open>KVM\<close> with its capability
  check, the CPUID query, and the guard of \<^verbatim>\<open>KVM::kvmCreateVM\<close>. The CPUID instruction is the
  function \<open>os_cpuid\<close> of the host, by leaf (the program always passes sub-leaf 0).
\<close>

section \<open>cpuSupportsVM\<close>

abbreviation (input) VIS_INTEL_EBX :: u32 where "VIS_INTEL_EBX \<equiv> 0x756e6547"

abbreviation (input) VIS_INTEL_EDX :: u32 where "VIS_INTEL_EDX \<equiv> 0x49656e69"

abbreviation (input) VIS_INTEL_ECX :: u32 where "VIS_INTEL_ECX \<equiv> 0x6c65746e"

abbreviation (input) INTEL_EAX_FEAT :: u32 where "INTEL_EAX_FEAT \<equiv> 0x00000001"

abbreviation (input) INTEL_FEAT_VMX_SHIFT :: nat where "INTEL_FEAT_VMX_SHIFT \<equiv> 5"

abbreviation (input) VIS_AMD_EBX :: u32 where "VIS_AMD_EBX \<equiv> 0x68747541"

abbreviation (input) VIS_AMD_EDX :: u32 where "VIS_AMD_EDX \<equiv> 0x69746e65"

abbreviation (input) VIS_AMD_ECX :: u32 where "VIS_AMD_ECX \<equiv> 0x444d4163"

abbreviation (input) AMD_EAX_FEAT :: u32 where "AMD_EAX_FEAT \<equiv> 0x80000001"

abbreviation (input) AMD_FEAT_SVM_SHIFT :: nat where "AMD_FEAT_SVM_SHIFT \<equiv> 2"

record cpuid_regs =
  cp_eax :: u32
  cp_ebx :: u32
  cp_ecx :: u32
  cp_edx :: u32

definition cpuid :: "'k os \<Rightarrow> cpuid_regs \<Rightarrow> cpuid_regs" where
  "cpuid os regs =
     (let (a, b, c, d) = os_cpuid os (cp_eax regs)
      in \<lparr>cp_eax = a, cp_ebx = b, cp_ecx = c, cp_edx = d\<rparr>)"

text \<open>The vendor's feature leaf and bit: the \<^verbatim>\<open>switch\<close> on \<^verbatim>\<open>regs.ebx\<close>.\<close>

definition vendor_feature :: "cpuid_regs \<Rightarrow> fault + (u32 \<times> nat)" where
  "vendor_feature regs =
     (if cp_ebx regs = VIS_INTEL_EBX then
        (if cp_ecx regs = VIS_INTEL_ECX \<and> cp_edx regs = VIS_INTEL_EDX
         then Inr (INTEL_EAX_FEAT, INTEL_FEAT_VMX_SHIFT) else Inl Runtime_Error)
      else if cp_ebx regs = VIS_AMD_EBX then
        (if cp_ecx regs = VIS_AMD_ECX \<and> cp_edx regs = VIS_AMD_EDX
         then Inr (AMD_EAX_FEAT, AMD_FEAT_SVM_SHIFT) else Inl Runtime_Error)
      else Inl Runtime_Error)"

definition cpuSupportsVM :: "'k os \<Rightarrow> fault + bool" where
  "cpuSupportsVM os =
     (let regs = cpuid os \<lparr>cp_eax = 0, cp_ebx = 0, cp_ecx = 0, cp_edx = 0\<rparr> in
      chain (vendor_feature regs) (\<lambda>(eax_feat, feat_vm_shift).
        chain
          (if eax_feat AND 0x80000000 \<noteq> 0 then
             let ext_regs = cpuid os \<lparr>cp_eax = 0x80000000, cp_ebx = 0, cp_ecx = 0, cp_edx = 0\<rparr> in
             if cp_eax ext_regs < eax_feat then Inl Runtime_Error else Inr ()
           else if cp_eax regs < eax_feat then Inl Runtime_Error else Inr ())
          (\<lambda>_. Inr (cp_ecx (cpuid os \<lparr>cp_eax = eax_feat, cp_ebx = 0, cp_ecx = 0, cp_edx = 0\<rparr>)
                      AND push_bit feat_vm_shift 1 \<noteq> 0))))"

section \<open>The system object\<close>

record kvm_cap =
  immediate_exit :: int
  nr_slots :: int
  nr_as :: int
  soft_vcpus_limit :: int
  hard_vcpus_limit :: int
  coalesced_mmio :: int

record kvm_system =
  kvm_fd :: int
  mmap_size :: int
  api_ver :: int
  kvm_caps :: kvm_cap

definition KVM_CAP_CHECK :: "kvm_cap_id list" where
  "KVM_CAP_CHECK = [KVM_CAP_IMMEDIATE_EXIT, KVM_CAP_NR_MEMSLOTS, KVM_CAP_MULTI_ADDRESS_SPACE,
     KVM_CAP_NR_VCPUS, KVM_CAP_MAX_VCPUS, KVM_CAP_COALESCED_MMIO]"

definition getKVMFD :: "'k os \<Rightarrow> 'k host \<Rightarrow> int \<times> 'k host" where
  "getKVMFD os h =
     (let ((r, e), k') = os_open_kvm os (kern h) in
      if r < 0 then (- e, h\<lparr>kern := k', errno := e\<rparr>) else (r, h\<lparr>kern := k'\<rparr>))"

text \<open>\<^verbatim>\<open>*kvm_cap_ptr++ = kvmIoctlCtor(KVM_CHECK_EXTENSION, e)\<close> for each of them.\<close>

fun check_extensions ::
  "'k os \<Rightarrow> int \<Rightarrow> kvm_cap_id list \<Rightarrow> 'k host \<Rightarrow> fault + (int list \<times> 'k host)" where
  "check_extensions os fd [] h = Inr ([], h)"
| "check_extensions os fd (c # cs) h =
     chain (kvmIoctlCtor os fd (KVM_CHECK_EXTENSION c) h) (\<lambda>((r, q), h1).
       chain (check_extensions os fd cs h1) (\<lambda>(rs, h2). Inr (r # rs, h2)))"

text \<open>The members of \<^verbatim>\<open>kvm_cap\<close>, in the order the pointer walks over them.\<close>

definition cap_of_list :: "int list \<Rightarrow> kvm_cap" where
  "cap_of_list rs = \<lparr>immediate_exit = rs ! 0, nr_slots = rs ! 1, nr_as = rs ! 2,
     soft_vcpus_limit = rs ! 3, hard_vcpus_limit = rs ! 4, coalesced_mmio = rs ! 5\<rparr>"

text \<open>The defaults; the last branch of the source prints a message and assigns nothing.\<close>

definition cap_defaults :: "kvm_cap \<Rightarrow> kvm_cap" where
  "cap_defaults c0 =
     (let c1 = (if nr_slots c0 = 0 then c0\<lparr>nr_slots := 32\<rparr> else c0);
          c2 = (if nr_as c1 = 0 then c1\<lparr>nr_as := 1\<rparr> else c1);
          c3 = (if soft_vcpus_limit c2 = 0 then c2\<lparr>soft_vcpus_limit := 4\<rparr> else c2)
      in if hard_vcpus_limit c3 = 0 then c3 else c3)"

definition kvmCapCheck :: "'k os \<Rightarrow> int \<Rightarrow> 'k host \<Rightarrow> fault + (kvm_cap \<times> 'k host)" where
  "kvmCapCheck os fd h =
     chain (check_extensions os fd KVM_CAP_CHECK h) (\<lambda>(rs, h').
       Inr (cap_defaults (cap_of_list rs), h'))"

text \<open>The constructor: the result of the feature test is dropped, only its exception counts.\<close>

definition KVM :: "'k os \<Rightarrow> int \<Rightarrow> 'k host \<Rightarrow> fault + (kvm_system \<times> 'k host)" where
  "KVM os fd h =
     chain (cpuSupportsVM os) (\<lambda>supported.
     chain (kvmIoctlCtor os fd KVM_GET_API_VERSION h) (\<lambda>((ver, q1), h1).
     chain (kvmCapCheck os fd h1) (\<lambda>(caps, h2).
     chain (kvmIoctlCtor os fd KVM_GET_VCPU_MMAP_SIZE h2) (\<lambda>((sz, q2), h3).
       Inr (\<lparr>kvm_fd = fd, mmap_size = sz, api_ver = ver, kvm_caps = caps\<rparr>, h3)))))"

definition getSupportedCPUID ::
  "'k os \<Rightarrow> kvm_system \<Rightarrow> kvm_cpuid2 \<Rightarrow> 'k host \<Rightarrow> int \<times> kvm_cpuid2 \<times> 'k host" where
  "getSupportedCPUID os kvm c h =
     (let ((r, req), h') = kvmIoctl os (kvm_fd kvm) (KVM_GET_SUPPORTED_CPUID c) h;
          c' = (case req of KVM_GET_SUPPORTED_CPUID x \<Rightarrow> x | _ \<Rightarrow> c)
      in if r < 0 then (- errno h', c', h') else (0, c', h'))"

text \<open>
  \<^verbatim>\<open>KVM::kvmCreateVM\<close> up to the construction of the \<^verbatim>\<open>VM\<close> object, which the caller passes as
  \<open>new_vm\<close>: \<open>None\<close> is the returned error, \<open>Some\<close> the object.
\<close>

definition kvmCreateVM ::
  "'k os \<Rightarrow> kvm_system \<Rightarrow> int \<Rightarrow> (int \<Rightarrow> 'k host \<Rightarrow> fault + ('v \<times> 'k host)) \<Rightarrow> 'k host \<Rightarrow>
     fault + (int \<times> 'v option \<times> 'k host)" where
  "kvmCreateVM os kvm vcpu_num new_vm h =
     (if vcpu_num > hard_vcpus_limit (kvm_caps kvm) then Inr (- EINVAL, None, h)
      else
        let ((r, q), h') = kvmIoctl os (kvm_fd kvm) KVM_CREATE_VM h in
        if r < 0 then Inr (- errno h', None, h')
        else chain (new_vm r h') (\<lambda>(vm, h''). Inr (r, Some vm, h'')))"

section \<open>The vendor identification\<close>

text \<open>The twelve characters that leaf 0 spells in ebx, edx and ecx.\<close>

definition vendor_id :: "cpuid_regs \<Rightarrow> u8 list" where
  "vendor_id regs = le_bytes 4 (cp_ebx regs) @ le_bytes 4 (cp_edx regs) @ le_bytes 4 (cp_ecx regs)"

definition ascii :: "string \<Rightarrow> u8 list" where
  "ascii s = map of_char s"

lemma le_bytes_eq_iff: "le_bytes 4 (w :: u32) = bs \<longleftrightarrow> length bs = 4 \<and> w = of_le bs"
  using of_le_le_bytes [of 4 w] le_bytes_of_le [of bs 4, where 'a = 32] by auto

lemma vendor_id_iff:
  assumes "length a = 4" "length b = 4" "length c = 4"
  shows "vendor_id regs = a @ b @ c \<longleftrightarrow>
     cp_ebx regs = of_le a \<and> cp_edx regs = of_le b \<and> cp_ecx regs = of_le c"
  using assms by (auto simp: vendor_id_def le_bytes_eq_iff)

lemma vendor_names:
  "vendor_id regs = ascii ''GenuineIntel'' \<longleftrightarrow>
     cp_ebx regs = VIS_INTEL_EBX \<and> cp_edx regs = VIS_INTEL_EDX \<and> cp_ecx regs = VIS_INTEL_ECX"
  "vendor_id regs = ascii ''AuthenticAMD'' \<longleftrightarrow>
     cp_ebx regs = VIS_AMD_EBX \<and> cp_edx regs = VIS_AMD_EDX \<and> cp_ecx regs = VIS_AMD_ECX"
proof -
  have intel: "ascii ''GenuineIntel'' = ascii ''Genu'' @ ascii ''ineI'' @ ascii ''ntel''"
    and amd: "ascii ''AuthenticAMD'' = ascii ''Auth'' @ ascii ''enti'' @ ascii ''cAMD''"
    by (simp_all add: ascii_def)
  have words: "of_le (ascii ''Genu'') = VIS_INTEL_EBX" "of_le (ascii ''ineI'') = VIS_INTEL_EDX"
    "of_le (ascii ''ntel'') = VIS_INTEL_ECX" "of_le (ascii ''Auth'') = VIS_AMD_EBX"
    "of_le (ascii ''enti'') = VIS_AMD_EDX" "of_le (ascii ''cAMD'') = VIS_AMD_ECX"
    by code_simp+
  have len: "length (ascii s) = length s" for s by (simp add: ascii_def)
  show "vendor_id regs = ascii ''GenuineIntel'' \<longleftrightarrow>
     cp_ebx regs = VIS_INTEL_EBX \<and> cp_edx regs = VIS_INTEL_EDX \<and> cp_ecx regs = VIS_INTEL_ECX"
    unfolding intel by (subst vendor_id_iff) (simp_all add: len words)
  show "vendor_id regs = ascii ''AuthenticAMD'' \<longleftrightarrow>
     cp_ebx regs = VIS_AMD_EBX \<and> cp_edx regs = VIS_AMD_EDX \<and> cp_ecx regs = VIS_AMD_ECX"
    unfolding amd by (subst vendor_id_iff) (simp_all add: len words)
qed

lemma u32_shifted_bit: "(x :: u32) AND push_bit n 1 \<noteq> 0 \<longleftrightarrow> bit x n"
  by (metis and_exp_eq_0_iff_not_bit push_bit_of_1)

section \<open>Properties\<close>

text \<open>The virtualisation test identifies the vendor by the twelve characters of CPUID leaf 0:
  for \<^verbatim>\<open>GenuineIntel\<close> it answers bit 5 (VMX) of ecx in leaf 1, for \<^verbatim>\<open>AuthenticAMD\<close> bit 2 (SVM)
  of ecx in leaf 0x80000001, and it throws for any other vendor and where the highest supported
  leaf is below the one it needs.\<close>

lemma cpu_supports_vm_spec:
  "cpuSupportsVM os =
     (let leaf = (\<lambda>n. cpuid os \<lparr>cp_eax = n, cp_ebx = 0, cp_ecx = 0, cp_edx = 0\<rparr>) in
      if vendor_id (leaf 0) = ascii ''GenuineIntel'' then
        (if cp_eax (leaf 0) = 0 then Inl Runtime_Error else Inr (bit (cp_ecx (leaf 1)) 5))
      else if vendor_id (leaf 0) = ascii ''AuthenticAMD'' then
        (if cp_eax (leaf 0x80000000) < 0x80000001 then Inl Runtime_Error
         else Inr (bit (cp_ecx (leaf 0x80000001)) 2))
      else Inl Runtime_Error)"
proof -
  have "(x :: u32) < 1 \<longleftrightarrow> x = 0" for x by (simp add: word_less_nat_alt word_unat_eq_iff)
  then show ?thesis
    unfolding vendor_names cpuSupportsVM_def vendor_feature_def Let_def
    using u32_shifted_bit [of _ 5] u32_shifted_bit [of _ 2]
    by simp
qed

lemma cap_defaults_positive:
  "nr_slots (cap_defaults c) \<noteq> 0" "nr_as (cap_defaults c) \<noteq> 0"
  "soft_vcpus_limit (cap_defaults c) \<noteq> 0" "hard_vcpus_limit (cap_defaults c) = hard_vcpus_limit c"
  by (simp_all add: cap_defaults_def Let_def)

text \<open>Every constructed system object has a slot count, an address space count and a
  recommended vCPU limit, by default where the kernel reports none; but a kernel that reports no
  maximum leaves the hard limit at 0 (the message announces the recommended limit instead), and
  then every virtual machine with a vCPU is refused before the kernel is asked.\<close>

lemma kvm_capability_defaults:
  assumes "KVM os fd h = Inr (kvm, h')"
  shows "nr_slots (kvm_caps kvm) \<noteq> 0 \<and> nr_as (kvm_caps kvm) \<noteq> 0
    \<and> soft_vcpus_limit (kvm_caps kvm) \<noteq> 0
    \<and> (\<forall>n > 0. hard_vcpus_limit (kvm_caps kvm) = 0 \<longrightarrow>
          kvmCreateVM os kvm n new_vm h' = Inr (- EINVAL, None, h'))"
  using assms
  by (auto simp: KVM_def kvmCapCheck_def kvmCreateVM_def cap_defaults_positive)

text \<open>A kernel without capabilities: \<^verbatim>\<open>KVM_CHECK_EXTENSION\<close> answers 0.\<close>

definition bare_os :: "sample_kernel os" where
  "bare_os = sample_os\<lparr>os_ioctl := (\<lambda>fd req k.
     case req of KVM_CHECK_EXTENSION c \<Rightarrow> ((0, 0, req), k) | _ \<Rightarrow> sample_answer req k)\<rparr>"

text \<open>The constructor does not act on what the virtualisation test found: two processors that
  differ in their CPUID answers, one with and one without hardware virtualisation, give the same
  system object, or the same exception, as long as the test itself does not throw.\<close>

lemma kvm_ignores_vm_support:
  assumes "cpuSupportsVM os = Inr a" "cpuSupportsVM (os\<lparr>os_cpuid := f\<rparr>) = Inr b"
  shows "KVM os fd h = KVM (os\<lparr>os_cpuid := f\<rparr>) fd h"
proof -
  have "kvmIoctlCtor (os\<lparr>os_cpuid := f\<rparr>) = kvmIoctlCtor os"
    by (simp add: kvmIoctlCtor_def fun_eq_iff)
  moreover from this have "check_extensions (os\<lparr>os_cpuid := f\<rparr>) fd cs h
      = check_extensions os fd cs h" for cs h
    by (induction cs arbitrary: h) simp_all
  ultimately show ?thesis using assms by (simp add: KVM_def kvmCapCheck_def)
qed

end
