(* ===== verification/VcpuInit.thy ===== *)
theory VcpuInit
  imports KvmSys VcpuConsts
begin

text \<open>
  The constructor of \<^verbatim>\<open>Vcpu\<close> (\<^verbatim>\<open>src/vcpu.cpp\<close>): the table of supported CPUID leaves is read
  into an array of \<^verbatim>\<open>KVM_CPUID_ENTRIES_NUM\<close> zeroed entries, the entry of the hypervisor leaf is
  overwritten with the signature of KVM, the table is handed to the vCPU, and the run area is
  mapped.
\<close>

section \<open>The CPUID table\<close>

definition zero_entry :: cpuid_entry where
  "zero_entry = \<lparr>ce_function = 0, ce_eax = 0, ce_ebx = 0, ce_ecx = 0, ce_edx = 0\<rparr>"

text \<open>\<^verbatim>\<open>calloc\<close> of the header and the array, then \<^verbatim>\<open>nent = KVM_CPUID_ENTRIES_NUM\<close>.\<close>

definition new_cpuid_table :: kvm_cpuid2 where
  "new_cpuid_table = \<lparr>nent = KVM_CPUID_ENTRIES_NUM,
     entries = replicate KVM_CPUID_ENTRIES_NUM zero_entry\<rparr>"

definition sign_entry :: "cpuid_entry \<Rightarrow> cpuid_entry" where
  "sign_entry e =
     (if ce_function e \<noteq> KVM_CPUID_SIGNATURE then e
      else e\<lparr>ce_eax := KVM_CPUID_FEATURES, ce_ebx := KVM_CPUID_EBX, ce_ecx := KVM_CPUID_ECX,
             ce_edx := KVM_CPUID_EDX\<rparr>)"

text \<open>
  \<^verbatim>\<open>for (i = 0; i < kvm_cpuid->nent; ++i)\<close>, with \<open>n\<close> iterations left: \<open>nent\<close> is what the kernel
  stored, the array is what was allocated.
\<close>

primrec sign_entries :: "nat \<Rightarrow> nat \<Rightarrow> cpuid_entry list \<Rightarrow> fault + cpuid_entry list" where
  "sign_entries 0 i es = Inr es"
| "sign_entries (Suc n) i es =
     (if i < length es then sign_entries n (Suc i) (es[i := sign_entry (es ! i)])
      else Inl Out_Of_Bounds)"

section \<open>The constructor\<close>

text \<open>The result is the address of the run area; the error of the CPUID query is dropped.\<close>

definition Vcpu :: "'k os \<Rightarrow> kvm_system \<Rightarrow> int \<Rightarrow> 'k host \<Rightarrow> fault + (u64 \<times> 'k host)" where
  "Vcpu os kvm fd h =
     (let (r, table, h1) = getSupportedCPUID os kvm new_cpuid_table h in
      chain (sign_entries (nent table) 0 (entries table)) (\<lambda>es.
      chain (kvmIoctlCtor os fd (KVM_SET_CPUID2 (table\<lparr>entries := es\<rparr>)) h1) (\<lambda>((r2, q), h2).
        let (m, k3) = os_mmap os (word_of_int (mmap_size kvm)) (kern h2) in
        case m of
          Inl e \<Rightarrow> Inl Runtime_Error
        | Inr a \<Rightarrow> Inr (a, h2\<lparr>kern := k3\<rparr>))))"

section \<open>What the loop computes\<close>

lemma sign_entries_eq:
  "sign_entries n i es =
     (if i + n \<le> length es then Inr (take i es @ map sign_entry (take n (drop i es)) @ drop (i + n) es)
      else if n = 0 then Inr es else Inl Out_Of_Bounds)"
proof (induction n arbitrary: i es)
  case 0
  then show ?case by simp
next
  case (Suc n)
  show ?case
  proof (cases "i < length es")
    case True
    let ?es = "es[i := sign_entry (es ! i)]"
    have "take (Suc i) ?es = take i es @ [sign_entry (es ! i)]"
      using True by (simp add: take_Suc_conv_app_nth)
    moreover have "take (Suc n) (drop i es) = es ! i # take n (drop (Suc i) es)"
      using True by (simp add: Cons_nth_drop_Suc [symmetric])
    ultimately show ?thesis using True Suc.IH [of "Suc i" ?es] by simp
  next
    case False
    then show ?thesis by simp
  qed
qed

corollary sign_entries_all:
  "sign_entries n 0 es =
     (if n \<le> length es then Inr (map sign_entry (take n es) @ drop n es) else Inl Out_Of_Bounds)"
  by (simp add: sign_entries_eq)

section \<open>Properties\<close>

text \<open>
  What the KVM documentation promises of the three calls of the constructor on a kernel that
  supports the leaves \<open>supported\<close>: the query fills the front of the array and stores the count,
  the installation succeeds and makes the first \<open>nent\<close> entries the vCPU's leaves, the mapping
  succeeds.
\<close>

definition cpuid_kernel ::
  "'k os \<Rightarrow> int \<Rightarrow> int \<Rightarrow> cpuid_entry list \<Rightarrow> ('k \<Rightarrow> cpuid_entry list) \<Rightarrow> bool" where
  "cpuid_kernel os sys_fd fd supported installed \<longleftrightarrow>
     (\<forall>c k. \<exists>e k'. os_ioctl os sys_fd (KVM_GET_SUPPORTED_CPUID c) k =
         ((0, e, KVM_GET_SUPPORTED_CPUID (c\<lparr>nent := length supported,
            entries := supported @ drop (length supported) (entries c)\<rparr>)), k'))
   \<and> (\<forall>c k. \<exists>e q k'. os_ioctl os fd (KVM_SET_CPUID2 c) k = ((0, e, q), k')
         \<and> installed k' = take (nent c) (entries c))
   \<and> (\<forall>n k. \<exists>a k'. os_mmap os n k = (Inr a, k') \<and> installed k' = installed k)"

text \<open>What the guest must find: the signature of KVM in the hypervisor leaf, the rest untouched.\<close>

definition signed_as_kvm :: "cpuid_entry \<Rightarrow> cpuid_entry \<Rightarrow> bool" where
  "signed_as_kvm e e' \<longleftrightarrow>
     (if ce_function e = 0x40000000 then
        ce_function e' = 0x40000000 \<and> ce_eax e' = 0x40000001
        \<and> le_bytes 4 (ce_ebx e') @ le_bytes 4 (ce_ecx e') @ le_bytes 4 (ce_edx e')
            = ascii ''KVMKVMKVM'' @ [0, 0, 0]
      else e' = e)"

lemma sign_entry_signed: "signed_as_kvm e (sign_entry e)"
proof -
  have "le_bytes 4 KVM_CPUID_EBX @ le_bytes 4 KVM_CPUID_ECX @ le_bytes 4 KVM_CPUID_EDX
      = ascii ''KVMKVMKVM'' @ [0, 0, 0]"
    by code_simp
  then show ?thesis by (simp add: signed_as_kvm_def sign_entry_def)
qed

text \<open>C28: On a kernel with at most 100 supported CPUID leaves the constructor of a vCPU succeeds, and
  the vCPU then has exactly those leaves, unchanged but for the hypervisor leaf 0x40000000, in
  which a guest reads the characters \<^verbatim>\<open>KVMKVMKVM\<close> and the feature leaf 0x40000001.\<close>

theorem vcpu_cpuid_signature:
  assumes "cpuid_kernel os (kvm_fd kvm) fd supported installed" "length supported \<le> 100"
  shows "\<exists>a h'. Vcpu os kvm fd h = Inr (a, h')
    \<and> list_all2 signed_as_kvm supported (installed (kern h'))"
proof -
  let ?t = "new_cpuid_table\<lparr>nent := length supported,
      entries := supported @ drop (length supported) (entries new_cpuid_table)\<rparr>"
  obtain e k1 where get: "os_ioctl os (kvm_fd kvm) (KVM_GET_SUPPORTED_CPUID new_cpuid_table) (kern h)
      = ((0, e, KVM_GET_SUPPORTED_CPUID ?t), k1)"
    using assms(1) unfolding cpuid_kernel_def by blast
  have g: "getSupportedCPUID os kvm new_cpuid_table h = (0, ?t, h\<lparr>kern := k1, errno := 0\<rparr>)"
    by (simp add: getSupportedCPUID_def kvmIoctl_ok [OF get])
  let ?es = "map sign_entry supported @ drop (length supported) (entries new_cpuid_table)"
  have s: "sign_entries (length supported) 0
      (supported @ drop (length supported) (entries new_cpuid_table)) = Inr ?es"
    by (simp add: sign_entries_all)
  let ?set = "\<lambda>c k. \<exists>e q k'. os_ioctl os fd (KVM_SET_CPUID2 c) k = ((0, e, q), k')
      \<and> installed k' = take (nent c) (entries c)"
  have "\<forall>c k. ?set c k" using assms(1) unfolding cpuid_kernel_def by blast
  then have "?set (?t\<lparr>entries := ?es\<rparr>) k1" by (elim allE)
  then obtain e2 q k2 where set: "os_ioctl os fd (KVM_SET_CPUID2 (?t\<lparr>entries := ?es\<rparr>)) k1 = ((0, e2, q), k2)"
    and k2: "installed k2 = take (length supported) ?es"
    by (elim exE conjE) simp
  obtain a k3 where map: "os_mmap os (word_of_int (mmap_size kvm)) k2 = (Inr a, k3)"
    and k3: "installed k3 = installed k2"
    using assms(1) unfolding cpuid_kernel_def by blast
  have "Vcpu os kvm fd h = Inr (a, h\<lparr>kern := k3, errno := 0\<rparr>)"
    using set map by (simp add: Vcpu_def g s kvmIoctlCtor_def del: chain_eq_Inr)
  moreover have "installed k3 = map sign_entry supported" using k2 k3 by simp
  then have "list_all2 signed_as_kvm supported (installed k3)"
    by (simp add: list_all2_map2 list_all2_same sign_entry_signed)
  ultimately show ?thesis by auto
qed

definition leaf_entry :: "u32 \<Rightarrow> cpuid_entry" where
  "leaf_entry n = \<lparr>ce_function = n, ce_eax = 1, ce_ebx = 2, ce_ecx = 3, ce_edx = 4\<rparr>"

definition cpuid_os :: "cpuid_entry list \<Rightarrow> cpuid_entry list os" where
  "cpuid_os supported = \<lparr>
     os_ioctl = (\<lambda>fd req k. case req of
         KVM_GET_SUPPORTED_CPUID c \<Rightarrow> ((0, 0, KVM_GET_SUPPORTED_CPUID (c\<lparr>nent := length supported,
            entries := supported @ drop (length supported) (entries c)\<rparr>)), k)
       | KVM_SET_CPUID2 c \<Rightarrow> ((0, 0, req), take (nent c) (entries c))
       | _ \<Rightarrow> ((0, 0, req), k)),
     os_write = (\<lambda>x k. ((1, 0), k)), os_read = (\<lambda>k. ((0, 0), k)),
     os_localtime = (\<lambda>k. (sample_now, k)), os_mmap = (\<lambda>n k. (Inr 4096, k)),
     os_open_kvm = (\<lambda>k. ((3, 0), k)), os_cpuid = (\<lambda>_. (0, 0, 0, 0))\<rparr>"

theorem vcpu_cpuid_signature_witness:
  "\<exists>a h'. Vcpu (cpuid_os [leaf_entry 1, leaf_entry 0x40000000])
       \<lparr>kvm_fd = 3, mmap_size = 12288, api_ver = 12, kvm_caps = cap_of_list [1, 8, 1, 8, 8, 1]\<rparr> 5
       \<lparr>kern = [], errno = 0\<rparr> = Inr (a, h')
    \<and> list_all2 signed_as_kvm [leaf_entry 1, leaf_entry 0x40000000] (kern h')"
  by (rule vcpu_cpuid_signature [where installed = "\<lambda>k. k"])
    (auto simp: cpuid_kernel_def cpuid_os_def)

end
