(* ===== verification/InFile.thy ===== *)
theory InFile
  imports BootConsts
begin

text \<open>
  What the program uses of \<^verbatim>\<open>std::ifstream\<close>, and the two helpers of \<^verbatim>\<open>include/util.hpp\<close>. A
  stream is the content of its file, a position and whether it has failed; the program never
  clears a failure. A read that comes short stores what there was and fails; seeking does nothing
  on a failed stream, and may go past the end otherwise.
\<close>

section \<open>Streams\<close>

record ifstream =
  if_data :: "u8 list"
  if_pos :: nat
  if_failed :: bool

text \<open>\<^verbatim>\<open>open(path, in | binary)\<close>; the file system is a function from paths to contents.\<close>

definition if_open :: "(string \<Rightarrow> u8 list option) \<Rightarrow> string \<Rightarrow> ifstream" where
  "if_open files path =
     (case files path of
        None \<Rightarrow> \<lparr>if_data = [], if_pos = 0, if_failed = True\<rparr>
      | Some d \<Rightarrow> \<lparr>if_data = d, if_pos = 0, if_failed = False\<rparr>)"

definition tellg :: "ifstream \<Rightarrow> int" where
  "tellg f = (if if_failed f then - 1 else int (if_pos f))"

definition seekg_beg :: "int \<Rightarrow> ifstream \<Rightarrow> ifstream" where
  "seekg_beg p f =
     (if if_failed f then f
      else if p < 0 then f\<lparr>if_failed := True\<rparr>
      else f\<lparr>if_pos := nat p\<rparr>)"

definition seekg_end :: "ifstream \<Rightarrow> ifstream" where
  "seekg_end f = (if if_failed f then f else f\<lparr>if_pos := length (if_data f)\<rparr>)"

text \<open>\<^verbatim>\<open>read(ptr, n)\<close>: the bytes stored at the pointer, and the stream.\<close>

definition if_read :: "int \<Rightarrow> ifstream \<Rightarrow> u8 list \<times> ifstream" where
  "if_read n f =
     (if if_failed f then ([], f)
      else
        let got = take (nat n) (drop (if_pos f) (if_data f)) in
        (got, f\<lparr>if_pos := if_pos f + length got, if_failed := int (length got) \<noteq> n\<rparr>))"

section \<open>The helpers\<close>

definition get_ifs_size :: "ifstream \<Rightarrow> int \<times> ifstream" where
  "get_ifs_size f =
     (let original_pos = tellg f in
      if if_failed f then (0, f)
      else
        let f1 = seekg_end f; size = tellg f1 in (size, seekg_beg original_pos f1))"

text \<open>The buffer of four bytes starts with the content \<open>buf0\<close>.\<close>

definition is_kernel_elf :: "u8 list \<Rightarrow> ifstream \<Rightarrow> bool \<times> ifstream" where
  "is_kernel_elf buf0 f =
     (let original_pos = tellg f in
      if if_failed f then (False, f)
      else
        let f1 = seekg_beg 0 f;
            (got, f2) = if_read (int ELF_MAGIC_SIZE) f1;
            f3 = seekg_beg original_pos f2;
            buf = got @ drop (length got) buf0
        in (take ELF_MAGIC_SIZE buf = ELF_MAGIC, f3))"

section \<open>On a stream that has not failed\<close>

lemma seekg_beg_nat: "\<not> if_failed f \<Longrightarrow> seekg_beg (int n) f = f\<lparr>if_pos := n\<rparr>"
  by (simp add: seekg_beg_def)

lemma get_ifs_size_ok:
  "\<not> if_failed f \<Longrightarrow> get_ifs_size f = (int (length (if_data f)), f)"
  by (simp add: get_ifs_size_def tellg_def seekg_beg_def seekg_end_def)

lemma if_read_all:
  "\<not> if_failed f \<Longrightarrow> if_pos f \<le> length (if_data f) \<Longrightarrow>
     if_read (int (length (if_data f)) - int (if_pos f)) f =
       (drop (if_pos f) (if_data f), f\<lparr>if_pos := length (if_data f)\<rparr>)"
  by (simp add: if_read_def Let_def nat_diff_distrib)

lemma if_read_enough:
  "\<not> if_failed f \<Longrightarrow> if_pos f + n \<le> length (if_data f) \<Longrightarrow>
     if_read (int n) f = (take n (drop (if_pos f) (if_data f)), f\<lparr>if_pos := if_pos f + n\<rparr>)"
  by (simp add: if_read_def Let_def)

lemma if_read_short:
  "n < 0 \<or> 0 < n \<and> length (if_data f) < if_pos f + nat n \<Longrightarrow> if_failed (snd (if_read n f))"
  by (auto simp: if_read_def Let_def)

lemma is_kernel_elf_ok:
  assumes "\<not> if_failed f" "4 \<le> length (if_data f)"
  shows "is_kernel_elf buf0 f = (take 4 (if_data f) = ELF_MAGIC, f)"
  using assms by (simp add: is_kernel_elf_def Let_def seekg_beg_def tellg_def if_read_def)

end
