(* ===== verification/GuestRam.thy ===== *)
theory GuestRam
  imports LvmmPrelude
begin

text \<open>
  Guest memory: the \<^verbatim>\<open>vm_conf.ram_size\<close> bytes that \<^verbatim>\<open>VM::allocGuestRAM\<close> maps at
  \<^verbatim>\<open>ram_start\<close>, addressed by guest-physical address. A store that leaves the mapping is a fault.
\<close>

record guest_ram =
  ram_size :: nat
  ram_byte :: "nat \<Rightarrow> u8"

text \<open>Anonymous memory is mapped zeroed.\<close>

definition new_ram :: "nat \<Rightarrow> guest_ram" where
  "new_ram n = \<lparr>ram_size = n, ram_byte = (\<lambda>_. 0)\<rparr>"

definition ram_store :: "nat \<Rightarrow> u8 list \<Rightarrow> guest_ram \<Rightarrow> fault + guest_ram" where
  "ram_store a bs m =
     (if a + length bs \<le> ram_size m then
        Inr (m\<lparr>ram_byte := (\<lambda>i. if a \<le> i \<and> i < a + length bs then bs ! (i - a) else ram_byte m i)\<rparr>)
      else Inl Out_Of_Bounds)"

definition ram_load :: "nat \<Rightarrow> nat \<Rightarrow> guest_ram \<Rightarrow> u8 list" where
  "ram_load a n m = map (ram_byte m) [a..<a + n]"

lemma length_ram_load [simp]: "length (ram_load a n m) = n"
  by (simp add: ram_load_def)

lemma ram_store_size: "ram_store a bs m = Inr m' \<Longrightarrow> ram_size m' = ram_size m"
  by (auto simp: ram_store_def split: if_splits)

lemma ram_store_ok_iff: "(\<exists>m'. ram_store a bs m = Inr m') \<longleftrightarrow> a + length bs \<le> ram_size m"
  by (simp add: ram_store_def)

lemma ram_store_fault: "ram_store a bs m = Inl e \<longleftrightarrow> e = Out_Of_Bounds \<and> ram_size m < a + length bs"
  by (auto simp: ram_store_def)

lemma ram_load_same: "ram_store a bs m = Inr m' \<Longrightarrow> ram_load a (length bs) m' = bs"
  by (auto simp: ram_store_def ram_load_def split: if_splits intro: nth_equalityI)

lemma ram_load_part:
  "ram_store a bs m = Inr m' \<Longrightarrow> k + n \<le> length bs \<Longrightarrow>
     ram_load (a + k) n m' = take n (drop k bs)"
  by (auto simp: ram_store_def ram_load_def split: if_splits intro!: nth_equalityI)

lemma ram_load_other:
  "ram_store a bs m = Inr m' \<Longrightarrow> b + n \<le> a \<or> a + length bs \<le> b \<Longrightarrow>
     ram_load b n m' = ram_load b n m"
  by (auto simp: ram_store_def ram_load_def split: if_splits)

lemma ram_store_Nil: "a \<le> ram_size m \<Longrightarrow> ram_store a [] m = Inr m"
  by (cases m) (auto simp: ram_store_def fun_eq_iff)

lemma ram_load_append: "ram_load a (m + n) r = ram_load a m r @ ram_load (a + m) n r"
  by (simp add: ram_load_def upt_add_eq_append [of a "a + m" n] flip: add.assoc)

section \<open>A sequence of stores\<close>

fun ram_store_all :: "(nat \<times> u8 list) list \<Rightarrow> guest_ram \<Rightarrow> fault + guest_ram" where
  "ram_store_all [] m = Inr m"
| "ram_store_all ((a, bs) # xs) m = chain (ram_store a bs m) (ram_store_all xs)"

text \<open>Two regions with no byte in common, and pairwise disjoint regions.\<close>

definition apart :: "nat \<times> nat \<Rightarrow> nat \<times> nat \<Rightarrow> bool" where
  "apart r s \<longleftrightarrow> fst r + snd r \<le> fst s \<or> fst s + snd s \<le> fst r"

definition region :: "nat \<times> u8 list \<Rightarrow> nat \<times> nat" where
  "region x = (fst x, length (snd x))"

fun all_apart :: "(nat \<times> u8 list) list \<Rightarrow> bool" where
  "all_apart [] = True"
| "all_apart (x # xs) \<longleftrightarrow> (\<forall>y \<in> set xs. apart (region x) (region y)) \<and> all_apart xs"

lemma ram_store_all_fits:
  "\<forall>(a, bs) \<in> set xs. a + length bs \<le> ram_size m \<Longrightarrow> \<exists>m'. ram_store_all xs m = Inr m'"
proof (induction xs arbitrary: m)
  case (Cons x xs)
  obtain a bs where x: "x = (a, bs)" by (cases x)
  then obtain m1 where m1: "ram_store a bs m = Inr m1"
    using Cons.prems ram_store_ok_iff [of a bs m] by auto
  have "\<exists>m'. ram_store_all xs m1 = Inr m'"
    using Cons ram_store_size [OF m1] by (intro Cons.IH) simp
  then show ?case by (simp add: x m1)
qed simp

lemma ram_store_all_size: "ram_store_all xs m = Inr m' \<Longrightarrow> ram_size m' = ram_size m"
proof (induction xs arbitrary: m)
  case (Cons x xs)
  obtain a bs where x: "x = (a, bs)" by (cases x)
  with Cons.prems obtain m1 where "ram_store a bs m = Inr m1" "ram_store_all xs m1 = Inr m'"
    by auto
  then show ?case using Cons.IH ram_store_size by metis
qed simp

lemma ram_store_all_other:
  "ram_store_all xs m = Inr m' \<Longrightarrow> \<forall>x \<in> set xs. apart (region x) (b, n) \<Longrightarrow>
     ram_load b n m' = ram_load b n m"
proof (induction xs arbitrary: m)
  case (Cons x xs)
  obtain a bs where x: "x = (a, bs)" by (cases x)
  with Cons.prems(1) obtain m1 where m1: "ram_store a bs m = Inr m1" "ram_store_all xs m1 = Inr m'"
    by auto
  have "ram_load b n m1 = ram_load b n m"
    using Cons.prems(2) by (intro ram_load_other [OF m1(1)]) (auto simp: x apart_def region_def)
  then show ?case using Cons.IH [OF m1(2)] Cons.prems(2) by simp
qed simp

text \<open>Two stores one behind the other are one store of both.\<close>

lemma ram_store_append:
  "chain (ram_store a xs m) (ram_store (a + length xs) ys) = ram_store a (xs @ ys) m"
  by (cases m) (auto simp: ram_store_def nth_append fun_eq_iff)

lemma ram_store_append_then:
  "chain (ram_store a xs m) (\<lambda>m1. chain (ram_store (a + length xs) ys m1) f)
     = chain (ram_store a (xs @ ys) m) f"
  by (simp add: chain_assoc flip: ram_store_append)

text \<open>Disjoint stores are all found in memory afterwards, whatever their order.\<close>

lemma ram_store_all_load:
  "ram_store_all xs m = Inr m' \<Longrightarrow> all_apart xs \<Longrightarrow> (a, bs) \<in> set xs \<Longrightarrow>
     ram_load a (length bs) m' = bs"
proof (induction xs arbitrary: m)
  case (Cons x xs)
  obtain b cs where x: "x = (b, cs)" by (cases x)
  with Cons.prems(1) obtain m1 where m1: "ram_store b cs m = Inr m1" "ram_store_all xs m1 = Inr m'"
    by auto
  show ?case
  proof (cases "(a, bs) = x")
    case True
    then have "ram_load a (length bs) m1 = bs" using ram_load_same m1(1) by (simp add: x)
    moreover have "\<forall>y \<in> set xs. apart (region y) (a, length bs)"
      using Cons.prems(2) True by (auto simp: apart_def region_def)
    ultimately show ?thesis using ram_store_all_other [OF m1(2)] by simp
  next
    case False
    then show ?thesis using Cons.IH [OF m1(2)] Cons.prems(2,3) by simp
  qed
qed simp

end
