(* ===== verification/BootParams.thy ===== *)
theory BootParams
  imports GuestRam BootConsts
begin

text \<open>
  The boot parameters of the Linux boot protocol (\<^verbatim>\<open>include/boot.hpp\<close>, \<^verbatim>\<open>src/boot.cpp\<close>): the
  setup header that is read out of the kernel image, the E820 memory map, and the page
  \<^verbatim>\<open>boot_params\<close> that is copied to the guest. All structures are packed: their images are the
  concatenation of the members in little-endian order.
\<close>

section \<open>The setup header\<close>

record setup_header =
  hd_setup_sects :: u8
  hd_root_flags :: u16
  hd_sys_size :: u32
  hd_ram_size :: u16
  hd_vid_mode :: u16
  hd_root_dev :: u16
  hd_boot_flag :: u16
  hd_jump :: u16
  hd_header :: u32
  hd_version :: u16
  hd_realmode_swtch :: u32
  hd_start_sys_seg :: u16
  hd_kernel_version :: u16
  hd_type_of_loader :: u8
  hd_loadflags :: u8
  hd_setup_move_size :: u16
  hd_code32_start :: u32
  hd_ramdisk_image :: u32
  hd_ramdisk_size :: u32
  hd_bootsect_kludge :: u32
  hd_heap_end_ptr :: u16
  hd_ext_loader_ver :: u8
  hd_ext_loader_type :: u8
  hd_cmd_line_ptr :: u32
  hd_initrd_addr_max :: u32
  hd_kernel_alignmnet :: u32
  hd_relocatable_kernel :: u8
  hd_min_alignment :: u8
  hd_xloadflags :: u16
  hd_cmdline_size :: u32
  hd_hardware_subarch :: u32
  hd_hardware_subarch_data :: u64
  hd_paylopad_offset :: u32
  hd_payload_length :: u32
  hd_setup_data :: u64
  hd_pref_address :: u64
  hd_init_size :: u32
  hd_handover_offset :: u32
  hd_kernel_info_offset :: u32

definition setup_header_new :: setup_header where
  "setup_header_new = \<lparr>
     hd_setup_sects = 0, hd_root_flags = 0, hd_sys_size = 0, hd_ram_size = 0, hd_vid_mode = 0,
     hd_root_dev = 0, hd_boot_flag = 0, hd_jump = 0, hd_header = 0, hd_version = 0,
     hd_realmode_swtch = 0, hd_start_sys_seg = 0, hd_kernel_version = 0, hd_type_of_loader = 0,
     hd_loadflags = 0, hd_setup_move_size = 0, hd_code32_start = 0, hd_ramdisk_image = 0,
     hd_ramdisk_size = 0, hd_bootsect_kludge = 0, hd_heap_end_ptr = 0, hd_ext_loader_ver = 0,
     hd_ext_loader_type = 0, hd_cmd_line_ptr = 0, hd_initrd_addr_max = 0,
     hd_kernel_alignmnet = 0, hd_relocatable_kernel = 0, hd_min_alignment = 0,
     hd_xloadflags = 0, hd_cmdline_size = 0, hd_hardware_subarch = 0,
     hd_hardware_subarch_data = 0, hd_paylopad_offset = 0, hd_payload_length = 0,
     hd_setup_data = 0, hd_pref_address = 0, hd_init_size = 0, hd_handover_offset = 0,
     hd_kernel_info_offset = 0\<rparr>"

abbreviation (input) sizeof_setup_header :: nat where "sizeof_setup_header \<equiv> 123"

definition setup_header_bytes :: "setup_header \<Rightarrow> u8 list" where
  "setup_header_bytes h =
     le_bytes 1 (hd_setup_sects h) @ le_bytes 2 (hd_root_flags h) @
     le_bytes 4 (hd_sys_size h) @ le_bytes 2 (hd_ram_size h) @ le_bytes 2 (hd_vid_mode h) @
     le_bytes 2 (hd_root_dev h) @ le_bytes 2 (hd_boot_flag h) @ le_bytes 2 (hd_jump h) @
     le_bytes 4 (hd_header h) @ le_bytes 2 (hd_version h) @ le_bytes 4 (hd_realmode_swtch h) @
     le_bytes 2 (hd_start_sys_seg h) @ le_bytes 2 (hd_kernel_version h) @
     le_bytes 1 (hd_type_of_loader h) @ le_bytes 1 (hd_loadflags h) @
     le_bytes 2 (hd_setup_move_size h) @ le_bytes 4 (hd_code32_start h) @
     le_bytes 4 (hd_ramdisk_image h) @ le_bytes 4 (hd_ramdisk_size h) @
     le_bytes 4 (hd_bootsect_kludge h) @ le_bytes 2 (hd_heap_end_ptr h) @
     le_bytes 1 (hd_ext_loader_ver h) @ le_bytes 1 (hd_ext_loader_type h) @
     le_bytes 4 (hd_cmd_line_ptr h) @ le_bytes 4 (hd_initrd_addr_max h) @
     le_bytes 4 (hd_kernel_alignmnet h) @ le_bytes 1 (hd_relocatable_kernel h) @
     le_bytes 1 (hd_min_alignment h) @ le_bytes 2 (hd_xloadflags h) @
     le_bytes 4 (hd_cmdline_size h) @ le_bytes 4 (hd_hardware_subarch h) @
     le_bytes 8 (hd_hardware_subarch_data h) @ le_bytes 4 (hd_paylopad_offset h) @
     le_bytes 4 (hd_payload_length h) @ le_bytes 8 (hd_setup_data h) @
     le_bytes 8 (hd_pref_address h) @ le_bytes 4 (hd_init_size h) @
     le_bytes 4 (hd_handover_offset h) @ le_bytes 4 (hd_kernel_info_offset h)"

text \<open>The members as they are found in the bytes read into the structure.\<close>

definition setup_header_of :: "u8 list \<Rightarrow> setup_header" where
  "setup_header_of bs =
     (let
          (v0, b0) = take_le 1 bs; (v1, b1) = take_le 2 b0; (v2, b2) = take_le 4 b1;
          (v3, b3) = take_le 2 b2; (v4, b4) = take_le 2 b3; (v5, b5) = take_le 2 b4;
          (v6, b6) = take_le 2 b5; (v7, b7) = take_le 2 b6; (v8, b8) = take_le 4 b7;
          (v9, b9) = take_le 2 b8; (v10, b10) = take_le 4 b9; (v11, b11) = take_le 2 b10;
          (v12, b12) = take_le 2 b11; (v13, b13) = take_le 1 b12; (v14, b14) = take_le 1 b13;
          (v15, b15) = take_le 2 b14; (v16, b16) = take_le 4 b15; (v17, b17) = take_le 4 b16;
          (v18, b18) = take_le 4 b17; (v19, b19) = take_le 4 b18; (v20, b20) = take_le 2 b19;
          (v21, b21) = take_le 1 b20; (v22, b22) = take_le 1 b21; (v23, b23) = take_le 4 b22;
          (v24, b24) = take_le 4 b23; (v25, b25) = take_le 4 b24; (v26, b26) = take_le 1 b25;
          (v27, b27) = take_le 1 b26; (v28, b28) = take_le 2 b27; (v29, b29) = take_le 4 b28;
          (v30, b30) = take_le 4 b29; (v31, b31) = take_le 8 b30; (v32, b32) = take_le 4 b31;
          (v33, b33) = take_le 4 b32; (v34, b34) = take_le 8 b33; (v35, b35) = take_le 8 b34;
          (v36, b36) = take_le 4 b35; (v37, b37) = take_le 4 b36; (v38, b38) = take_le 4 b37
      in \<lparr>
      hd_setup_sects = v0, hd_root_flags = v1, hd_sys_size = v2, hd_ram_size = v3,
      hd_vid_mode = v4, hd_root_dev = v5, hd_boot_flag = v6, hd_jump = v7, hd_header = v8,
      hd_version = v9, hd_realmode_swtch = v10, hd_start_sys_seg = v11,
      hd_kernel_version = v12, hd_type_of_loader = v13, hd_loadflags = v14,
      hd_setup_move_size = v15, hd_code32_start = v16, hd_ramdisk_image = v17,
      hd_ramdisk_size = v18, hd_bootsect_kludge = v19, hd_heap_end_ptr = v20,
      hd_ext_loader_ver = v21, hd_ext_loader_type = v22, hd_cmd_line_ptr = v23,
      hd_initrd_addr_max = v24, hd_kernel_alignmnet = v25, hd_relocatable_kernel = v26,
      hd_min_alignment = v27, hd_xloadflags = v28, hd_cmdline_size = v29,
      hd_hardware_subarch = v30, hd_hardware_subarch_data = v31, hd_paylopad_offset = v32,
      hd_payload_length = v33, hd_setup_data = v34, hd_pref_address = v35, hd_init_size = v36,
      hd_handover_offset = v37, hd_kernel_info_offset = v38\<rparr>)"

definition header_is_valid :: "setup_header \<Rightarrow> int" where
  "header_is_valid h = (if hd_header h = BOOT_HDR_MAGIC then 1 else 0)"

definition check_setup_sects :: "setup_header \<Rightarrow> int \<times> setup_header" where
  "check_setup_sects h =
     (if hd_setup_sects h = 0 then (1, h\<lparr>hd_setup_sects := 4\<rparr>) else (0, h))"

section \<open>The boot parameters\<close>

record e820entry =
  e8_addr :: u64
  e8_size :: u64
  e8_type :: u32

record boot_params =
  bp_padding0 :: "u8 list"
  bp_e820_entries :: u8
  bp_edd_buf_entries :: u8
  bp_edd_mbr_sig_buf_entries :: u8
  bp_kbd_status :: u8
  bp_padding1 :: "u8 list"
  bp_header :: setup_header
  bp_padding2 :: "u8 list"
  bp_edd_mbr_sig_buf :: "u32 list"
  bp_e820map :: "e820entry list"

definition boot_params_new :: boot_params where
  "boot_params_new = \<lparr>bp_padding0 = replicate 0x1E8 0, bp_e820_entries = 0, bp_edd_buf_entries = 0,
     bp_edd_mbr_sig_buf_entries = 0, bp_kbd_status = 0, bp_padding1 = replicate 0x5 0,
     bp_header = setup_header_new,
     bp_padding2 = replicate (0x290 - 0x1F1 - sizeof_setup_header) 0,
     bp_edd_mbr_sig_buf = replicate (unat BOOT_EDD_MBR_SIG_MAX) 0,
     bp_e820map = replicate (unat BOOT_E820_MAP_MAX) \<lparr>e8_addr = 0, e8_size = 0, e8_type = 0\<rparr>\<rparr>"

definition e820entry_bytes :: "e820entry \<Rightarrow> u8 list" where
  "e820entry_bytes e = le_bytes 8 (e8_addr e) @ le_bytes 8 (e8_size e) @ le_bytes 4 (e8_type e)"

definition boot_params_bytes :: "boot_params \<Rightarrow> u8 list" where
  "boot_params_bytes bp =
     bp_padding0 bp @ [bp_e820_entries bp, bp_edd_buf_entries bp, bp_edd_mbr_sig_buf_entries bp,
       bp_kbd_status bp] @ bp_padding1 bp @ setup_header_bytes (bp_header bp) @ bp_padding2 bp
     @ concat (map (le_bytes 4) (bp_edd_mbr_sig_buf bp))
     @ concat (map e820entry_bytes (bp_e820map bp))"

definition increment_e820_entry :: "boot_params \<Rightarrow> boot_params" where
  "increment_e820_entry bp = bp\<lparr>bp_e820_entries := bp_e820_entries bp + 1\<rparr>"

text \<open>The index is not checked in the source: past the array the store is a fault.\<close>

definition add_e820_entry :: "u64 \<Rightarrow> u64 \<Rightarrow> u32 \<Rightarrow> boot_params \<Rightarrow> fault + boot_params" where
  "add_e820_entry addr sz ty bp =
     (let i = unat (bp_e820_entries bp) in
      if i < length (bp_e820map bp) then
        Inr (increment_e820_entry
          (bp\<lparr>bp_e820map := (bp_e820map bp)[i := \<lparr>e8_addr = addr, e8_size = sz, e8_type = ty\<rparr>]\<rparr>))
      else Inl Out_Of_Bounds)"

section \<open>The images\<close>

lemma length_setup_header_bytes [simp]: "length (setup_header_bytes h) = 123"
  by (simp add: setup_header_bytes_def)

lemma take_le_u8: "take_le (Suc 0) ((b :: u8) # bs) = (b, bs)"
  by (simp add: take_le_def)

lemma setup_header_of_bytes: "setup_header_of (setup_header_bytes h) = h"
  by (cases h) (simp add: setup_header_of_def setup_header_bytes_def take_le_fields take_le_u8
      take_le_fields(3-5) [where rest = "[]", simplified])

text \<open>Conversely, no byte of the header is lost: writing back what was read gives the bytes.\<close>

lemma le_bytes_field:
  "LENGTH('a::len) = 8 * n \<Longrightarrow> k + n \<le> length bs \<Longrightarrow>
     le_bytes n (of_le (take n (drop k bs)) :: 'a word) = take n (drop k bs)"
  by (intro le_bytes_of_le) simp_all

lemmas le_bytes_fields =
  le_bytes_field [where 'a = 8 and n = "Suc 0"]
  le_bytes_field [where 'a = 8 and n = "Suc 0" and k = 0, unfolded drop_0]
  le_bytes_field [where 'a = 16 and n = 2, simplified]
  le_bytes_field [where 'a = 32 and n = 4, simplified]
  le_bytes_field [where 'a = 64 and n = 8, simplified]

lemma take_drop_fold: "k + n = m \<Longrightarrow> take n (drop k bs) @ drop m bs = drop k bs"
  by (metis append_take_drop_id drop_drop add.commute)

lemma setup_header_bytes_of:
  assumes "length bs = 123"
  shows "setup_header_bytes (setup_header_of bs) = bs"
proof -
  have "le_bytes 4 (of_le (drop 119 bs) :: u32) = drop 119 bs"
    using assms by (intro le_bytes_of_le) simp_all
  moreover have "take (Suc 0) bs @ drop (Suc 0) bs = bs" by simp
  ultimately show ?thesis
    using assms
    by (simp add: setup_header_of_def setup_header_bytes_def take_le_def le_bytes_fields
        take_drop_fold del: le_bytes_u8)
qed

section \<open>The layout of the page\<close>

definition boot_params_wf :: "boot_params \<Rightarrow> bool" where
  "boot_params_wf bp \<longleftrightarrow> length (bp_padding0 bp) = 0x1E8 \<and> length (bp_padding1 bp) = 5
     \<and> length (bp_padding2 bp) = 36 \<and> length (bp_edd_mbr_sig_buf bp) = 16
     \<and> length (bp_e820map bp) = 128"

lemma boot_params_wf_new: "boot_params_wf boot_params_new"
  by (simp add: boot_params_wf_def boot_params_new_def)

lemma length_e820entry_bytes [simp]: "length (e820entry_bytes e) = 20"
  by (simp add: e820entry_bytes_def)

lemma length_concat_same: "(\<And>x. length (f x) = n) \<Longrightarrow> length (concat (map f xs)) = n * length xs"
  by (induction xs) simp_all

lemma take_drop_concat_same:
  "(\<And>x. length (f x) = n) \<Longrightarrow> i < length xs \<Longrightarrow>
     take n (drop (n * i) (concat (map f xs))) = f (xs ! i)"
proof (induction xs arbitrary: i)
  case (Cons x xs)
  then show ?case by (cases i) (simp_all add: drop_append)
qed simp

lemma boot_params_layout:
  assumes "boot_params_wf bp"
  shows "length (boot_params_bytes bp) = 3280"
    and "boot_params_bytes bp ! 0x1E8 = bp_e820_entries bp"
    and "take 123 (drop 0x1F1 (boot_params_bytes bp)) = setup_header_bytes (bp_header bp)"
    and "i < 128 \<Longrightarrow>
      take 20 (drop (0x2D0 + 20 * i) (boot_params_bytes bp)) = e820entry_bytes (bp_e820map bp ! i)"
proof -
  have edd: "length (concat (map (le_bytes 4) (bp_edd_mbr_sig_buf bp))) = 64"
    using assms length_concat_same [of "le_bytes 4 :: u32 \<Rightarrow> u8 list" 4] by (simp add: boot_params_wf_def)
  have e820: "length (concat (map e820entry_bytes (bp_e820map bp))) = 2560"
    using assms length_concat_same [of e820entry_bytes 20] by (simp add: boot_params_wf_def)
  note l = assms [unfolded boot_params_wf_def] edd e820
  show "length (boot_params_bytes bp) = 3280"
    using l by (simp add: boot_params_bytes_def)
  show "boot_params_bytes bp ! 0x1E8 = bp_e820_entries bp"
    using l by (simp add: boot_params_bytes_def nth_append)
  show "take 123 (drop 0x1F1 (boot_params_bytes bp)) = setup_header_bytes (bp_header bp)"
    using l by (simp add: boot_params_bytes_def)
  show "take 20 (drop (0x2D0 + 20 * i) (boot_params_bytes bp)) = e820entry_bytes (bp_e820map bp ! i)"
    if "i < 128"
  proof -
    have "drop (0x2D0 + 20 * i) (boot_params_bytes bp)
        = drop (20 * i) (drop 0x2D0 (boot_params_bytes bp))"
      by (simp add: add.commute)
    also have "drop 0x2D0 (boot_params_bytes bp) = concat (map e820entry_bytes (bp_e820map bp))"
      using l by (simp add: boot_params_bytes_def)
    finally show ?thesis
      using take_drop_concat_same [of e820entry_bytes 20 i "bp_e820map bp"] that l by simp
  qed
qed

section \<open>The memory map\<close>

text \<open>A sequence of additions.\<close>

fun add_e820_all :: "(u64 \<times> u64 \<times> u32) list \<Rightarrow> boot_params \<Rightarrow> fault + boot_params" where
  "add_e820_all [] bp = Inr bp"
| "add_e820_all ((a, sz, ty) # xs) bp = chain (add_e820_entry a sz ty bp) (add_e820_all xs)"

definition e820_of :: "u64 \<times> u64 \<times> u32 \<Rightarrow> e820entry" where
  "e820_of x = (case x of (a, sz, ty) \<Rightarrow> \<lparr>e8_addr = a, e8_size = sz, e8_type = ty\<rparr>)"

text \<open>The entries in use.\<close>

definition e820_map :: "boot_params \<Rightarrow> e820entry list" where
  "e820_map bp = take (unat (bp_e820_entries bp)) (bp_e820map bp)"

lemma add_e820_entry_cases:
  assumes "boot_params_wf bp"
  shows "if unat (bp_e820_entries bp) < 128
    then (\<exists>bp'. add_e820_entry a sz ty bp = Inr bp' \<and> boot_params_wf bp'
            \<and> bp_header bp' = bp_header bp
            \<and> unat (bp_e820_entries bp') = Suc (unat (bp_e820_entries bp))
            \<and> e820_map bp' = e820_map bp @ [e820_of (a, sz, ty)])
    else add_e820_entry a sz ty bp = Inl Out_Of_Bounds"
proof (cases "unat (bp_e820_entries bp) < 128")
  case True
  then have "unat (bp_e820_entries bp + 1) = Suc (unat (bp_e820_entries bp))"
    by (intro unat_inc_below [of _ 128]) (simp add: word_less_nat_alt)
  with True show ?thesis
    using assms
    by (simp add: add_e820_entry_def increment_e820_entry_def boot_params_wf_def e820_map_def
        e820_of_def take_Suc_conv_app_nth)
next
  case False
  with assms show ?thesis by (simp add: add_e820_entry_def boot_params_wf_def)
qed

lemma add_e820_all_cases:
  assumes "boot_params_wf bp" "unat (bp_e820_entries bp) \<le> 128"
  shows "if unat (bp_e820_entries bp) + length xs \<le> 128
    then (\<exists>bp'. add_e820_all xs bp = Inr bp' \<and> boot_params_wf bp' \<and> bp_header bp' = bp_header bp
            \<and> unat (bp_e820_entries bp') = unat (bp_e820_entries bp) + length xs
            \<and> e820_map bp' = e820_map bp @ map e820_of xs)
    else add_e820_all xs bp = Inl Out_Of_Bounds"
  using assms
proof (induction xs arbitrary: bp)
  case (Cons x xs)
  obtain a sz ty where x: "x = (a, sz, ty)" by (cases x)
  show ?case
  proof (cases "unat (bp_e820_entries bp) < 128")
    case True
    then obtain bp1 where bp1: "add_e820_entry a sz ty bp = Inr bp1" "boot_params_wf bp1"
      "bp_header bp1 = bp_header bp" "unat (bp_e820_entries bp1) = Suc (unat (bp_e820_entries bp))"
      "e820_map bp1 = e820_map bp @ [e820_of (a, sz, ty)]"
      using add_e820_entry_cases [OF Cons.prems(1), of a sz ty] by auto
    then show ?thesis using Cons.IH [of bp1] True by (auto simp: x split: if_splits)
  next
    case False
    then show ?thesis using add_e820_entry_cases [OF Cons.prems(1), of a sz ty] by (simp add: x)
  qed
qed simp

section \<open>Properties\<close>

text \<open>The memory map holds 128 entries and no more: adding up to 128 of them to fresh boot
  parameters stores exactly them, in order, and counts them; one more writes past the array.\<close>

lemma e820_map_capacity:
  "if length xs \<le> 128
   then (\<exists>bp. add_e820_all xs boot_params_new = Inr bp \<and> e820_map bp = map e820_of xs
           \<and> unat (bp_e820_entries bp) = length xs \<and> bp_header bp = setup_header_new)
   else add_e820_all xs boot_params_new = Inl Out_Of_Bounds"
proof -
  have "bp_e820_entries boot_params_new = 0" "e820_map boot_params_new = []"
    "bp_header boot_params_new = setup_header_new"
    by (simp_all add: boot_params_new_def e820_map_def)
  then show ?thesis
    using add_e820_all_cases [OF boot_params_wf_new, of xs] by (auto split: if_splits)
qed

end
