(* ===== verification/Checksum.thy ===== *)
theory Checksum
  imports LvmmPrelude
begin

text \<open>
  The byte checksum of the MultiProcessor tables (\<^verbatim>\<open>src/boot.cpp\<close>, the templates of
  \<^verbatim>\<open>include/boot.hpp\<close>). The template parameter ranges over the structures that have a byte
  image and a checksum member; the locale \<open>checksummed\<close> is that requirement, and theory
  \<open>MpTable\<close> interprets it for both instances of the source.
\<close>

section \<open>The checksum of a byte string\<close>

text \<open>\<^verbatim>\<open>for (i = 0; i < length; ++i) checksum += *byteptr_mp++\<close>.\<close>

fun mp_calc_checksum_inline :: "u8 list \<Rightarrow> nat \<Rightarrow> u8 \<Rightarrow> u8" where
  "mp_calc_checksum_inline bs 0 checksum = checksum"
| "mp_calc_checksum_inline [] (Suc n) checksum = checksum"
| "mp_calc_checksum_inline (b # bs) (Suc n) checksum = mp_calc_checksum_inline bs n (checksum + b)"

lemma mp_calc_checksum_inline_eq:
  "mp_calc_checksum_inline bs n c = c + sum_list (take n bs)"
  by (induction bs n c rule: mp_calc_checksum_inline.induct) (simp_all add: add.assoc)

text \<open>\<^verbatim>\<open>(mp_calc_checksum(mpptr) ^ 0xFF) + 0x1\<close> and \<^verbatim>\<open>!mp_calc_checksum(mpptr)\<close>.\<close>

definition mp_gen_checksum :: "u8 \<Rightarrow> u8" where
  "mp_gen_checksum calc = (calc XOR 0xFF) + 0x1"

definition is_mp_checksum_valid :: "u8 \<Rightarrow> bool" where
  "is_mp_checksum_valid calc \<longleftrightarrow> calc = 0"

lemma mp_gen_checksum_neg: "mp_gen_checksum c = - c"
proof -
  have "(0xFF :: u8) = - 1" by simp
  then have "c XOR 0xFF = NOT c" by (metis bit.xor_one_right)
  then show ?thesis by (simp add: mp_gen_checksum_def minus_eq_not_plus_1)
qed

section \<open>Structures with a checksum member\<close>

locale checksummed =
  fixes wf :: "'t \<Rightarrow> bool"
    and image :: "'t \<Rightarrow> u8 list"
    and checksum_of :: "'t \<Rightarrow> u8"
    and set_checksum :: "u8 \<Rightarrow> 't \<Rightarrow> 't"
    and pos :: nat
    and len :: nat
  assumes image_length: "wf t \<Longrightarrow> length (image t) = len"
    and pos_inside: "pos < len"
    and checksum_at: "wf t \<Longrightarrow> image t ! pos = checksum_of t"
    and image_set: "wf t \<Longrightarrow> image (set_checksum c t) = (image t)[pos := c]"
    and wf_set: "wf t \<Longrightarrow> wf (set_checksum c t)"
begin

text \<open>The checksum of the structure, over its whole image.\<close>

definition calc :: "'t \<Rightarrow> u8" where
  "calc t = mp_calc_checksum_inline (image t) len 0"

lemma calc_sum: "wf t \<Longrightarrow> calc t = sum_list (image t)"
  by (simp add: calc_def mp_calc_checksum_inline_eq image_length)

lemma sealed_valid:
  "wf t \<Longrightarrow> checksum_of t = 0 \<Longrightarrow>
     is_mp_checksum_valid (calc (set_checksum (mp_gen_checksum (calc t)) t))"
  using sum_list_upd_u8 [of pos "image t" "mp_gen_checksum (calc t)"] pos_inside
  by (simp add: calc_sum image_set image_length checksum_at wf_set is_mp_checksum_valid_def
      mp_gen_checksum_neg)

text \<open>A valid image with one byte changed is not valid.\<close>

lemma corruption_detected:
  assumes "wf t" "is_mp_checksum_valid (calc t)" "i < len" "v \<noteq> image t ! i"
  shows "\<not> is_mp_checksum_valid (mp_calc_checksum_inline ((image t)[i := v]) len 0)"
proof -
  have "sum_list ((image t)[i := v]) = v - image t ! i"
    using sum_list_upd_u8 [of i "image t" v] assms(1-3)
    by (simp add: image_length calc_sum is_mp_checksum_valid_def)
  then show ?thesis
    using assms(1,4) by (simp add: mp_calc_checksum_inline_eq image_length is_mp_checksum_valid_def)
qed

end

end
