(* ===== verification/MpTable.thy ===== *)
theory MpTable
  imports Checksum BootConsts
begin

text \<open>
  The MultiProcessor tables in the extended BIOS data area (\<^verbatim>\<open>include/boot.hpp\<close>,
  \<^verbatim>\<open>src/boot.cpp\<close>): the floating pointer structure, the configuration table with its processor
  entries, and \<^verbatim>\<open>gen_ebda\<close>, which fills and seals them. The structures are packed; their
  images are the concatenation of their members in little-endian order.
\<close>

section \<open>Structures and images\<close>

record mpfps =
  fps_signature :: u32
  fps_phys_addr_ptr :: u32
  fps_length :: u8
  fps_spec_rev :: u8
  fps_checksum :: u8
  fps_feat_info_byte_1 :: u8
  fps_feat_info_byte_2 :: u8
  fps_feat_info_byte_3 :: u8
  fps_feat_info_byte_4 :: u8
  fps_feat_info_byte_5 :: u8

record mpctable_processor_entry =
  pe_entry_type :: u8
  pe_local_apic_id :: u8
  pe_local_apic_ver :: u8
  pe_cpu_flags :: u8
  pe_cpu_sig :: u32
  pe_feat_flags :: u32
  pe_reserved :: u64

record mpctable =
  ct_signature :: u32
  ct_length :: u16
  ct_spec_rev :: u8
  ct_checksum :: u8
  ct_oem_id :: u64
  ct_prod_id :: "u8 list"
  ct_oem_table_ptr :: u32
  ct_oem_table_size :: u16
  ct_entry_count :: u16
  ct_addr_local_apic :: u32
  ct_extd_table_length :: u16
  ct_extd_table_checksum :: u8
  ct_reserved :: u8
  ct_processor_entry :: "mpctable_processor_entry list"

record ebda =
  eb_padding :: "u8 list"
  eb_fps :: mpfps
  eb_ctable :: mpctable

text \<open>The initial values of the members; \<open>p\<close> is the uninitialised \<^verbatim>\<open>phys_addr_ptr\<close>.\<close>

definition mpfps_new :: "u32 \<Rightarrow> mpfps" where
  "mpfps_new p = \<lparr>fps_signature = MPFPS_INTEL_SIGNATURE, fps_phys_addr_ptr = p,
     fps_length = MPFPS_LENGTH, fps_spec_rev = MPFPS_SPEC_REV_1_4, fps_checksum = 0,
     fps_feat_info_byte_1 = MPFPS_FEAT_CTPRESENT, fps_feat_info_byte_2 = MPFPS_FEAT_VIRTWIRE,
     fps_feat_info_byte_3 = 0, fps_feat_info_byte_4 = 0, fps_feat_info_byte_5 = 0\<rparr>"

definition processor_entry_new :: mpctable_processor_entry where
  "processor_entry_new = \<lparr>pe_entry_type = 0, pe_local_apic_id = 0, pe_local_apic_ver = 0,
     pe_cpu_flags = 0, pe_cpu_sig = 0, pe_feat_flags = 0, pe_reserved = 0\<rparr>"

text \<open>\<^verbatim>\<open>sizeof(mpctable)\<close>: 44 bytes of header and 32 entries of 20 bytes.\<close>

abbreviation (input) sizeof_mpctable :: nat where "sizeof_mpctable \<equiv> 684"

definition mpctable_new :: mpctable where
  "mpctable_new = \<lparr>ct_signature = MPCTABLE_INTEL_SIGNATURE, ct_length = of_nat sizeof_mpctable,
     ct_spec_rev = MPCTABLE_SPEC_REV_1_4, ct_checksum = 0, ct_oem_id = MPCTABLE_OEM_ID,
     ct_prod_id = replicate 12 0, ct_oem_table_ptr = 0, ct_oem_table_size = 0,
     ct_entry_count = of_nat MP_MAX_VCPU_NUM, ct_addr_local_apic = ucast APIC_BASE,
     ct_extd_table_length = 0, ct_extd_table_checksum = 0, ct_reserved = 0,
     ct_processor_entry = replicate MP_MAX_VCPU_NUM processor_entry_new\<rparr>"

definition ebda_new :: "u32 \<Rightarrow> ebda" where
  "ebda_new p = \<lparr>eb_padding = replicate EBDA_PADDING_SIZE 0, eb_fps = mpfps_new p,
     eb_ctable = mpctable_new\<rparr>"

definition mpfps_bytes :: "mpfps \<Rightarrow> u8 list" where
  "mpfps_bytes f =
     le_bytes 4 (fps_signature f) @ le_bytes 4 (fps_phys_addr_ptr f)
       @ [fps_length f, fps_spec_rev f, fps_checksum f, fps_feat_info_byte_1 f,
          fps_feat_info_byte_2 f, fps_feat_info_byte_3 f, fps_feat_info_byte_4 f,
          fps_feat_info_byte_5 f]"

definition processor_entry_bytes :: "mpctable_processor_entry \<Rightarrow> u8 list" where
  "processor_entry_bytes e =
     [pe_entry_type e, pe_local_apic_id e, pe_local_apic_ver e, pe_cpu_flags e]
       @ le_bytes 4 (pe_cpu_sig e) @ le_bytes 4 (pe_feat_flags e) @ le_bytes 8 (pe_reserved e)"

definition mpctable_bytes :: "mpctable \<Rightarrow> u8 list" where
  "mpctable_bytes t =
     le_bytes 4 (ct_signature t) @ le_bytes 2 (ct_length t) @ [ct_spec_rev t, ct_checksum t]
       @ le_bytes 8 (ct_oem_id t) @ ct_prod_id t @ le_bytes 4 (ct_oem_table_ptr t)
       @ le_bytes 2 (ct_oem_table_size t) @ le_bytes 2 (ct_entry_count t)
       @ le_bytes 4 (ct_addr_local_apic t) @ le_bytes 2 (ct_extd_table_length t)
       @ [ct_extd_table_checksum t, ct_reserved t]
       @ concat (map processor_entry_bytes (ct_processor_entry t))"

definition ebda_bytes :: "ebda \<Rightarrow> u8 list" where
  "ebda_bytes e = eb_padding e @ mpfps_bytes (eb_fps e) @ mpctable_bytes (eb_ctable e)"

section \<open>The checksums\<close>

definition mp_calc_checksum_fps :: "mpfps \<Rightarrow> u8" where
  "mp_calc_checksum_fps f =
     mp_calc_checksum_inline (mpfps_bytes f) (unat MPFPS_LENGTH * PARAGRAPH_SIZE) 0"

definition mp_calc_checksum_ctable :: "mpctable \<Rightarrow> u8" where
  "mp_calc_checksum_ctable t = mp_calc_checksum_inline (mpctable_bytes t) sizeof_mpctable 0"

section \<open>Filling the tables\<close>

text \<open>The body of the loop of \<^verbatim>\<open>processor_entry_init\<close>.\<close>

definition init_processor :: "nat \<Rightarrow> mpctable_processor_entry \<Rightarrow> mpctable_processor_entry" where
  "init_processor i e = e\<lparr>
     pe_entry_type := MPCTE_ENTRY_TYPE_PROC,
     pe_local_apic_id := of_nat i,
     pe_local_apic_ver := MPCTE_PROC_APIC_VER,
     pe_cpu_flags := pe_cpu_flags e OR MPCTE_PROC_CPUFLAGS_EN
                       OR (if i = 0 then MPCTE_PROC_CPUFLAGS_BP else 0),
     pe_cpu_sig := MPCTE_PROC_CPUSIGNATURE,
     pe_feat_flags := MPCTE_PROC_FEATFLAGS_FPU OR MPCTE_PROC_FEATFLAGS_APIC\<rparr>"

text \<open>The loop from index \<open>i\<close> with \<open>n\<close> iterations left; the array has 32 entries.\<close>

primrec processor_entry_init ::
  "nat \<Rightarrow> nat \<Rightarrow> mpctable_processor_entry list \<Rightarrow> fault + mpctable_processor_entry list" where
  "processor_entry_init 0 i es = Inr es"
| "processor_entry_init (Suc n) i es =
     (if i < length es then processor_entry_init n (Suc i) (es[i := init_processor i (es ! i)])
      else Inl Out_Of_Bounds)"

definition gen_ebda :: "int \<Rightarrow> u32 \<Rightarrow> fault + ebda" where
  "gen_ebda vcpu_num p =
     (let e0 = ebda_new p;
          fps1 = (eb_fps e0)\<lparr>fps_phys_addr_ptr := ucast EBDA_START + 0x40\<rparr>;
          fps2 = fps1\<lparr>fps_checksum := mp_gen_checksum (mp_calc_checksum_fps fps1)\<rparr>
      in chain (processor_entry_init (nat vcpu_num) 0 (ct_processor_entry (eb_ctable e0))) (\<lambda>es.
           let ct1 = (eb_ctable e0)\<lparr>ct_processor_entry := es\<rparr>;
               ct2 = ct1\<lparr>ct_checksum := mp_gen_checksum (mp_calc_checksum_ctable ct1)\<rparr>
           in Inr (e0\<lparr>eb_fps := fps2, eb_ctable := ct2\<rparr>)))"

section \<open>The images\<close>

definition mpctable_wf :: "mpctable \<Rightarrow> bool" where
  "mpctable_wf t \<longleftrightarrow> length (ct_prod_id t) = 12 \<and> length (ct_processor_entry t) = MP_MAX_VCPU_NUM"

lemma length_mpfps_bytes [simp]: "length (mpfps_bytes f) = 16"
  by (simp add: mpfps_bytes_def)

lemma length_processor_entry_bytes [simp]: "length (processor_entry_bytes e) = 20"
  by (simp add: processor_entry_bytes_def)

lemma length_entries_bytes: "length (concat (map processor_entry_bytes es)) = 20 * length es"
  by (induction es) simp_all

lemma length_mpctable_bytes: "mpctable_wf t \<Longrightarrow> length (mpctable_bytes t) = 684"
  by (simp add: mpctable_bytes_def mpctable_wf_def length_entries_bytes)

lemma le_bytes_2: "le_bytes 2 w = [ucast w, ucast (drop_bit 8 w)]"
  by (simp add: le_bytes_def upt_rec)

lemma le_bytes_4:
  "le_bytes 4 w = [ucast w, ucast (drop_bit 8 w), ucast (drop_bit 16 w), ucast (drop_bit 24 w)]"
  by (simp add: le_bytes_def upt_rec)

interpretation fps: checksummed "\<lambda>_. True" mpfps_bytes fps_checksum
    "\<lambda>c f. f\<lparr>fps_checksum := c\<rparr>" 10 16
  by unfold_locales (simp_all add: mpfps_bytes_def le_bytes_4)

interpretation ctable: checksummed mpctable_wf mpctable_bytes ct_checksum
    "\<lambda>c t. t\<lparr>ct_checksum := c\<rparr>" 7 684
  by unfold_locales
    (simp_all add: length_mpctable_bytes mpctable_wf_def, simp_all add: mpctable_bytes_def le_bytes_4 le_bytes_2)

lemma calc_fps: "mp_calc_checksum_fps f = fps.calc f"
  by (simp add: mp_calc_checksum_fps_def fps.calc_def)

lemma calc_ctable: "mp_calc_checksum_ctable t = ctable.calc t"
  by (simp add: mp_calc_checksum_ctable_def ctable.calc_def)

section \<open>The processor entries\<close>

lemma processor_entry_init_eq:
  "processor_entry_init n i es =
     (if i + n \<le> length es then
        Inr (take i es @ map (\<lambda>j. init_processor j (es ! j)) [i..<i + n] @ drop (i + n) es)
      else if n = 0 then Inr es else Inl Out_Of_Bounds)"
proof (induction n arbitrary: i es)
  case 0
  then show ?case by simp
next
  case (Suc n)
  show ?case
  proof (cases "i < length es")
    case True
    let ?es = "es[i := init_processor i (es ! i)]"
    have "take (Suc i) ?es = take i es @ [init_processor i (es ! i)]"
      using True by (simp add: take_Suc_conv_app_nth)
    moreover have "[i..<i + Suc n] = i # [Suc i..<Suc i + n]" by (simp add: upt_rec)
    moreover have "map (\<lambda>j. init_processor j (?es ! j)) [Suc i..<Suc i + n]
        = map (\<lambda>j. init_processor j (es ! j)) [Suc i..<Suc i + n]"
      by (rule map_cong) auto
    ultimately show ?thesis using True Suc.IH [of "Suc i" ?es] by simp
  next
    case False
    then show ?thesis by simp
  qed
qed

lemma processor_entry_init_new:
  assumes "n \<le> MP_MAX_VCPU_NUM"
  shows "processor_entry_init n 0 (ct_processor_entry mpctable_new) =
    Inr (map (\<lambda>j. init_processor j processor_entry_new) [0..<n]
          @ replicate (MP_MAX_VCPU_NUM - n) processor_entry_new)"
proof -
  have "map (\<lambda>j. init_processor j (replicate 32 processor_entry_new ! j)) [0..<n]
      = map (\<lambda>j. init_processor j processor_entry_new) [0..<n]"
    using assms by (intro map_cong) simp_all
  then show ?thesis using assms by (simp add: processor_entry_init_eq mpctable_new_def)
qed

lemma gen_ebda_cases:
  obtains (fits) es e where "nat n \<le> MP_MAX_VCPU_NUM" "gen_ebda n p = Inr e"
    "es = map (\<lambda>j. init_processor j processor_entry_new) [0..<nat n]
          @ replicate (MP_MAX_VCPU_NUM - nat n) processor_entry_new"
    "eb_padding e = replicate 48 0"
    "eb_fps e = (\<lambda>f. f\<lparr>fps_checksum := mp_gen_checksum (fps.calc f)\<rparr>) (mpfps_new (ucast EBDA_START + 0x40))"
    "eb_ctable e = (\<lambda>t. t\<lparr>ct_checksum := mp_gen_checksum (ctable.calc t)\<rparr>)
       (mpctable_new\<lparr>ct_processor_entry := es\<rparr>)"
  | (overrun) "MP_MAX_VCPU_NUM < nat n" "gen_ebda n p = Inl Out_Of_Bounds"
proof (cases "nat n \<le> MP_MAX_VCPU_NUM")
  case True
  then show ?thesis
    by (intro fits [OF True])
      (simp_all add: gen_ebda_def Let_def ebda_new_def processor_entry_init_new calc_fps calc_ctable
        mpfps_new_def, simp_all)
next
  case False
  then have "processor_entry_init (nat n) 0 (ct_processor_entry mpctable_new) = Inl Out_Of_Bounds"
    by (simp add: processor_entry_init_eq mpctable_new_def)
  then have "gen_ebda n p = Inl Out_Of_Bounds" by (simp add: gen_ebda_def Let_def ebda_new_def)
  with False show ?thesis using overrun by simp
qed

section \<open>Properties\<close>

text \<open>The table tells the guest about its processors: of the 32 entries the first \<open>n\<close> are
  enabled, entry \<open>i\<close> with local APIC id \<open>i\<close>, only the first is the bootstrap processor, and the
  other entries are disabled.\<close>

lemma gen_ebda_processors:
  assumes "gen_ebda n p = Inr e" "i < 32"
  shows "let x = ct_processor_entry (eb_ctable e) ! i in
     (bit (pe_cpu_flags x) 0 \<longleftrightarrow> int i < n)
   \<and> (bit (pe_cpu_flags x) 1 \<longleftrightarrow> i = 0 \<and> 0 < n)
   \<and> (int i < n \<longrightarrow> pe_local_apic_id x = of_nat i \<and> pe_entry_type x = 0)"
proof (cases rule: gen_ebda_cases [of n p])
  case (fits es e')
  have "es ! i = (if int i < n then init_processor i processor_entry_new else processor_entry_new)"
    using fits(1) assms(2) unfolding fits(3)
    by (auto simp: nth_append nat_le_iff zless_nat_eq_int_zless)
  moreover have "ct_processor_entry (eb_ctable e) = es"
    using assms(1) fits(2,6) by simp
  ultimately show ?thesis
    by (simp add: init_processor_def processor_entry_new_def bit_simps)
next
  case overrun
  then show ?thesis using assms(1) by simp
qed

text \<open>The two areas of a generated image that a checksum covers.\<close>

lemma gen_ebda_areas:
  assumes "gen_ebda n p = Inr e"
  shows "ebda_bytes e = replicate 48 0 @ mpfps_bytes (eb_fps e) @ mpctable_bytes (eb_ctable e)"
    and "is_mp_checksum_valid (fps.calc (eb_fps e))" "mpctable_wf (eb_ctable e)"
    and "is_mp_checksum_valid (ctable.calc (eb_ctable e))"
proof -
  have "(ebda_bytes e = replicate 48 0 @ mpfps_bytes (eb_fps e) @ mpctable_bytes (eb_ctable e))
    \<and> is_mp_checksum_valid (fps.calc (eb_fps e)) \<and> mpctable_wf (eb_ctable e)
    \<and> is_mp_checksum_valid (ctable.calc (eb_ctable e))"
  proof (cases rule: gen_ebda_cases [of n p])
    case (fits es e')
    have e: "e' = e" using fits(2) assms by simp
    let ?t = "mpctable_new\<lparr>ct_processor_entry := es\<rparr>"
    have wf: "mpctable_wf ?t" using fits(1,3) by (simp add: mpctable_wf_def mpctable_new_def)
    have "is_mp_checksum_valid (fps.calc (eb_fps e'))"
      unfolding fits by (rule fps.sealed_valid) (simp_all add: mpfps_new_def)
    moreover have "is_mp_checksum_valid (ctable.calc (eb_ctable e'))"
      unfolding fits(6) by (rule ctable.sealed_valid [OF wf]) (simp add: mpctable_new_def)
    moreover have "mpctable_wf (eb_ctable e')" unfolding fits(6) by (rule ctable.wf_set [OF wf])
    moreover have "ebda_bytes e' = replicate 48 0 @ mpfps_bytes (eb_fps e') @ mpctable_bytes (eb_ctable e')"
      using fits(4) by (simp add: ebda_bytes_def)
    ultimately show ?thesis unfolding e by blast
  next
    case overrun
    then show ?thesis using assms by simp
  qed
  then show "ebda_bytes e = replicate 48 0 @ mpfps_bytes (eb_fps e) @ mpctable_bytes (eb_ctable e)"
    and "is_mp_checksum_valid (fps.calc (eb_fps e))" "mpctable_wf (eb_ctable e)"
    and "is_mp_checksum_valid (ctable.calc (eb_ctable e))" by blast+
qed

lemma checksum_prefix: "mp_calc_checksum_inline (take n bs) n c = mp_calc_checksum_inline bs n c"
  by (simp add: mp_calc_checksum_inline_eq)

text \<open>C22: The generated area is a well-formed MultiProcessor structure for up to 32 vCPUs: both
  checksums hold, the floating pointer holds the guest-physical address at which the configuration
  table lies once the area is copied to \<^verbatim>\<open>EBDA_START\<close>, and the area fits below the video memory.
  For more vCPUs the entry array is overrun.\<close>

theorem gen_ebda_spec:
  "if nat n \<le> 32 then (\<exists>e. gen_ebda n p = Inr e
      \<and> is_mp_checksum_valid (mp_calc_checksum_fps (eb_fps e))
      \<and> is_mp_checksum_valid (mp_calc_checksum_ctable (eb_ctable e))
      \<and> drop (unat (fps_phys_addr_ptr (eb_fps e)) - unat EBDA_START) (ebda_bytes e)
          = mpctable_bytes (eb_ctable e)
      \<and> EBDA_START + of_nat (length (ebda_bytes e)) \<le> VGARAM_START)
   else gen_ebda n p = Inl Out_Of_Bounds"
proof (cases rule: gen_ebda_cases [of n p])
  case (fits es e)
  note area = gen_ebda_areas [OF fits(2)]
  have "length (mpctable_bytes (eb_ctable e)) = 684" by (rule length_mpctable_bytes [OF area(3)])
  moreover have "unat (fps_phys_addr_ptr (eb_fps e)) - unat EBDA_START = 64"
    unfolding fits by (simp add: mpfps_new_def)
  ultimately show ?thesis
    using fits(1,2) area by (simp add: calc_fps calc_ctable)
next
  case overrun
  then show ?thesis by simp
qed

text \<open>C29: The checksums protect the tables in guest memory: after a change of any one byte of the
  floating pointer or the configuration table of a generated area to another value, the two
  checks a guest makes on the bytes no longer both succeed.\<close>

theorem mp_checksum_detects_corruption:
  assumes "gen_ebda n p = Inr e" "48 \<le> i" "i < 748" "v \<noteq> ebda_bytes e ! i"
  shows "let bs = (ebda_bytes e)[i := v] in
    \<not> (is_mp_checksum_valid (mp_calc_checksum_inline (drop 48 bs) 16 0)
       \<and> is_mp_checksum_valid (mp_calc_checksum_inline (drop 64 bs) 684 0))"
proof (cases "i < 64")
  case True
  let ?f = "mpfps_bytes (eb_fps e)"
  have "v \<noteq> ?f ! (i - 48)"
    using assms(2,4) True
    by (auto simp: gen_ebda_areas(1) [OF assms(1)] nth_append split: if_splits)
  then have "\<not> is_mp_checksum_valid (mp_calc_checksum_inline (?f[i - 48 := v]) 16 0)"
    using fps.corruption_detected [OF TrueI gen_ebda_areas(2) [OF assms(1)], of "i - 48" v]
      True assms(2) by simp
  moreover have "take 16 (drop 48 ((ebda_bytes e)[i := v])) = ?f[i - 48 := v]"
    using True assms(2) by (auto simp: gen_ebda_areas(1) [OF assms(1)] list_update_append)
  ultimately show ?thesis by (metis checksum_prefix)
next
  case False
  let ?t = "mpctable_bytes (eb_ctable e)"
  have "v \<noteq> ?t ! (i - 64)"
    using assms(4) False
    by (auto simp: gen_ebda_areas(1) [OF assms(1)] nth_append split: if_splits)
  then have "\<not> is_mp_checksum_valid (mp_calc_checksum_inline (?t[i - 64 := v]) 684 0)"
    using ctable.corruption_detected [OF gen_ebda_areas(3,4) [OF assms(1)], of "i - 64" v]
      False assms(3) by simp
  moreover have "drop 64 ((ebda_bytes e)[i := v]) = ?t[i - 64 := v]"
    using False by (auto simp: gen_ebda_areas(1) [OF assms(1)] list_update_append)
  ultimately show ?thesis by simp
qed

theorem mp_checksum_detects_corruption_witness:
  "\<exists>e. gen_ebda 1 0 = Inr e \<and> (let bs = (ebda_bytes e)[48 := 0] in
    \<not> (is_mp_checksum_valid (mp_calc_checksum_inline (drop 48 bs) 16 0)
       \<and> is_mp_checksum_valid (mp_calc_checksum_inline (drop 64 bs) 684 0)))"
proof -
  obtain e where e: "gen_ebda 1 0 = Inr e" and f: "fps_signature (eb_fps e) = MPFPS_INTEL_SIGNATURE"
    by (rule gen_ebda_cases [of 1 0]) (simp_all add: mpfps_new_def)
  have "(0 :: u8) \<noteq> ebda_bytes e ! 48"
    by (simp add: gen_ebda_areas(1) [OF e] nth_append mpfps_bytes_def le_bytes_4 f)
  then show ?thesis using mp_checksum_detects_corruption [OF e, of 48 0] e by simp
qed

end
