(* ===== verification/VmLoad.thy ===== *)
theory VmLoad
  imports InFile BootParams MpTable
begin

text \<open>
  Loading the guest (\<^verbatim>\<open>VM::initRAM\<close> of \<^verbatim>\<open>src/vm.cpp\<close>): the MultiProcessor tables, the initial
  RAM disk, the command line, the boot parameters and the kernel are placed in guest memory. The
  function is one sequence in the source; here it is split at its comments, and each piece
  returns the C result (non-zero ends the function) with the state.
\<close>

section \<open>Configuration and state\<close>

record vm_config =
  conf_vcpu_num :: int
  conf_ram_size :: u64
  conf_kernel_path :: string
  conf_initramfs_path :: string
  conf_is_64bit_boot :: bool

text \<open>The members of \<^verbatim>\<open>VM\<close> that the function works on.\<close>

record vm_mem =
  vm_ram :: guest_ram
  vm_kernel :: ifstream
  vm_initramfs :: ifstream

text \<open>Run the next piece unless the last one returned an error.\<close>

definition go_on :: "fault + (int \<times> vm_mem) \<Rightarrow> (vm_mem \<Rightarrow> fault + (int \<times> vm_mem)) \<Rightarrow>
    fault + (int \<times> vm_mem)" where
  "go_on x f = chain x (\<lambda>(r, vm). if r \<noteq> 0 then Inr (r, vm) else f vm)"

section \<open>The pieces of initRAM\<close>

text \<open>The tables are copied whether or not the check of the checksums, which only prints, succeeds.\<close>

definition load_ebda :: "vm_config \<Rightarrow> u32 \<Rightarrow> vm_mem \<Rightarrow> fault + (int \<times> vm_mem)" where
  "load_ebda conf p0 vm =
     chain (gen_ebda (conf_vcpu_num conf) p0) (\<lambda>ebda_data.
     chain (ram_store (unat EBDA_START) (ebda_bytes ebda_data) (vm_ram vm)) (\<lambda>ram.
       Inr (0, vm\<lparr>vm_ram := ram\<rparr>)))"

definition load_initramfs :: "int \<Rightarrow> vm_mem \<Rightarrow> fault + (int \<times> vm_mem)" where
  "load_initramfs ramdisk_size vm =
     (let (got, f) = if_read ramdisk_size (vm_initramfs vm) in
      chain (ram_store (unat INITRAMFS_ADDR) got (vm_ram vm)) (\<lambda>ram.
        Inr (if if_failed f then 1 else 0, vm\<lparr>vm_ram := ram, vm_initramfs := f\<rparr>)))"

definition load_cmdline :: "u8 list \<Rightarrow> vm_mem \<Rightarrow> fault + (int \<times> vm_mem)" where
  "load_cmdline cmdline vm =
     chain (ram_store (unat COMMANDLINE_ADDR) cmdline (vm_ram vm)) (\<lambda>ram1.
     chain (ram_store (unat COMMANDLINE_ADDR + length cmdline) [0] ram1) (\<lambda>ram2.
       Inr (0, vm\<lparr>vm_ram := ram2\<rparr>)))"

text \<open>Reading the header: \<open>None\<close> for a kernel image that is too short.\<close>

definition read_setup_header :: "ifstream \<Rightarrow> setup_header option \<times> ifstream" where
  "read_setup_header file =
     (let (got, k1) = if_read (int sizeof_setup_header) (seekg_beg (int SETUP_HEADER_ADDR) file)
      in if if_failed k1 then (None, seekg_beg 0 k1)
         else (Some (setup_header_of got), seekg_beg 0 k1))"

definition e820_entries :: "u64 \<Rightarrow> (u64 \<times> u64 \<times> u32) list" where
  "e820_entries ram_bytes =
     [(REALMODE_IVT_START, EBDA_START - REALMODE_IVT_START, BOOT_E820_TYPE_RAM),
      (EBDA_START, VGARAM_START - EBDA_START, BOOT_E820_TYPE_RESERVED),
      (MBBIOS_START, ucast MBBIOS_SIZE, BOOT_E820_TYPE_RESERVED),
      (HIGHMEM_BASE, ram_bytes - HIGHMEM_BASE, BOOT_E820_TYPE_RAM)]"

text \<open>The members of the header that a boot loader has to write.\<close>

definition fill_header :: "int \<Rightarrow> setup_header \<Rightarrow> setup_header" where
  "fill_header ramdisk_size h = h\<lparr>
     hd_vid_mode := BOOT_HDR_VID_MODE_NML,
     hd_type_of_loader := BOOT_HDR_BLT_UNDEFINED,
     hd_loadflags := BOOT_HDR_LF_HIGH OR BOOT_HDR_LF_KEEP_SGMT OR BOOT_HDR_LF_HEAP,
     hd_ramdisk_image := ucast INITRAMFS_ADDR,
     hd_ramdisk_size := word_of_int ramdisk_size,
     hd_heap_end_ptr := ucast (BOOT_PARAMS_ADDR - ucast BOOT_HDR_HEAPEND_OFFSET),
     hd_cmd_line_ptr := ucast COMMANDLINE_ADDR\<rparr>"

text \<open>The boot parameters for a header: the memory map is filled in before the header's members.\<close>

definition make_boot_params :: "vm_config \<Rightarrow> int \<Rightarrow> setup_header \<Rightarrow> fault + boot_params" where
  "make_boot_params conf ramdisk_size h =
     chain (add_e820_all (e820_entries (conf_ram_size conf)) (boot_params_new\<lparr>bp_header := h\<rparr>)) (\<lambda>bp.
       Inr (bp\<lparr>bp_header := fill_header ramdisk_size (bp_header bp)\<rparr>))"

definition load_kernel :: "vm_config \<Rightarrow> u8 \<Rightarrow> vm_mem \<Rightarrow> fault + (int \<times> vm_mem)" where
  "load_kernel conf setup_sects vm =
     (if conf_is_64bit_boot conf then Inl Assert_Failed
      else
        let kernel_load_offset = (uint setup_sects + 1) * int SECT_SIZE;
            k1 = seekg_beg kernel_load_offset (vm_kernel vm);
            (total, k2) = get_ifs_size k1;
            (got, k3) = if_read (total - kernel_load_offset) k2
        in chain (ram_store (unat HIGHMEM_BASE) got (vm_ram vm)) (\<lambda>ram.
             if if_failed k3 then Inr (1, vm\<lparr>vm_ram := ram, vm_kernel := k3\<rparr>)
             else Inr (0, vm\<lparr>vm_ram := ram, vm_kernel := seekg_beg 0 k3\<rparr>)))"

definition load_boot_params_and_kernel :: "vm_config \<Rightarrow> int \<Rightarrow> vm_mem \<Rightarrow> fault + (int \<times> vm_mem)" where
  "load_boot_params_and_kernel conf ramdisk_size vm =
     (let (header, k) = read_setup_header (vm_kernel vm); vm1 = vm\<lparr>vm_kernel := k\<rparr> in
      case header of
        None \<Rightarrow> Inr (1, vm1)
      | Some h \<Rightarrow>
          if header_is_valid h = 0 then Inr (1, vm1)
          else
            let (modified, h1) = check_setup_sects h in
            chain (make_boot_params conf ramdisk_size h1) (\<lambda>bp.
            chain (ram_store (unat BOOT_PARAMS_ADDR) (boot_params_bytes bp) (vm_ram vm1)) (\<lambda>ram.
              load_kernel conf (hd_setup_sects (bp_header bp)) (vm1\<lparr>vm_ram := ram\<rparr>))))"

section \<open>initRAM\<close>

text \<open>
  The boot page table at the end of the function is built under \<^verbatim>\<open>is_64bit_boot\<close> only, which
  the assertion before the kernel is loaded has excluded by then.
\<close>

definition initRAM :: "vm_config \<Rightarrow> u32 \<Rightarrow> u8 list \<Rightarrow> vm_mem \<Rightarrow> fault + (int \<times> vm_mem)" where
  "initRAM conf p0 cmdline vm =
     go_on (load_ebda conf p0 vm) (\<lambda>vm1.
       let (ramdisk_size, f) = get_ifs_size (vm_initramfs vm1) in
       go_on (load_initramfs ramdisk_size (vm1\<lparr>vm_initramfs := f\<rparr>)) (\<lambda>vm2.
       go_on (load_cmdline cmdline vm2) (\<lambda>vm3.
         load_boot_params_and_kernel conf ramdisk_size vm3)))"

section \<open>The image of the guest\<close>

text \<open>
  What a guest must find in its memory, region by region: the specification that \<open>initRAM\<close> is
  compared with. It is a function of the contents of the two files.
\<close>

definition kernel_header :: "u8 list \<Rightarrow> setup_header" where
  "kernel_header kf = setup_header_of (take 123 (drop 0x1F1 kf))"

text \<open>The number of real-mode sectors behind the boot sector; 0 stands for 4.\<close>

definition kernel_setup_sects :: "u8 list \<Rightarrow> u8" where
  "kernel_setup_sects kf =
     (let n = hd_setup_sects (kernel_header kf) in if n = 0 then 4 else n)"

definition kernel_offset :: "u8 list \<Rightarrow> nat" where
  "kernel_offset kf = (unat (kernel_setup_sects kf) + 1) * 512"

definition guest_header :: "u8 list \<Rightarrow> u8 list \<Rightarrow> setup_header" where
  "guest_header initrd kf = fill_header (int (length initrd))
     ((kernel_header kf)\<lparr>hd_setup_sects := kernel_setup_sects kf\<rparr>)"

definition guest_image ::
  "ebda \<Rightarrow> boot_params \<Rightarrow> u8 list \<Rightarrow> u8 list \<Rightarrow> u8 list \<Rightarrow> (nat \<times> u8 list) list" where
  "guest_image tables bp cmdline initrd kf =
     [(0x9FC00, ebda_bytes tables),
      (0xF000000, initrd),
      (0x20000, cmdline @ [0]),
      (0x10000, boot_params_bytes bp),
      (0x100000, drop (kernel_offset kf) kf)]"

text \<open>A kernel image of the boot protocol: long enough, and with the magic number.\<close>

definition bootable :: "u8 list \<Rightarrow> bool" where
  "bootable kf \<longleftrightarrow> 0x1F1 + 123 \<le> length kf \<and> hd_header (kernel_header kf) = BOOT_HDR_MAGIC"

text \<open>A file as the constructor of the machine leaves it.\<close>

definition opened :: "u8 list \<Rightarrow> ifstream" where
  "opened d = \<lparr>if_data = d, if_pos = 0, if_failed = False\<rparr>"

lemma opened_simps [simp]:
  "if_data (opened d) = d" "if_pos (opened d) = 0" "\<not> if_failed (opened d)"
  by (simp_all add: opened_def)

section \<open>The pieces on files that are open\<close>

lemma read_setup_header_opened:
  "read_setup_header (opened kf) =
     (if 0x1F1 + 123 \<le> length kf then (Some (kernel_header kf), opened kf)
      else (None, snd (read_setup_header (opened kf))))"
  by (auto simp: read_setup_header_def seekg_beg_def if_read_def Let_def kernel_header_def opened_def)

lemma check_setup_sects_header:
  "snd (check_setup_sects (kernel_header kf))
     = (kernel_header kf)\<lparr>hd_setup_sects := kernel_setup_sects kf\<rparr>"
  by (cases "hd_setup_sects (kernel_header kf) = 0")
    (simp_all add: check_setup_sects_def kernel_setup_sects_def)

lemma make_boot_params_ok:
  obtains bp where "make_boot_params conf n h = Inr bp" "boot_params_wf bp"
    "bp_header bp = fill_header n h" "e820_map bp = map e820_of (e820_entries (conf_ram_size conf))"
    "bp_e820_entries bp = 4"
proof -
  let ?b = "boot_params_new\<lparr>bp_header := h\<rparr>"
  have b: "boot_params_wf ?b" "bp_e820_entries ?b = 0" "e820_map ?b = []" "bp_header ?b = h"
    using boot_params_wf_new by (simp_all add: boot_params_wf_def boot_params_new_def e820_map_def)
  have len: "length (e820_entries (conf_ram_size conf)) = 4" by (simp add: e820_entries_def)
  obtain bp where bp: "add_e820_all (e820_entries (conf_ram_size conf)) ?b = Inr bp"
    "boot_params_wf bp" "bp_header bp = h" "unat (bp_e820_entries bp) = 4"
    "e820_map bp = map e820_of (e820_entries (conf_ram_size conf))"
    using add_e820_all_cases [OF b(1), of "e820_entries (conf_ram_size conf)"] b len by auto
  have "bp_e820_entries bp = 4" using bp(4) by (simp add: word_unat_eq_iff)
  then show ?thesis
    using bp by (intro that [of "bp\<lparr>bp_header := fill_header n (bp_header bp)\<rparr>"])
      (simp_all add: make_boot_params_def boot_params_wf_def e820_map_def)
qed

lemma load_kernel_ok:
  assumes "\<not> conf_is_64bit_boot conf" "vm_kernel vm = opened kf"
    and "(unat n + 1) * 512 \<le> length kf"
  shows "load_kernel conf n vm =
     chain (ram_store 0x100000 (drop ((unat n + 1) * 512) kf) (vm_ram vm)) (\<lambda>ram.
       Inr (0, vm\<lparr>vm_ram := ram\<rparr>))"
proof -
  define b where "b = (unat n + 1) * 512"
  have off: "(uint n + 1) * int SECT_SIZE = int b" by (simp add: b_def of_nat_unat)
  have b: "b \<le> length kf" using assms(3) by (simp add: b_def)
  have k1: "seekg_beg (int b) (opened kf) = (opened kf)\<lparr>if_pos := b\<rparr>"
    by (rule seekg_beg_nat) simp
  have k3: "if_read (int (length kf) - int b) ((opened kf)\<lparr>if_pos := b\<rparr>)
      = (drop b kf, (opened kf)\<lparr>if_pos := length kf\<rparr>)"
    using if_read_all [of "(opened kf)\<lparr>if_pos := b\<rparr>"] b by simp
  have k4: "seekg_beg 0 ((opened kf)\<lparr>if_pos := length kf\<rparr>) = opened kf"
    by (simp add: seekg_beg_def opened_def)
  have vm: "vm\<lparr>vm_ram := ram, vm_kernel := opened kf\<rparr> = vm\<lparr>vm_ram := ram\<rparr>" for ram
    using assms(2) by (cases vm) simp
  show ?thesis
    unfolding b_def [symmetric]
    using assms(1) by (simp add: load_kernel_def off [simplified] assms(2) k1 k3 k4 vm get_ifs_size_ok)
qed

lemma load_kernel_short:
  assumes "\<not> conf_is_64bit_boot conf" "vm_kernel vm = opened kf"
    and "length kf < (unat n + 1) * 512" "0x100000 \<le> ram_size (vm_ram vm)"
  shows "\<exists>k. load_kernel conf n vm = Inr (1, vm\<lparr>vm_kernel := k\<rparr>)"
proof -
  define b where "b = (unat n + 1) * 512"
  have off: "(uint n + 1) * int SECT_SIZE = int b" by (simp add: b_def of_nat_unat)
  have k1: "seekg_beg (int b) (opened kf) = (opened kf)\<lparr>if_pos := b\<rparr>"
    by (rule seekg_beg_nat) simp
  have read: "if_read (int (length kf) - int b) ((opened kf)\<lparr>if_pos := b\<rparr>)
      = ([], (opened kf)\<lparr>if_pos := b, if_failed := True\<rparr>)"
    using assms(3) [folded b_def] by (simp add: if_read_def Let_def)
  have "ram_store 0x100000 [] (vm_ram vm) = Inr (vm_ram vm)"
    using assms(4) by (rule ram_store_Nil)
  then show ?thesis
    using assms(1)
    by (auto simp: load_kernel_def off [simplified] assms(2) k1 read get_ifs_size_ok)
qed

text \<open>Both pieces for a bootable image: the boot parameters are written in any case.\<close>

lemma load_boot_params_and_kernel_bootable:
  assumes "bootable kf"
  obtains bp where "boot_params_wf bp" "bp_header bp = guest_header initrd kf"
    "e820_map bp = map e820_of (e820_entries (conf_ram_size conf))" "bp_e820_entries bp = 4"
    "\<And>vm. vm_kernel vm = opened kf \<Longrightarrow> load_boot_params_and_kernel conf (int (length initrd)) vm =
       chain (ram_store 0x10000 (boot_params_bytes bp) (vm_ram vm)) (\<lambda>ram.
         load_kernel conf (kernel_setup_sects kf) (vm\<lparr>vm_ram := ram\<rparr>))"
proof -
  let ?h = "(kernel_header kf)\<lparr>hd_setup_sects := kernel_setup_sects kf\<rparr>"
  obtain bp where bp: "make_boot_params conf (int (length initrd)) ?h = Inr bp" "boot_params_wf bp"
    "bp_header bp = fill_header (int (length initrd)) ?h"
    "e820_map bp = map e820_of (e820_entries (conf_ram_size conf))" "bp_e820_entries bp = 4"
    by (rule make_boot_params_ok)
  have sects: "hd_setup_sects (fill_header (int (length initrd)) ?h) = kernel_setup_sects kf"
    by (simp add: fill_header_def)
  have header: "read_setup_header (opened kf) = (Some (kernel_header kf), opened kf)"
    "header_is_valid (kernel_header kf) = 1"
    using assms by (simp_all add: bootable_def read_setup_header_opened header_is_valid_def)
  obtain m where cs: "check_setup_sects (kernel_header kf) = (m, ?h)"
    using check_setup_sects_header [of kf] by (metis prod.collapse)
  have "load_boot_params_and_kernel conf (int (length initrd)) vm =
       chain (ram_store 0x10000 (boot_params_bytes bp) (vm_ram vm)) (\<lambda>ram.
         load_kernel conf (kernel_setup_sects kf) (vm\<lparr>vm_ram := ram\<rparr>))"
    if k: "vm_kernel vm = opened kf" for vm
  proof -
    have vm: "vm\<lparr>vm_kernel := opened kf\<rparr> = vm" using k by (cases vm) simp
    show ?thesis
      by (simp add: bp load_boot_params_and_kernel_def k cs header vm sects)
  qed
  then show ?thesis by (intro that [OF bp(2)]) (simp_all add: bp guest_header_def)
qed

lemma load_boot_params_and_kernel_ok:
  assumes "\<not> conf_is_64bit_boot conf" "bootable kf" "kernel_offset kf \<le> length kf"
  obtains bp where "boot_params_wf bp" "bp_header bp = guest_header initrd kf"
    "e820_map bp = map e820_of (e820_entries (conf_ram_size conf))" "bp_e820_entries bp = 4"
    "\<And>vm. vm_kernel vm = opened kf \<Longrightarrow> load_boot_params_and_kernel conf (int (length initrd)) vm =
       chain (ram_store 0x10000 (boot_params_bytes bp) (vm_ram vm)) (\<lambda>ram.
       chain (ram_store 0x100000 (drop (kernel_offset kf) kf) ram) (\<lambda>ram'.
         Inr (0, vm\<lparr>vm_ram := ram'\<rparr>)))"
proof (rule load_boot_params_and_kernel_bootable [OF assms(2), of initrd conf], goal_cases)
  case (1 bp)
  have "load_kernel conf (kernel_setup_sects kf) (vm\<lparr>vm_ram := ram\<rparr>) =
        chain (ram_store 0x100000 (drop (kernel_offset kf) kf) ram) (\<lambda>ram'. Inr (0, vm\<lparr>vm_ram := ram'\<rparr>))"
    if "vm_kernel vm = opened kf" for vm ram
    using load_kernel_ok [OF assms(1), of "vm\<lparr>vm_ram := ram\<rparr>" kf "kernel_setup_sects kf"] that assms(3)
    by (simp add: kernel_offset_def)
  then show ?case using 1 by (intro that [of bp]) simp_all
qed

text \<open>An image that is not bootable ends the function before anything is written.\<close>

lemma load_boot_params_and_kernel_rejects:
  assumes "vm_kernel vm = opened kf" "\<not> bootable kf"
  shows "\<exists>k. load_boot_params_and_kernel conf n vm = Inr (1, vm\<lparr>vm_kernel := k\<rparr>)"
proof (cases "0x1F1 + 123 \<le> length kf")
  case True
  then have "read_setup_header (opened kf) = (Some (kernel_header kf), opened kf)"
    "header_is_valid (kernel_header kf) = 0"
    using assms(2) by (simp_all add: read_setup_header_opened bootable_def header_is_valid_def)
  then show ?thesis by (auto simp: load_boot_params_and_kernel_def assms(1))
next
  case False
  then obtain k where "read_setup_header (opened kf) = (None, k)"
    using read_setup_header_opened [of kf] by metis
  then show ?thesis by (auto simp: load_boot_params_and_kernel_def assms(1))
qed

lemma load_initramfs_ok:
  assumes "vm_initramfs vm = opened d"
  shows "load_initramfs (int (length d)) vm =
    chain (ram_store 0xF000000 d (vm_ram vm)) (\<lambda>ram.
      Inr (0, vm\<lparr>vm_ram := ram, vm_initramfs := (opened d)\<lparr>if_pos := length d\<rparr>\<rparr>))"
  using if_read_all [of "opened d"] by (simp add: load_initramfs_def assms Let_def)

lemma load_cmdline_ok:
  "load_cmdline cmdline vm =
     chain (ram_store 0x20000 (cmdline @ [0]) (vm_ram vm)) (\<lambda>ram. Inr (0, vm\<lparr>vm_ram := ram\<rparr>))"
  using ram_store_append_then [where a = "0x20000" and xs = cmdline and m = "vm_ram vm" and ys = "[0]"]
  by (simp add: load_cmdline_def)

lemma go_on_ok: "go_on (chain x (\<lambda>a. Inr (0, g a))) f = chain x (\<lambda>a. f (g a))"
  by (cases x) (simp_all add: go_on_def)

section \<open>The whole function\<close>

text \<open>The conditions under which the tables, the RAM disk and the command line are loaded.\<close>

definition loadable :: "vm_config \<Rightarrow> u32 \<Rightarrow> ebda \<Rightarrow> u8 list \<Rightarrow> u8 list \<Rightarrow> vm_mem \<Rightarrow> bool" where
  "loadable conf p0 tables cmdline initrd vm \<longleftrightarrow>
     gen_ebda (conf_vcpu_num conf) p0 = Inr tables \<and> vm_initramfs vm = opened initrd
   \<and> 0xF000000 + length initrd \<le> ram_size (vm_ram vm) \<and> length cmdline < 0x7FC00"

lemma length_ebda_bytes: "gen_ebda n p = Inr e \<Longrightarrow> length (ebda_bytes e) = 748"
  using gen_ebda_areas(1,3) by (simp add: length_mpctable_bytes)

text \<open>The boot parameters that end up in the guest.\<close>

definition guest_boot_params :: "vm_config \<Rightarrow> u8 list \<Rightarrow> u8 list \<Rightarrow> boot_params \<Rightarrow> bool" where
  "guest_boot_params conf initrd kf bp \<longleftrightarrow>
     boot_params_wf bp \<and> bp_header bp = guest_header initrd kf \<and> bp_e820_entries bp = 4
   \<and> e820_map bp = map e820_of (e820_entries (conf_ram_size conf))"

definition vm_after_load :: "u8 list \<Rightarrow> vm_mem \<Rightarrow> guest_ram \<Rightarrow> vm_mem" where
  "vm_after_load initrd vm ram =
     vm\<lparr>vm_initramfs := (opened initrd)\<lparr>if_pos := length initrd\<rparr>, vm_ram := ram\<rparr>"

text \<open>What the first three pieces do; the rest of the function follows as \<open>f\<close>.\<close>

lemma init_ram_front:
  assumes "gen_ebda (conf_vcpu_num conf) p0 = Inr tables" "vm_initramfs vm = opened initrd"
  shows "initRAM conf p0 cmdline vm =
    chain (ram_store_all [(0x9FC00, ebda_bytes tables), (0xF000000, initrd), (0x20000, cmdline @ [0])]
        (vm_ram vm)) (\<lambda>ram.
      load_boot_params_and_kernel conf (int (length initrd)) (vm_after_load initrd vm ram))"
proof -
  have ebda: "load_ebda conf p0 vm =
      chain (ram_store 0x9FC00 (ebda_bytes tables) (vm_ram vm)) (\<lambda>ram. Inr (0, vm\<lparr>vm_ram := ram\<rparr>))"
    using assms(1) by (simp add: load_ebda_def)
  have vm: "vm\<lparr>vm_ram := ram, vm_initramfs := opened initrd\<rparr> = vm\<lparr>vm_ram := ram\<rparr>" for ram
    using assms(2) by (cases vm) simp
  show ?thesis
    by (simp add: initRAM_def ebda go_on_ok assms(2) get_ifs_size_ok vm load_initramfs_ok
        load_cmdline_ok chain_assoc vm_after_load_def)
qed

lemma init_ram_image:
  assumes "gen_ebda (conf_vcpu_num conf) p0 = Inr tables" "vm_initramfs vm = opened initrd"
    and "\<not> conf_is_64bit_boot conf" "vm_kernel vm = opened kf" "bootable kf"
    and "kernel_offset kf \<le> length kf"
  obtains bp where "guest_boot_params conf initrd kf bp"
    "initRAM conf p0 cmdline vm =
       chain (ram_store_all (guest_image tables bp cmdline initrd kf) (vm_ram vm))
         (\<lambda>ram. Inr (0, vm_after_load initrd vm ram))"
proof -
  have k: "vm_kernel (vm_after_load initrd vm ram) = opened kf" for ram
    using assms(4) by (simp add: vm_after_load_def)
  have v: "(vm_after_load initrd vm ram)\<lparr>vm_ram := ram'\<rparr> = vm_after_load initrd vm ram'" for ram ram'
    by (simp add: vm_after_load_def)
  have r: "vm_ram (vm_after_load initrd vm ram) = ram" for ram by (simp add: vm_after_load_def)
  obtain bp where bp: "guest_boot_params conf initrd kf bp"
    and l: "\<And>vm. vm_kernel vm = opened kf \<Longrightarrow> load_boot_params_and_kernel conf (int (length initrd)) vm =
       chain (ram_store 0x10000 (boot_params_bytes bp) (vm_ram vm)) (\<lambda>ram.
       chain (ram_store 0x100000 (drop (kernel_offset kf) kf) ram) (\<lambda>ram'.
         Inr (0, vm\<lparr>vm_ram := ram'\<rparr>)))"
    unfolding guest_boot_params_def
    using load_boot_params_and_kernel_ok [OF assms(3,5,6), of initrd] by metis
  then show ?thesis
    by (intro that [OF bp]) (simp add: init_ram_front [OF assms(1,2)] guest_image_def chain_assoc l k v r)
qed

text \<open>The state in which the kernel image is looked at, and the one in which it is loaded.\<close>

lemma init_ram_loadable:
  assumes "loadable conf p0 tables cmdline initrd vm" "vm_kernel vm = opened kf"
  obtains vm1 where "vm_kernel vm1 = opened kf" "ram_size (vm_ram vm1) = ram_size (vm_ram vm)"
    "ram_load 0x100000 0xEF00000 (vm_ram vm1) = ram_load 0x100000 0xEF00000 (vm_ram vm)"
    "initRAM conf p0 cmdline vm = load_boot_params_and_kernel conf (int (length initrd)) vm1"
proof -
  note l = assms(1) [unfolded loadable_def]
  have front: "length (ebda_bytes tables) = 748" using length_ebda_bytes l by blast
  let ?front = "[(0x9FC00, ebda_bytes tables), (0xF000000, initrd), (0x20000, cmdline @ [0])]"
  have "\<forall>(a, bs) \<in> set ?front. a + length bs \<le> ram_size (vm_ram vm)" using l front by auto
  then obtain ram where ram: "ram_store_all ?front (vm_ram vm) = Inr ram"
    using ram_store_all_fits by blast
  have "ram_load 0x100000 0xEF00000 ram = ram_load 0x100000 0xEF00000 (vm_ram vm)"
    using front l by (intro ram_store_all_other [OF ram]) (auto simp: apart_def region_def)
  moreover have "initRAM conf p0 cmdline vm =
      load_boot_params_and_kernel conf (int (length initrd)) (vm_after_load initrd vm ram)"
    using l by (simp only: init_ram_front [where tables = tables and initrd = initrd] ram chain_simps)
  ultimately show ?thesis
    using assms(2) ram_store_all_size [OF ram]
    by (intro that [of "vm_after_load initrd vm ram"]) (simp_all add: vm_after_load_def)
qed

lemma init_ram_bootable:
  assumes "loadable conf p0 tables cmdline initrd vm" "vm_kernel vm = opened kf" "bootable kf"
  obtains vm2 where "vm_kernel vm2 = opened kf" "ram_size (vm_ram vm2) = ram_size (vm_ram vm)"
    "ram_load 0x100000 0xEF00000 (vm_ram vm2) = ram_load 0x100000 0xEF00000 (vm_ram vm)"
    "initRAM conf p0 cmdline vm = load_kernel conf (kernel_setup_sects kf) vm2"
proof -
  obtain vm1 where vm1: "vm_kernel vm1 = opened kf" "ram_size (vm_ram vm1) = ram_size (vm_ram vm)"
    "ram_load 0x100000 0xEF00000 (vm_ram vm1) = ram_load 0x100000 0xEF00000 (vm_ram vm)"
    "initRAM conf p0 cmdline vm = load_boot_params_and_kernel conf (int (length initrd)) vm1"
    by (rule init_ram_loadable [OF assms(1,2)])
  obtain bp where bp: "boot_params_wf bp" and
    lk: "load_boot_params_and_kernel conf (int (length initrd)) vm1 =
       chain (ram_store 0x10000 (boot_params_bytes bp) (vm_ram vm1)) (\<lambda>ram.
         load_kernel conf (kernel_setup_sects kf) (vm1\<lparr>vm_ram := ram\<rparr>))"
    using load_boot_params_and_kernel_bootable [OF assms(3), of initrd conf] vm1(1) by metis
  have len: "length (boot_params_bytes bp) = 3280" by (rule boot_params_layout(1) [OF bp])
  obtain ram where ram: "ram_store 0x10000 (boot_params_bytes bp) (vm_ram vm1) = Inr ram"
    using assms(1) vm1(2) len ram_store_ok_iff [of "0x10000" "boot_params_bytes bp" "vm_ram vm1"]
    by (auto simp: loadable_def)
  have "ram_load 0x100000 0xEF00000 ram = ram_load 0x100000 0xEF00000 (vm_ram vm1)"
    by (rule ram_load_other [OF ram]) (simp add: len)
  then show ?thesis
    using vm1 lk ram ram_store_size [OF ram] by (intro that [of "vm1\<lparr>vm_ram := ram\<rparr>"]) simp_all
qed

lemma initRAM_loads:
  assumes "loadable conf p0 tables cmdline initrd vm" "\<not> conf_is_64bit_boot conf"
    and "vm_kernel vm = opened kf" "bootable kf" "kernel_offset kf \<le> length kf"
    and "length kf \<le> 0xEF00000 + kernel_offset kf"
  shows "\<exists>bp vm'. guest_boot_params conf initrd kf bp \<and> initRAM conf p0 cmdline vm = Inr (0, vm')
    \<and> (\<forall>(a, bs) \<in> set (guest_image tables bp cmdline initrd kf).
          ram_load a (length bs) (vm_ram vm') = bs)
    \<and> (\<forall>b n. (\<forall>x \<in> set (guest_image tables bp cmdline initrd kf). apart (region x) (b, n)) \<longrightarrow>
          ram_load b n (vm_ram vm') = ram_load b n (vm_ram vm))"
proof -
  note l = assms(1) [unfolded loadable_def]
  obtain bp where bp: "guest_boot_params conf initrd kf bp" and eq:
    "initRAM conf p0 cmdline vm =
       chain (ram_store_all (guest_image tables bp cmdline initrd kf) (vm_ram vm))
         (\<lambda>ram. Inr (0, vm_after_load initrd vm ram))"
    using init_ram_image [of conf p0 tables vm initrd kf cmdline] l assms(2-5) by metis
  have len: "length (ebda_bytes tables) = 748" "length (boot_params_bytes bp) = 3280"
    using length_ebda_bytes l bp boot_params_layout(1) by (auto simp: guest_boot_params_def)
  have fits: "\<forall>(a, bs) \<in> set (guest_image tables bp cmdline initrd kf).
      a + length bs \<le> ram_size (vm_ram vm)"
    using l assms(5,6) len by (auto simp: guest_image_def)
  have apart: "all_apart (guest_image tables bp cmdline initrd kf)"
    using l assms(5,6) len by (simp add: guest_image_def apart_def region_def)
  obtain ram where ram: "ram_store_all (guest_image tables bp cmdline initrd kf) (vm_ram vm) = Inr ram"
    using ram_store_all_fits [OF fits] by blast
  have "vm_ram (vm_after_load initrd vm ram) = ram" by (simp add: vm_after_load_def)
  then show ?thesis
    using bp eq ram ram_store_all_load [OF ram apart] ram_store_all_other [OF ram]
    by (intro exI [of _ bp] exI [of _ "vm_after_load initrd vm ram"]) auto
qed

section \<open>Properties\<close>

text \<open>C4: On a bootable kernel image and an open RAM disk \<^verbatim>\<open>initRAM\<close> refines the image of the
  guest: whatever guest memory there is, the function behaves as the five stores of the image in
  this order, a fault included where one of them leaves the memory, and returns 0 afterwards.\<close>

theorem init_ram_refines_image:
  assumes "gen_ebda (conf_vcpu_num conf) p0 = Inr tables" "vm_initramfs vm = opened initrd"
    and "\<not> conf_is_64bit_boot conf" "vm_kernel vm = opened kf" "bootable kf"
    and "kernel_offset kf \<le> length kf"
  shows "\<exists>bp. guest_boot_params conf initrd kf bp
    \<and> initRAM conf p0 cmdline vm =
        chain (ram_store_all (guest_image tables bp cmdline initrd kf) (vm_ram vm))
          (\<lambda>ram. Inr (0, vm_after_load initrd vm ram))"
  using init_ram_image [OF assms] by metis

text \<open>A small machine for the witnesses.\<close>

definition tiny_kernel :: "u8 list" where
  "tiny_kernel = replicate 0x1F1 0
     @ setup_header_bytes (setup_header_new\<lparr>hd_header := BOOT_HDR_MAGIC, hd_setup_sects := 1\<rparr>)
     @ replicate 1000 0xEB"

definition tiny_config :: vm_config where
  "tiny_config = \<lparr>conf_vcpu_num = 1, conf_ram_size = 0x10000000, conf_kernel_path = ''bzImage'',
     conf_initramfs_path = ''initramfs'', conf_is_64bit_boot = False\<rparr>"

definition tiny_machine :: vm_mem where
  "tiny_machine = \<lparr>vm_ram = new_ram 0x10000000, vm_kernel = opened tiny_kernel,
     vm_initramfs = opened [0x30, 0x37]\<rparr>"

lemma tiny_header:
  "kernel_header tiny_kernel = setup_header_new\<lparr>hd_header := BOOT_HDR_MAGIC, hd_setup_sects := 1\<rparr>"
  by (simp add: kernel_header_def tiny_kernel_def setup_header_of_bytes)

lemma tiny_kernel_ok: "bootable tiny_kernel" "kernel_offset tiny_kernel = 1024" "length tiny_kernel = 1620"
  by (simp_all add: bootable_def kernel_offset_def kernel_setup_sects_def tiny_header)
    (simp_all add: tiny_kernel_def)

lemma tiny_tables: "\<exists>e. gen_ebda 1 0 = Inr e"
  by (rule gen_ebda_cases [of 1 0]) auto

theorem init_ram_refines_image_witness:
  "\<exists>tables bp. gen_ebda 1 0 = Inr tables \<and> guest_boot_params tiny_config [0x30, 0x37] tiny_kernel bp
    \<and> initRAM tiny_config 0 [] tiny_machine =
        chain (ram_store_all (guest_image tables bp [] [0x30, 0x37] tiny_kernel) (vm_ram tiny_machine))
          (\<lambda>ram. Inr (0, vm_after_load [0x30, 0x37] tiny_machine ram))"
proof -
  obtain e where e: "gen_ebda 1 0 = Inr e" using tiny_tables by blast
  show ?thesis
    using init_ram_refines_image [of tiny_config 0 e tiny_machine "[0x30, 0x37]" tiny_kernel "[]"]
      e tiny_kernel_ok by (simp add: tiny_config_def tiny_machine_def)
qed

text \<open>C3: Loading succeeds and the guest finds everything where the boot protocol and the tables
  say: if the parts fit (the RAM disk in memory, the kernel below the RAM disk, the command line
  below the EBDA), the function returns 0, and then every region of the image holds its bytes (the
  tables at \<^verbatim>\<open>EBDA_START\<close>, the RAM disk, the terminated command line, the boot parameters, the
  protected-mode kernel at 1 MiB), and no byte outside the regions has changed.\<close>

theorem init_ram_loads_guest:
  assumes "loadable conf p0 tables cmdline initrd vm" "\<not> conf_is_64bit_boot conf"
    and "vm_kernel vm = opened kf" "bootable kf" "kernel_offset kf \<le> length kf"
    and "length kf \<le> 0xEF00000 + kernel_offset kf"
  shows "\<exists>bp vm'. guest_boot_params conf initrd kf bp \<and> initRAM conf p0 cmdline vm = Inr (0, vm')
    \<and> (\<forall>(a, bs) \<in> set (guest_image tables bp cmdline initrd kf).
          ram_load a (length bs) (vm_ram vm') = bs)
    \<and> (\<forall>b n. (\<forall>x \<in> set (guest_image tables bp cmdline initrd kf). apart (region x) (b, n)) \<longrightarrow>
          ram_load b n (vm_ram vm') = ram_load b n (vm_ram vm))"
  by (rule initRAM_loads [OF assms])

theorem init_ram_loads_guest_witness:
  "\<exists>tables bp vm'. guest_boot_params tiny_config [0x30, 0x37] tiny_kernel bp
    \<and> initRAM tiny_config 0 [] tiny_machine = Inr (0, vm')
    \<and> (\<forall>(a, bs) \<in> set (guest_image tables bp [] [0x30, 0x37] tiny_kernel).
          ram_load a (length bs) (vm_ram vm') = bs)"
proof -
  obtain e where e: "gen_ebda 1 0 = Inr e" using tiny_tables by blast
  then have "loadable tiny_config 0 e [] [0x30, 0x37] tiny_machine"
    by (simp add: loadable_def tiny_config_def tiny_machine_def new_ram_def)
  from init_ram_loads_guest [OF this, of tiny_kernel] show ?thesis
    using tiny_kernel_ok by (auto simp: tiny_config_def tiny_machine_def)
qed

text \<open>C23: What \<^verbatim>\<open>initRAM\<close> returns, on an open kernel file of any content, if the tables, the RAM disk, the
  command line and the kernel fit in guest memory: 1 for an image without a
  setup header or without its magic number, or shorter than its setup sectors; a failed assertion
  for a 64-bit boot, which is only found after the boot parameters are written; 0 otherwise. In
  the cases that are not 0 no byte of the kernel area has been written.\<close>

theorem init_ram_outcome:
  assumes "loadable conf p0 tables cmdline initrd vm" "vm_kernel vm = opened kf"
    and "0x100000 + length kf \<le> ram_size (vm_ram vm) + kernel_offset kf"
  shows "let r = initRAM conf p0 cmdline vm in
    if bootable kf \<and> conf_is_64bit_boot conf then r = Inl Assert_Failed
    else if bootable kf \<and> kernel_offset kf \<le> length kf then (\<exists>vm'. r = Inr (0, vm'))
    else (\<exists>vm'. r = Inr (1, vm') \<and> ram_load 0x100000 0xEF00000 (vm_ram vm')
                                = ram_load 0x100000 0xEF00000 (vm_ram vm))"
proof (cases "bootable kf")
  case False
  obtain vm1 where vm1: "vm_kernel vm1 = opened kf"
    "ram_load 0x100000 0xEF00000 (vm_ram vm1) = ram_load 0x100000 0xEF00000 (vm_ram vm)"
    "initRAM conf p0 cmdline vm = load_boot_params_and_kernel conf (int (length initrd)) vm1"
    using init_ram_loadable [OF assms(1,2)] by metis
  then show ?thesis
    using load_boot_params_and_kernel_rejects [OF vm1(1) False, of conf "int (length initrd)"] False
    by auto
next
  case True
  obtain vm2 where vm2: "vm_kernel vm2 = opened kf" "ram_size (vm_ram vm2) = ram_size (vm_ram vm)"
    "ram_load 0x100000 0xEF00000 (vm_ram vm2) = ram_load 0x100000 0xEF00000 (vm_ram vm)"
    "initRAM conf p0 cmdline vm = load_kernel conf (kernel_setup_sects kf) vm2"
    by (rule init_ram_bootable [OF assms(1,2) True])
  consider (wide) "conf_is_64bit_boot conf"
    | (short) "\<not> conf_is_64bit_boot conf" "length kf < kernel_offset kf"
    | (fits) "\<not> conf_is_64bit_boot conf" "kernel_offset kf \<le> length kf" by linarith
  then show ?thesis
  proof cases
    case wide
    then show ?thesis using True by (simp add: vm2 load_kernel_def)
  next
    case short
    then obtain k where "load_kernel conf (kernel_setup_sects kf) vm2 = Inr (1, vm2\<lparr>vm_kernel := k\<rparr>)"
      using load_kernel_short [OF short(1) vm2(1), of "kernel_setup_sects kf"] vm2(2) assms(1)
      by (auto simp: kernel_offset_def loadable_def)
    then show ?thesis using short by (simp add: vm2)
  next
    case fits
    have "\<exists>m. ram_store 0x100000 (drop (kernel_offset kf) kf) (vm_ram vm2) = Inr m"
      using assms(3) fits vm2(2) by (subst ram_store_ok_iff) simp
    then show ?thesis
      using load_kernel_ok [OF fits(1) vm2(1), of "kernel_setup_sects kf"] fits True
      by (auto simp: vm2 kernel_offset_def)
  qed
qed

theorem init_ram_outcome_witness:
  "\<exists>vm'. initRAM tiny_config 0 [] (tiny_machine\<lparr>vm_kernel := opened (replicate 100 0)\<rparr>) = Inr (1, vm')
    \<and> ram_load 0x100000 0xEF00000 (vm_ram vm') = ram_load 0x100000 0xEF00000 (vm_ram tiny_machine)"
proof -
  obtain e where e: "gen_ebda 1 0 = Inr e" using tiny_tables by blast
  have "\<not> bootable (replicate 100 0)" by (simp add: bootable_def)
  moreover have "loadable tiny_config 0 e [] [0x30, 0x37] (tiny_machine\<lparr>vm_kernel := opened (replicate 100 0)\<rparr>)"
    using e by (simp add: loadable_def tiny_config_def tiny_machine_def new_ram_def)
  ultimately show ?thesis
    using init_ram_outcome [of tiny_config 0 e "[]" "[0x30, 0x37]"
        "tiny_machine\<lparr>vm_kernel := opened (replicate 100 0)\<rparr>" "replicate 100 0"]
    by (simp add: Let_def tiny_machine_def new_ram_def)
qed

end
