(* ===== verification/VmInit.thy ===== *)
theory VmInit
  imports VcpuRun VcpuInit VmLoad
begin

text \<open>
  The virtual machine object (\<^verbatim>\<open>include/vm.hpp\<close>, \<^verbatim>\<open>src/vm.cpp\<close>): its constructor, and
  \<^verbatim>\<open>VM::initMachine\<close> with the ten functions of \<^verbatim>\<open>initmachine_func\<close> it runs. The port table,
  the loader and the constructor of a vCPU are the ones of theories \<open>Pio\<close>, \<open>VmLoad\<close> and
  \<open>VcpuInit\<close>.
\<close>

section \<open>State\<close>

text \<open>A constructed vCPU: its descriptor and where its run area is mapped; its id is its index.\<close>

record vcpu_obj =
  vo_fd :: int
  vo_run :: u64

record machine =
  m_fd :: int
  m_kvm :: kvm_system
  m_conf :: vm_config
  m_mem :: vm_mem
  m_ram_start :: u64
  m_devs :: "device list"
  m_pio :: pio_table
  m_vcpus :: "vcpu_obj list"
  m_region :: mem_region

text \<open>
  The constructor. \<open>files\<close> is the file system and \<open>buf0\<close> the uninitialised buffer of
  \<^verbatim>\<open>is_kernel_elf\<close>; \<open>region0\<close> is the uninitialised \<^verbatim>\<open>user_memory_region\<close>. There is no guest
  memory yet.
\<close>

definition VM ::
  "(string \<Rightarrow> u8 list option) \<Rightarrow> u8 list \<Rightarrow> mem_region \<Rightarrow> int \<Rightarrow> kvm_system \<Rightarrow> vm_config \<Rightarrow> fault + machine" where
  "VM files buf0 region0 vm_fd kvm conf =
     (let kf = if_open files (conf_kernel_path conf);
          initrd = if_open files (conf_initramfs_path conf)
      in if if_failed kf then Inl Runtime_Error
         else if if_failed initrd then Inl Runtime_Error
         else
           let (elf, kf') = is_kernel_elf buf0 kf in
           if elf then Inl Runtime_Error
           else Inr \<lparr>m_fd = vm_fd, m_kvm = kvm, m_conf = conf,
                      m_mem = \<lparr>vm_ram = new_ram 0, vm_kernel = kf', vm_initramfs = initrd\<rparr>,
                      m_ram_start = 0, m_devs = [], m_pio = (\<lambda>_ _. None), m_vcpus = [],
                      m_region = region0\<rparr>)"

section \<open>The steps of initMachine\<close>

type_synonym 'k init_func = "machine \<times> 'k host \<Rightarrow> fault + (int \<times> machine \<times> 'k host)"

definition setTSSAddr :: "'k os \<Rightarrow> 'k init_func" where
  "setTSSAddr os s =
     (let (m, h) = s; ((r, q), h') = ioctl_or_errno os (m_fd m) (KVM_SET_TSS_ADDR TSS_BASE) h
      in Inr (r, m, h'))"

definition setIdentityMapAddr :: "'k os \<Rightarrow> 'k init_func" where
  "setIdentityMapAddr os s =
     (let (m, h) = s;
          ((r, q), h') = ioctl_or_errno os (m_fd m) (KVM_SET_IDENTITY_MAP_ADDR IDENTITY_MAP_BASE) h
      in Inr (r, m, h'))"

definition createIRQChip :: "'k os \<Rightarrow> 'k init_func" where
  "createIRQChip os s =
     (let (m, h) = s; ((r, q), h') = ioctl_or_errno os (m_fd m) KVM_CREATE_IRQCHIP h
      in Inr (r, m, h'))"

definition createPIT2 :: "'k os \<Rightarrow> 'k init_func" where
  "createPIT2 os s =
     (let (m, h) = s; ((r, q), h') = ioctl_or_errno os (m_fd m) KVM_CREATE_PIT2 h
      in Inr (r, m, h'))"

text \<open>The loop from index \<open>i\<close> with \<open>n\<close> vCPUs left to create.\<close>

fun create_vcpus :: "'k os \<Rightarrow> nat \<Rightarrow> nat \<Rightarrow> 'k init_func" where
  "create_vcpus os 0 i s = Inr (0, s)"
| "create_vcpus os (Suc n) i s =
     (let (m, h) = s; ((r, q), h1) = kvmIoctl os (m_fd m) (KVM_CREATE_VCPU (int i)) h in
      if r < 0 then Inr (- errno h1, m, h1)
      else chain (Vcpu os (m_kvm m) r h1) (\<lambda>(run, h2).
        create_vcpus os n (Suc i) (m\<lparr>m_vcpus := m_vcpus m @ [\<lparr>vo_fd = r, vo_run = run\<rparr>]\<rparr>, h2)))"

text \<open>For a negative count the size of the array, an unsigned product, is beyond any memory.\<close>

definition createVcpu :: "'k os \<Rightarrow> 'k init_func" where
  "createVcpu os s =
     (let (m, h) = s; n = conf_vcpu_num (m_conf m) in
      if n < 0 then Inl Bad_Alloc
      else create_vcpus os (nat n) 0 (m\<lparr>m_vcpus := []\<rparr>, h))"

definition allocGuestRAM :: "'k os \<Rightarrow> 'k init_func" where
  "allocGuestRAM os s =
     (let (m, h) = s; sz = conf_ram_size (m_conf m); (a, k') = os_mmap os sz (kern h) in
      case a of
        Inl e \<Rightarrow> Inr (- e, m, h\<lparr>kern := k', errno := e\<rparr>)
      | Inr addr \<Rightarrow>
          Inr (0, m\<lparr>m_ram_start := addr, m_mem := (m_mem m)\<lparr>vm_ram := new_ram (unat sz)\<rparr>\<rparr>,
               h\<lparr>kern := k'\<rparr>))"

definition setUserMemRegion :: "'k os \<Rightarrow> 'k init_func" where
  "setUserMemRegion os s =
     (let (m, h) = s;
          region = \<lparr>mr_slot = 0, mr_flags = 0, mr_guest_phys_addr = 0,
                    mr_memory_size = conf_ram_size (m_conf m), mr_userspace_addr = m_ram_start m\<rparr>;
          ((r, q), h') = ioctl_or_errno os (m_fd m) (KVM_SET_USER_MEMORY_REGION region) h
      in Inr (r, m\<lparr>m_region := region\<rparr>, h'))"

definition iodev_of :: "device \<Rightarrow> iodev" where
  "iodev_of d = (case d of D_Post \<Rightarrow> Post | D_Cmos _ \<Rightarrow> CMOS | D_Com1 _ \<Rightarrow> COM1)"

definition init_pio_step :: "'k init_func" where
  "init_pio_step s =
     (let (m, h) = s in Inr (0, m\<lparr>m_pio := initPIOHandler (map iodev_of (m_devs m)) (m_pio m)\<rparr>, h))"

text \<open>The loops over the vCPUs, from index \<open>i\<close> with \<open>n\<close> left; \<open>r0\<close> and \<open>s0\<close> are uninitialised.\<close>

fun init_regs_loop ::
  "'k os \<Rightarrow> vcpu_regs \<Rightarrow> nat \<Rightarrow> nat \<Rightarrow> vcpu_obj list \<Rightarrow> 'k host \<Rightarrow> fault + (int \<times> 'k host)" where
  "init_regs_loop os r0 0 i vs h = Inr (0, h)"
| "init_regs_loop os r0 (Suc n) i vs h =
     (if i < length vs then
        let (r, h') = InitRegs os (vo_fd (vs ! i)) HIGHMEM_BASE BOOT_PARAMS_ADDR r0 h in
        if r \<noteq> 0 then Inr (1, h') else init_regs_loop os r0 n (Suc i) vs h'
      else Inl Out_Of_Bounds)"

fun init_sregs_loop ::
  "'k os \<Rightarrow> bool \<Rightarrow> vcpu_sregs \<Rightarrow> nat \<Rightarrow> nat \<Rightarrow> vcpu_obj list \<Rightarrow> 'k host \<Rightarrow> fault + (int \<times> 'k host)" where
  "init_sregs_loop os w s0 0 i vs h = Inr (0, h)"
| "init_sregs_loop os w s0 (Suc n) i vs h =
     (if i < length vs then
        let (r, h') = InitSregs os (vo_fd (vs ! i)) w s0 h in
        if r \<noteq> 0 then Inr (1, h') else init_sregs_loop os w s0 n (Suc i) vs h'
      else Inl Out_Of_Bounds)"

definition initVcpuRegs :: "'k os \<Rightarrow> vcpu_regs \<Rightarrow> 'k init_func" where
  "initVcpuRegs os r0 s =
     (let (m, h) = s in
      chain (init_regs_loop os r0 (nat (conf_vcpu_num (m_conf m))) 0 (m_vcpus m) h) (\<lambda>(r, h').
        Inr (r, m, h')))"

definition initVcpuSregs :: "'k os \<Rightarrow> vcpu_sregs \<Rightarrow> 'k init_func" where
  "initVcpuSregs os s0 s =
     (let (m, h) = s in
      if conf_is_64bit_boot (m_conf m) then Inl Assert_Failed
      else chain (init_sregs_loop os (conf_is_64bit_boot (m_conf m)) s0
                    (nat (conf_vcpu_num (m_conf m))) 0 (m_vcpus m) h) (\<lambda>(r, h').
             Inr (r, m, h')))"

section \<open>initMachine\<close>

text \<open>\<^verbatim>\<open>addIODev\<close>: append the device.\<close>

definition addIODev :: "device \<Rightarrow> machine \<Rightarrow> machine" where
  "addIODev d m = m\<lparr>m_devs := m_devs m @ [d]\<rparr>"

definition initmachine_func :: "'k os \<Rightarrow> vcpu_regs \<Rightarrow> vcpu_sregs \<Rightarrow> 'k init_func list" where
  "initmachine_func os r0 s0 =
     [setTSSAddr os, setIdentityMapAddr os, createIRQChip os, createPIT2 os, createVcpu os,
      allocGuestRAM os, setUserMemRegion os, init_pio_step, initVcpuRegs os r0, initVcpuSregs os s0]"

text \<open>\<^verbatim>\<open>for (e : initmachine_func) { r = (this->*e)(); if (r < 0) return r; } return 0;\<close>\<close>

fun run_init :: "'k init_func list \<Rightarrow> 'k init_func" where
  "run_init [] s = Inr (0, s)"
| "run_init (f # fs) s = chain (f s) (\<lambda>(r, s'). if r < 0 then Inr (r, s') else run_init fs s')"

text \<open>\<open>i\<close> is the value the uninitialised index of the new CMOS happens to have.\<close>

definition initMachine :: "'k os \<Rightarrow> vcpu_regs \<Rightarrow> vcpu_sregs \<Rightarrow> u8 \<Rightarrow> 'k init_func" where
  "initMachine os r0 s0 i s =
     (let (m, h) = s;
          m1 = addIODev D_Post m;
          m2 = addIODev (D_Cmos (cmos_new i)) m1;
          m3 = addIODev (D_Com1 com1_new) m2
      in run_init (initmachine_func os r0 s0) (m3, h))"

section \<open>What the kernel documents\<close>

text \<open>
  What can be observed of the kernel's state: the descriptors in use, the registers and CPUID
  leaves of each vCPU descriptor, the guest memory that is registered.
\<close>

record kview =
  v_open :: "int set"
  v_regs :: "int \<Rightarrow> vcpu_regs"
  v_sregs :: "int \<Rightarrow> vcpu_sregs"
  v_cpuid :: "int \<Rightarrow> cpuid_entry list"
  v_region :: "mem_region option"

text \<open>
  The effect \<^verbatim>\<open>Documentation/virt/kvm/api.rst\<close> of Linux describes for the requests of
  \<open>initMachine\<close> where they succeed: \<open>v\<close> and \<open>v'\<close> are the views before and after, \<open>r\<close> the result
  and \<open>q\<close> the argument buffer afterwards.
\<close>

fun kvm_reply ::
  "cpuid_entry list \<Rightarrow> int \<Rightarrow> kvm_req \<Rightarrow> kview \<Rightarrow> int \<Rightarrow> kvm_req \<Rightarrow> kview \<Rightarrow> bool" where
  "kvm_reply leaves fd (KVM_CREATE_VCPU i) v r q v' \<longleftrightarrow>
     r \<notin> v_open v \<and> v' = v\<lparr>v_open := insert r (v_open v)\<rparr>"
| "kvm_reply leaves fd (KVM_GET_REGS x) v r q v' \<longleftrightarrow> q = KVM_GET_REGS (v_regs v fd) \<and> v' = v"
| "kvm_reply leaves fd (KVM_SET_REGS x) v r q v' \<longleftrightarrow> v' = v\<lparr>v_regs := (v_regs v)(fd := x)\<rparr>"
| "kvm_reply leaves fd (KVM_GET_SREGS x) v r q v' \<longleftrightarrow> q = KVM_GET_SREGS (v_sregs v fd) \<and> v' = v"
| "kvm_reply leaves fd (KVM_SET_SREGS x) v r q v' \<longleftrightarrow> v' = v\<lparr>v_sregs := (v_sregs v)(fd := x)\<rparr>"
| "kvm_reply leaves fd (KVM_GET_SUPPORTED_CPUID c) v r q v' \<longleftrightarrow>
     q = KVM_GET_SUPPORTED_CPUID
           (c\<lparr>nent := length leaves, entries := leaves @ drop (length leaves) (entries c)\<rparr>) \<and> v' = v"
| "kvm_reply leaves fd (KVM_SET_CPUID2 c) v r q v' \<longleftrightarrow>
     v' = v\<lparr>v_cpuid := (v_cpuid v)(fd := take (nent c) (entries c))\<rparr>"
| "kvm_reply leaves fd (KVM_SET_USER_MEMORY_REGION x) v r q v' \<longleftrightarrow> v' = v\<lparr>v_region := Some x\<rparr>"
| "kvm_reply leaves fd _ v r q v' \<longleftrightarrow> v' = v"

text \<open>A kernel that never fails them, and maps memory without touching the rest.\<close>

definition kvm_documented :: "'k os \<Rightarrow> ('k \<Rightarrow> kview) \<Rightarrow> cpuid_entry list \<Rightarrow> bool" where
  "kvm_documented os view leaves \<longleftrightarrow>
     (\<forall>fd req k. \<exists>r e q k'. os_ioctl os fd req k = ((r, e, q), k') \<and> 0 \<le> r
        \<and> kvm_reply leaves fd req (view k) r q (view k'))
   \<and> (\<forall>n k. \<exists>a k'. os_mmap os n k = (Inr a, k') \<and> view k' = view k)"

abbreviation hview :: "('k \<Rightarrow> kview) \<Rightarrow> 'k host \<Rightarrow> kview" where
  "hview view h \<equiv> view (kern h)"

section \<open>The steps on a documented kernel\<close>

lemma documented_ioctl:
  assumes "kvm_documented os view leaves"
  obtains r q h' where "kvmIoctl os fd req h = ((r, q), h')" "ioctl_status os fd req h = (0, h')"
    "kvmIoctlCtor os fd req h = Inr ((r, q), h')" "ioctl_or_errno os fd req h = ((r, q), h')"
    "0 \<le> r" "kvm_reply leaves fd req (hview view h) r q (hview view h')"
proof -
  obtain r e q k' where "os_ioctl os fd req (kern h) = ((r, e, q), k')" "0 \<le> r"
    "kvm_reply leaves fd req (view (kern h)) r q (view k')"
    using assms unfolding kvm_documented_def by blast
  then show ?thesis
    by (intro that [of r q "h\<lparr>kern := k', errno := 0\<rparr>"])
      (simp_all add: kvmIoctl_ok ioctl_status_ok kvmIoctlCtor_def kvmIoctl_status_stable)
qed

lemma InitRegs_documented:
  assumes "kvm_documented os view leaves"
  shows "\<exists>h'. InitRegs os fd ip si r0 h = (0, h') \<and> hview view h' = (hview view h)\<lparr>v_regs :=
    (v_regs (hview view h))(fd := (v_regs (hview view h) fd)\<lparr>rip := ip, rsi := si, rflags := RF_INIT\<rparr>)\<rparr>"
proof -
  obtain r q h1 where 1: "kvmIoctl os fd (KVM_GET_REGS r0) h = ((r, q), h1)" "0 \<le> r"
    "kvm_reply leaves fd (KVM_GET_REGS r0) (hview view h) r q (hview view h1)"
    using documented_ioctl [OF assms] by metis
  let ?r = "(v_regs (hview view h) fd)\<lparr>rip := ip, rsi := si, rflags := RF_INIT\<rparr>"
  obtain r2 q2 h2 where 2: "ioctl_status os fd (KVM_SET_REGS ?r) h1 = (0, h2)"
    "kvm_reply leaves fd (KVM_SET_REGS ?r) (hview view h1) r2 q2 (hview view h2)"
    using documented_ioctl [OF assms] by metis
  then show ?thesis using 1 by (simp add: InitRegs_def GetRegs_def SetRegs_def)
qed

lemma InitSregs_documented:
  assumes "kvm_documented os view leaves"
  shows "\<exists>h'. InitSregs os fd False s0 h = (0, h') \<and> hview view h' = (hview view h)\<lparr>v_sregs :=
    (v_sregs (hview view h))(fd := protected_mode_sregs (v_sregs (hview view h) fd))\<rparr>"
proof -
  obtain r q h1 where 1: "kvmIoctl os fd (KVM_GET_SREGS s0) h = ((r, q), h1)" "0 \<le> r"
    "kvm_reply leaves fd (KVM_GET_SREGS s0) (hview view h) r q (hview view h1)"
    using documented_ioctl [OF assms] by metis
  let ?r = "protected_mode_sregs (v_sregs (hview view h) fd)"
  obtain r2 q2 h2 where 2: "ioctl_status os fd (KVM_SET_SREGS ?r) h1 = (0, h2)"
    "kvm_reply leaves fd (KVM_SET_SREGS ?r) (hview view h1) r2 q2 (hview view h2)"
    using documented_ioctl [OF assms] by metis
  then show ?thesis using 1 by (simp add: InitSregs_def GetSregs_def SetSregs_def)
qed

lemma Vcpu_documented:
  assumes "kvm_documented os view leaves" "length leaves \<le> 100"
  shows "\<exists>a h'. Vcpu os kvm fd h = Inr (a, h') \<and> hview view h' = (hview view h)\<lparr>v_cpuid :=
    (v_cpuid (hview view h))(fd := map sign_entry leaves)\<rparr>"
proof -
  let ?t = "new_cpuid_table\<lparr>nent := length leaves,
      entries := leaves @ drop (length leaves) (entries new_cpuid_table)\<rparr>"
  obtain r q h1 where g: "kvmIoctl os (kvm_fd kvm) (KVM_GET_SUPPORTED_CPUID new_cpuid_table) h = ((r, q), h1)"
    "0 \<le> r" "kvm_reply leaves (kvm_fd kvm) (KVM_GET_SUPPORTED_CPUID new_cpuid_table) (hview view h) r q (hview view h1)"
    using documented_ioctl [OF assms(1)] by metis
  let ?es = "map sign_entry leaves @ drop (length leaves) (entries new_cpuid_table)"
  have s: "sign_entries (length leaves) 0 (leaves @ drop (length leaves) (entries new_cpuid_table)) = Inr ?es"
    by (simp add: sign_entries_all)
  obtain r2 q2 h2 where t: "kvmIoctlCtor os fd (KVM_SET_CPUID2 (?t\<lparr>entries := ?es\<rparr>)) h1 = Inr ((r2, q2), h2)"
    "kvm_reply leaves fd (KVM_SET_CPUID2 (?t\<lparr>entries := ?es\<rparr>)) (hview view h1) r2 q2 (hview view h2)"
    using documented_ioctl [OF assms(1)] by metis
  obtain a k3 where m: "os_mmap os (word_of_int (mmap_size kvm)) (kern h2) = (Inr a, k3)"
    "view k3 = hview view h2"
    using assms(1) unfolding kvm_documented_def by blast
  have "getSupportedCPUID os kvm new_cpuid_table h = (0, ?t, h1)"
    using g by (simp add: getSupportedCPUID_def)
  then have "Vcpu os kvm fd h = Inr (a, h2\<lparr>kern := k3\<rparr>)"
    using t(1) m(1) s by (simp add: Vcpu_def del: chain_eq_Inr Inr_eq_chain)
  then show ?thesis using g(3) t(2) m(2) by auto
qed

section \<open>The loops on a documented kernel\<close>

definition boot_regs :: "vcpu_regs \<Rightarrow> vcpu_regs" where
  "boot_regs r = r\<lparr>rip := HIGHMEM_BASE, rsi := BOOT_PARAMS_ADDR, rflags := RF_INIT\<rparr>"

text \<open>An update of the registers of a set of descriptors.\<close>

definition on_fds :: "int set \<Rightarrow> ('a \<Rightarrow> 'a) \<Rightarrow> (int \<Rightarrow> 'a) \<Rightarrow> int \<Rightarrow> 'a" where
  "on_fds S f g = (\<lambda>fd. if fd \<in> S then f (g fd) else g fd)"

lemma on_fds_empty [simp]: "on_fds {} f g = g"
  by (simp add: on_fds_def)

lemma on_fds_insert:
  assumes "\<And>x. f (f x) = f x"
  shows "on_fds S f (g(fd := f (g fd))) = on_fds (insert fd S) f g"
  using assms by (auto simp: on_fds_def)

lemma boot_regs_idem: "boot_regs (boot_regs r) = boot_regs r"
  by (simp add: boot_regs_def)

lemma protected_mode_sregs_idem: "protected_mode_sregs (protected_mode_sregs s) = protected_mode_sregs s"
  by (simp add: protected_mode_sregs_def flat_segment_def Let_def or.assoc)

definition fds_from :: "nat \<Rightarrow> nat \<Rightarrow> vcpu_obj list \<Rightarrow> int set" where
  "fds_from n i vs = vo_fd ` set (take n (drop i vs))"

lemma fds_from_0 [simp]: "fds_from 0 i vs = {}"
  by (simp add: fds_from_def)

lemma fds_from_Suc: "i < length vs \<Longrightarrow> fds_from (Suc n) i vs = insert (vo_fd (vs ! i)) (fds_from n (Suc i) vs)"
  by (simp add: fds_from_def Cons_nth_drop_Suc [symmetric])

lemma init_regs_loop_documented:
  assumes "kvm_documented os view leaves" "i + n \<le> length vs"
  shows "\<exists>h'. init_regs_loop os r0 n i vs h = Inr (0, h') \<and> hview view h' = (hview view h)\<lparr>v_regs :=
    on_fds (fds_from n i vs) boot_regs (v_regs (hview view h))\<rparr>"
  using assms(2)
proof (induction n arbitrary: i h)
  case (Suc n)
  let ?fd = "vo_fd (vs ! i)"
  obtain h1 where h1: "InitRegs os ?fd HIGHMEM_BASE BOOT_PARAMS_ADDR r0 h = (0, h1)"
    "hview view h1 = (hview view h)\<lparr>v_regs :=
      (v_regs (hview view h))(?fd := boot_regs (v_regs (hview view h) ?fd))\<rparr>"
    using InitRegs_documented [OF assms(1)] unfolding boot_regs_def by metis
  obtain h2 where "init_regs_loop os r0 n (Suc i) vs h1 = Inr (0, h2)"
    "hview view h2 = (hview view h1)\<lparr>v_regs := on_fds (fds_from n (Suc i) vs) boot_regs (v_regs (hview view h1))\<rparr>"
    using Suc.IH [of "Suc i" h1] Suc.prems by auto
  then show ?case
    using h1 Suc.prems by (simp add: fds_from_Suc on_fds_insert [where f = boot_regs, OF boot_regs_idem])
qed simp

lemma init_sregs_loop_documented:
  assumes "kvm_documented os view leaves" "i + n \<le> length vs"
  shows "\<exists>h'. init_sregs_loop os False s0 n i vs h = Inr (0, h') \<and> hview view h' = (hview view h)\<lparr>v_sregs :=
    on_fds (fds_from n i vs) protected_mode_sregs (v_sregs (hview view h))\<rparr>"
  using assms(2)
proof (induction n arbitrary: i h)
  case (Suc n)
  let ?fd = "vo_fd (vs ! i)"
  obtain h1 where h1: "InitSregs os ?fd False s0 h = (0, h1)"
    "hview view h1 = (hview view h)\<lparr>v_sregs :=
      (v_sregs (hview view h))(?fd := protected_mode_sregs (v_sregs (hview view h) ?fd))\<rparr>"
    using InitSregs_documented [OF assms(1)] by metis
  obtain h2 where "init_sregs_loop os False s0 n (Suc i) vs h1 = Inr (0, h2)"
    "hview view h2 = (hview view h1)\<lparr>v_sregs :=
      on_fds (fds_from n (Suc i) vs) protected_mode_sregs (v_sregs (hview view h1))\<rparr>"
    using Suc.IH [of "Suc i" h1] Suc.prems by auto
  then show ?case
    using h1 Suc.prems
    by (simp add: fds_from_Suc on_fds_insert [where f = protected_mode_sregs, OF protected_mode_sregs_idem])
qed simp

lemma create_vcpus_documented:
  assumes "kvm_documented os view leaves" "length leaves \<le> 100"
  shows "\<exists>vs h'. create_vcpus os n i (m, h) = Inr (0, m\<lparr>m_vcpus := m_vcpus m @ vs\<rparr>, h')
    \<and> length vs = n \<and> distinct (map vo_fd vs) \<and> vo_fd ` set vs \<inter> v_open (hview view h) = {}
    \<and> hview view h' = (hview view h)\<lparr>v_open := vo_fd ` set vs \<union> v_open (hview view h),
          v_cpuid := on_fds (vo_fd ` set vs) (\<lambda>_. map sign_entry leaves) (v_cpuid (hview view h))\<rparr>"
proof (induction n arbitrary: i m h)
  case (Suc n)
  obtain fd q h1 where 1: "kvmIoctl os (m_fd m) (KVM_CREATE_VCPU (int i)) h = ((fd, q), h1)" "0 \<le> fd"
    "kvm_reply leaves (m_fd m) (KVM_CREATE_VCPU (int i)) (hview view h) fd q (hview view h1)"
    using documented_ioctl [OF assms(1)] by metis
  obtain a h2 where 2: "Vcpu os (m_kvm m) fd h1 = Inr (a, h2)" "hview view h2 = (hview view h1)\<lparr>v_cpuid :=
    (v_cpuid (hview view h1))(fd := map sign_entry leaves)\<rparr>"
    using Vcpu_documented [OF assms] by metis
  let ?v = "\<lparr>vo_fd = fd, vo_run = a\<rparr>"
  obtain vs h3 where 3: "create_vcpus os n (Suc i) (m\<lparr>m_vcpus := m_vcpus m @ [?v]\<rparr>, h2)
      = Inr (0, m\<lparr>m_vcpus := m_vcpus m @ ?v # vs\<rparr>, h3)" "length vs = n" "distinct (map vo_fd vs)"
    "vo_fd ` set vs \<inter> v_open (hview view h2) = {}"
    "hview view h3 = (hview view h2)\<lparr>v_open := vo_fd ` set vs \<union> v_open (hview view h2),
       v_cpuid := on_fds (vo_fd ` set vs) (\<lambda>_. map sign_entry leaves) (v_cpuid (hview view h2))\<rparr>"
    using Suc.IH [of "Suc i" "m\<lparr>m_vcpus := m_vcpus m @ [?v]\<rparr>" h2] by auto
  have "create_vcpus os (Suc n) i (m, h) = Inr (0, m\<lparr>m_vcpus := m_vcpus m @ ?v # vs\<rparr>, h3)"
    using 1 2 3(1) by simp
  moreover have "distinct (map vo_fd (?v # vs))" "vo_fd ` set (?v # vs) \<inter> v_open (hview view h) = {}"
    using 1(3) 2(2) 3(3,4) by auto
  moreover have "hview view h3 = (hview view h)\<lparr>v_open := vo_fd ` set (?v # vs) \<union> v_open (hview view h),
       v_cpuid := on_fds (vo_fd ` set (?v # vs)) (\<lambda>_. map sign_entry leaves) (v_cpuid (hview view h))\<rparr>"
    using 1(3) 2(2) 3(5) on_fds_insert [of "\<lambda>_. map sign_entry leaves" "vo_fd ` set vs"] by simp
  ultimately show ?case using 3(2) by (intro exI [of _ "?v # vs"] exI [of _ h3]) simp
qed (simp add: on_fds_def)

text \<open>The steps that only issue one ioctl; the registration of the guest memory.\<close>

lemma run_init_step: "f s = Inr (r, s') \<Longrightarrow> 0 \<le> r \<Longrightarrow> run_init (f # fs) s = run_init fs s'"
  by simp

lemma simple_step_documented:
  assumes "kvm_documented os view leaves"
    and "req \<in> {KVM_SET_TSS_ADDR TSS_BASE, KVM_SET_IDENTITY_MAP_ADDR IDENTITY_MAP_BASE,
           KVM_CREATE_IRQCHIP, KVM_CREATE_PIT2}"
    and "\<And>h. f (m, h) = (let ((r, q), h') = ioctl_or_errno os (m_fd m) req h in Inr (r, m, h'))"
  shows "\<exists>h'. run_init (f # fs) (m, h) = run_init fs (m, h') \<and> hview view h' = hview view h"
proof -
  obtain r q h' where 1: "ioctl_or_errno os (m_fd m) req h = ((r, q), h')" "0 \<le> r"
    "kvm_reply leaves (m_fd m) req (hview view h) r q (hview view h')"
    using documented_ioctl [OF assms(1)] by metis
  then have "hview view h' = hview view h" using assms(2) by auto
  moreover have "f (m, h) = Inr (r, m, h')" using 1 by (simp add: assms(3))
  ultimately show ?thesis using run_init_step 1(2) by metis
qed

lemma simple_steps_documented:
  assumes "kvm_documented os view leaves"
  shows "\<exists>h'. run_init (setTSSAddr os # setIdentityMapAddr os # createIRQChip os # createPIT2 os # fs) (m, h)
            = run_init fs (m, h') \<and> hview view h' = hview view h"
proof -
  note step = simple_step_documented [OF assms, where m = m]
  obtain h1 where 1: "run_init (setTSSAddr os # setIdentityMapAddr os # createIRQChip os # createPIT2 os # fs) (m, h)
      = run_init (setIdentityMapAddr os # createIRQChip os # createPIT2 os # fs) (m, h1)"
    "hview view h1 = hview view h"
    using step [of "KVM_SET_TSS_ADDR TSS_BASE" "setTSSAddr os"] by (fastforce simp: setTSSAddr_def)
  obtain h2 where 2: "run_init (setIdentityMapAddr os # createIRQChip os # createPIT2 os # fs) (m, h1)
      = run_init (createIRQChip os # createPIT2 os # fs) (m, h2)" "hview view h2 = hview view h1"
    using step [of "KVM_SET_IDENTITY_MAP_ADDR IDENTITY_MAP_BASE" "setIdentityMapAddr os"]
    by (fastforce simp: setIdentityMapAddr_def)
  obtain h3 where 3: "run_init (createIRQChip os # createPIT2 os # fs) (m, h2)
      = run_init (createPIT2 os # fs) (m, h3)" "hview view h3 = hview view h2"
    using step [of KVM_CREATE_IRQCHIP "createIRQChip os"] by (fastforce simp: createIRQChip_def)
  obtain h4 where 4: "run_init (createPIT2 os # fs) (m, h3) = run_init fs (m, h4)"
    "hview view h4 = hview view h3"
    using step [of KVM_CREATE_PIT2 "createPIT2 os"] by (fastforce simp: createPIT2_def)
  show ?thesis by (intro exI [of _ h4]) (simp only: 1 2 3 4)
qed

definition guest_region :: "machine \<Rightarrow> mem_region" where
  "guest_region m = \<lparr>mr_slot = 0, mr_flags = 0, mr_guest_phys_addr = 0,
     mr_memory_size = conf_ram_size (m_conf m), mr_userspace_addr = m_ram_start m\<rparr>"

lemma memory_steps_documented:
  assumes "kvm_documented os view leaves"
  shows "\<exists>a m' h'. run_init (allocGuestRAM os # setUserMemRegion os # fs) (m, h) = run_init fs (m', h')
    \<and> m' = m\<lparr>m_ram_start := a, m_mem := (m_mem m)\<lparr>vm_ram := new_ram (unat (conf_ram_size (m_conf m)))\<rparr>,
             m_region := guest_region m'\<rparr>
    \<and> hview view h' = (hview view h)\<lparr>v_region := Some (guest_region m')\<rparr>"
proof -
  obtain a k1 where a: "os_mmap os (conf_ram_size (m_conf m)) (kern h) = (Inr a, k1)"
    "view k1 = hview view h"
    using assms unfolding kvm_documented_def by blast
  let ?m = "m\<lparr>m_ram_start := a, m_mem := (m_mem m)\<lparr>vm_ram := new_ram (unat (conf_ram_size (m_conf m)))\<rparr>\<rparr>"
  have 1: "allocGuestRAM os (m, h) = Inr (0, ?m, h\<lparr>kern := k1\<rparr>)"
    using a by (simp add: allocGuestRAM_def)
  obtain r q h2 where 2: "ioctl_or_errno os (m_fd ?m) (KVM_SET_USER_MEMORY_REGION (guest_region ?m)) (h\<lparr>kern := k1\<rparr>)
      = ((r, q), h2)" "0 \<le> r" "kvm_reply leaves (m_fd ?m) (KVM_SET_USER_MEMORY_REGION (guest_region ?m))
        (hview view (h\<lparr>kern := k1\<rparr>)) r q (hview view h2)"
    using documented_ioctl [OF assms] by metis
  have 3: "setUserMemRegion os (?m, h\<lparr>kern := k1\<rparr>) = Inr (r, ?m\<lparr>m_region := guest_region ?m\<rparr>, h2)"
    using 2(1) by (simp add: setUserMemRegion_def guest_region_def)
  show ?thesis
    using 2(2,3) a(2)
    by (intro exI [of _ a] exI [of _ "?m\<lparr>m_region := guest_region ?m\<rparr>"] exI [of _ h2])
      (simp add: 1 3, simp add: guest_region_def)
qed

section \<open>The sequence of the steps\<close>

text \<open>\<open>initMachine\<close> with its devices in place.\<close>

definition with_devices :: "u8 \<Rightarrow> machine \<Rightarrow> machine" where
  "with_devices i m = m\<lparr>m_devs := m_devs m @ new_devices i\<rparr>"

lemma initMachine_alt:
  "initMachine os r0 s0 i (m, h) = run_init (initmachine_func os r0 s0) (with_devices i m, h)"
  by (simp add: initMachine_def addIODev_def with_devices_def new_devices_def)

lemma run_init_append:
  "run_init (fs @ gs) s = chain (run_init fs s) (\<lambda>(r, s'). if r < 0 then Inr (r, s') else run_init gs s')"
proof (induction fs arbitrary: s)
  case (Cons f fs)
  show ?case by (cases "f s") (auto simp: Cons.IH)
qed simp

text \<open>The steps of a list, each with a result that is not negative, lead from one state to another.\<close>

fun steps_done :: "'k init_func list \<Rightarrow> machine \<times> 'k host \<Rightarrow> machine \<times> 'k host \<Rightarrow> bool" where
  "steps_done [] s s' \<longleftrightarrow> s' = s"
| "steps_done (f # fs) s s' \<longleftrightarrow> (\<exists>r s1. f s = Inr (r, s1) \<and> 0 \<le> r \<and> steps_done fs s1 s')"

lemma all_less_Suc_cases: "(\<exists>k < Suc n. P k) \<longleftrightarrow> P 0 \<or> (\<exists>k < n. P (Suc k))"
  using less_Suc_eq_0_disj by auto

text \<open>Either every step went through, or the first that did not gives the result.\<close>

lemma run_init_result:
  "run_init fs s = Inr (r, s') \<longleftrightarrow> r = 0 \<and> steps_done fs s s'
     \<or> r < 0 \<and> (\<exists>k < length fs. \<exists>s1. steps_done (take k fs) s s1 \<and> (fs ! k) s1 = Inr (r, s'))"
proof (induction fs arbitrary: s)
  case (Cons f fs)
  show ?case
  proof (cases "f s")
    case (Inr x)
    then obtain r1 s1 where "f s = Inr (r1, s1)" by (cases x) simp
    then show ?thesis using Cons.IH [of s1] by (cases s) (auto simp: all_less_Suc_cases)
  qed (simp add: all_less_Suc_cases)
qed auto

lemma run_init_fault:
  "run_init fs s = Inl e \<longleftrightarrow>
     (\<exists>k < length fs. \<exists>s1. steps_done (take k fs) s s1 \<and> (fs ! k) s1 = Inl e)"
proof (induction fs arbitrary: s)
  case (Cons f fs)
  show ?case
  proof (cases "f s")
    case (Inr x)
    then obtain r1 s1 where "f s = Inr (r1, s1)" by (cases x) simp
    then show ?thesis using Cons.IH [of s1] by (cases s) (auto simp: all_less_Suc_cases)
  qed (cases s, simp add: all_less_Suc_cases)
qed simp

lemma init_regs_loop_result:
  "init_regs_loop os r0 n i vs h = Inr (r, h') \<Longrightarrow> r = 0 \<or> r = 1"
  by (induction n arbitrary: i h) (auto simp: Let_def split: if_splits prod.splits)

lemma init_sregs_loop_result:
  "init_sregs_loop os w s0 n i vs h = Inr (r, h') \<Longrightarrow> r = 0 \<or> r = 1"
  by (induction n arbitrary: i h) (auto simp: Let_def split: if_splits prod.splits)

lemma initVcpuRegs_result: "initVcpuRegs os r0 s = Inr (r, s') \<Longrightarrow> r = 0 \<or> r = 1"
  by (cases s) (auto simp: initVcpuRegs_def dest: init_regs_loop_result)

lemma initVcpuSregs_result: "initVcpuSregs os s0 s = Inr (r, s') \<Longrightarrow> r = 0 \<or> r = 1"
  by (cases s) (auto simp: initVcpuSregs_def dest: init_sregs_loop_result split: if_splits)

lemma init_pio_step_result: "init_pio_step s = Inr (r, s') \<Longrightarrow> r = 0"
  by (cases s) (simp add: init_pio_step_def)

lemma late_steps_nonneg:
  assumes "f \<in> {init_pio_step, initVcpuRegs os r0, initVcpuSregs os s0}" "f s = Inr (r, s')"
  shows "0 \<le> r"
  using assms initVcpuRegs_result [of os r0 s r s'] initVcpuSregs_result [of os s0 s r s']
    init_pio_step_result [of s r s'] by auto

lemma late_steps:
  "7 \<le> k \<Longrightarrow> k < length (initmachine_func os r0 s0) \<Longrightarrow>
     initmachine_func os r0 s0 ! k \<in> {init_pio_step, initVcpuRegs os r0, initVcpuSregs os s0}"
proof -
  assume "7 \<le> k" "k < length (initmachine_func os r0 s0)"
  then have "k = 7 \<or> k = 8 \<or> k = 9" by (auto simp: initmachine_func_def)
  then show ?thesis by (auto simp: initmachine_func_def)
qed

text \<open>The last three steps.\<close>

lemma late_steps_documented:
  assumes "kvm_documented os view leaves" "\<not> conf_is_64bit_boot (m_conf m)"
    and "length (m_vcpus m) = nat (conf_vcpu_num (m_conf m))"
  shows "\<exists>h'. run_init [init_pio_step, initVcpuRegs os r0, initVcpuSregs os s0] (m, h)
       = Inr (0, m\<lparr>m_pio := initPIOHandler (map iodev_of (m_devs m)) (m_pio m)\<rparr>, h')
    \<and> hview view h' = (hview view h)\<lparr>
        v_regs := on_fds (vo_fd ` set (m_vcpus m)) boot_regs (v_regs (hview view h)),
        v_sregs := on_fds (vo_fd ` set (m_vcpus m)) protected_mode_sregs (v_sregs (hview view h))\<rparr>"
proof -
  let ?vs = "m_vcpus m"
  have all: "fds_from (length ?vs) 0 ?vs = vo_fd ` set ?vs" by (simp add: fds_from_def)
  obtain h1 where 1: "init_regs_loop os r0 (length ?vs) 0 ?vs h = Inr (0, h1)"
    "hview view h1 = (hview view h)\<lparr>v_regs := on_fds (vo_fd ` set ?vs) boot_regs (v_regs (hview view h))\<rparr>"
    using init_regs_loop_documented [OF assms(1), of 0 "length ?vs" ?vs r0 h] unfolding all by auto
  obtain h2 where 2: "init_sregs_loop os False s0 (length ?vs) 0 ?vs h1 = Inr (0, h2)"
    "hview view h2 = (hview view h1)\<lparr>v_sregs :=
      on_fds (vo_fd ` set ?vs) protected_mode_sregs (v_sregs (hview view h1))\<rparr>"
    using init_sregs_loop_documented [OF assms(1), of 0 "length ?vs" ?vs s0 h1] unfolding all by auto
  show ?thesis
    using 1 2 assms(2)
    by (intro exI [of _ h2]) (simp add: init_pio_step_def initVcpuRegs_def initVcpuSregs_def assms(3) [symmetric])
qed

lemma devices_iodev: "map iodev_of (new_devices i) = machine_devices"
  by (simp add: new_devices_def machine_devices_def iodev_of_def)

lemma createVcpu_documented:
  assumes "kvm_documented os view leaves" "length leaves \<le> 100" "0 \<le> conf_vcpu_num (m_conf m)"
  obtains vs h' where "createVcpu os (m, h) = Inr (0, m\<lparr>m_vcpus := vs\<rparr>, h')"
    "length vs = nat (conf_vcpu_num (m_conf m))" "distinct (map vo_fd vs)"
    "v_regs (hview view h') = v_regs (hview view h)" "v_sregs (hview view h') = v_sregs (hview view h)"
    "v_cpuid (hview view h') = on_fds (vo_fd ` set vs) (\<lambda>_. map sign_entry leaves) (v_cpuid (hview view h))"
proof -
  obtain vs h2 where "create_vcpus os (nat (conf_vcpu_num (m_conf m))) 0 (m\<lparr>m_vcpus := []\<rparr>, h)
      = Inr (0, m\<lparr>m_vcpus := vs\<rparr>, h2)"
    "length vs = nat (conf_vcpu_num (m_conf m))" "distinct (map vo_fd vs)"
    "v_regs (hview view h2) = v_regs (hview view h)" "v_sregs (hview view h2) = v_sregs (hview view h)"
    "v_cpuid (hview view h2) = on_fds (vo_fd ` set vs) (\<lambda>_. map sign_entry leaves) (v_cpuid (hview view h))"
    using create_vcpus_documented [OF assms(1,2), of "nat (conf_vcpu_num (m_conf m))" 0
        "m\<lparr>m_vcpus := []\<rparr>" h] by auto
  then show ?thesis using assms(3) by (intro that [of vs h2]) (simp_all add: createVcpu_def)
qed

text \<open>The whole function on a documented kernel, with the machine it leaves.\<close>

lemma initMachine_documented:
  assumes "kvm_documented os view leaves" "length leaves \<le> 100"
    and "0 \<le> conf_vcpu_num (m_conf m)" "\<not> conf_is_64bit_boot (m_conf m)"
    and "m_devs m = []" "m_pio m = (\<lambda>_ _. None)"
  obtains vs a m' h' where "initMachine os r0 s0 i (m, h) = Inr (0, m', h')"
    "m' = m\<lparr>m_mem := (m_mem m)\<lparr>vm_ram := new_ram (unat (conf_ram_size (m_conf m)))\<rparr>,
            m_ram_start := a, m_devs := new_devices i, m_pio := machine_pio, m_vcpus := vs,
            m_region := guest_region m'\<rparr>"
    "length vs = nat (conf_vcpu_num (m_conf m))" "distinct (map vo_fd vs)"
    "v_regs (hview view h') = on_fds (vo_fd ` set vs) boot_regs (v_regs (hview view h))"
    "v_sregs (hview view h') = on_fds (vo_fd ` set vs) protected_mode_sregs (v_sregs (hview view h))"
    "v_cpuid (hview view h') = on_fds (vo_fd ` set vs) (\<lambda>_. map sign_entry leaves) (v_cpuid (hview view h))"
    "v_region (hview view h') = Some (guest_region m')"
proof -
  let ?m1 = "with_devices i m"
  let ?late = "[init_pio_step, initVcpuRegs os r0, initVcpuSregs os s0]"
  obtain h1 where 1: "run_init (initmachine_func os r0 s0) (?m1, h) = run_init
      (createVcpu os # allocGuestRAM os # setUserMemRegion os # ?late) (?m1, h1)"
    "hview view h1 = hview view h"
    unfolding initmachine_func_def using simple_steps_documented [OF assms(1)] by metis
  obtain vs h2 where 2: "createVcpu os (?m1, h1) = Inr (0, ?m1\<lparr>m_vcpus := vs\<rparr>, h2)"
    "length vs = nat (conf_vcpu_num (m_conf m))" "distinct (map vo_fd vs)"
    "v_regs (hview view h2) = v_regs (hview view h1)" "v_sregs (hview view h2) = v_sregs (hview view h1)"
    "v_cpuid (hview view h2) = on_fds (vo_fd ` set vs) (\<lambda>_. map sign_entry leaves) (v_cpuid (hview view h1))"
    using createVcpu_documented [OF assms(1,2), of ?m1 h1] assms(3) by (auto simp: with_devices_def)
  note create = run_init_step [of "createVcpu os", OF 2(1) order_refl]
  obtain a m3 h3 where 3: "run_init (allocGuestRAM os # setUserMemRegion os # ?late) (?m1\<lparr>m_vcpus := vs\<rparr>, h2)
      = run_init ?late (m3, h3)"
    "m3 = ?m1\<lparr>m_vcpus := vs, m_ram_start := a,
       m_mem := (m_mem m)\<lparr>vm_ram := new_ram (unat (conf_ram_size (m_conf m)))\<rparr>, m_region := guest_region m3\<rparr>"
    "hview view h3 = (hview view h2)\<lparr>v_region := Some (guest_region m3)\<rparr>"
    using memory_steps_documented [OF assms(1), of ?late "?m1\<lparr>m_vcpus := vs\<rparr>" h2]
    by (auto simp del: run_init.simps simp: with_devices_def)
  have m3: "m_vcpus m3 = vs" "m_conf m3 = m_conf m" "m_devs m3 = new_devices i" "m_pio m3 = (\<lambda>_ _. None)"
    "vm_ram (m_mem m3) = new_ram (unat (conf_ram_size (m_conf m)))"
    using assms(5,6) by (subst 3(2), simp add: with_devices_def)+
  obtain h4 where 4: "run_init ?late (m3, h3) = Inr (0, m3\<lparr>m_pio := machine_pio\<rparr>, h4)"
    "hview view h4 = (hview view h3)\<lparr>
        v_regs := on_fds (vo_fd ` set vs) boot_regs (v_regs (hview view h3)),
        v_sregs := on_fds (vo_fd ` set vs) protected_mode_sregs (v_sregs (hview view h3))\<rparr>"
    using late_steps_documented [OF assms(1), of m3 r0 s0 h3] assms(4) 2(2)
    by (auto simp del: run_init.simps simp: m3 devices_iodev machine_pio_def)
  have run: "initMachine os r0 s0 i (m, h) = Inr (0, m3\<lparr>m_pio := machine_pio\<rparr>, h4)"
    by (simp only: initMachine_alt 1 create 3(1) 4(1))
  have region: "guest_region (m3\<lparr>m_pio := machine_pio\<rparr>) = guest_region m3"
    by (simp add: guest_region_def)
  have m': "m3\<lparr>m_pio := machine_pio\<rparr> = m\<lparr>m_mem := (m_mem m)\<lparr>vm_ram := new_ram (unat (conf_ram_size (m_conf m)))\<rparr>,
      m_ram_start := a, m_devs := new_devices i, m_pio := machine_pio, m_vcpus := vs,
      m_region := guest_region (m3\<lparr>m_pio := machine_pio\<rparr>)\<rparr>"
    unfolding region by (subst 3(2)) (simp add: with_devices_def assms(5))
  show ?thesis
    by (rule that [OF run m' 2(2,3)]) (use 1(2) 2 3(3) 4(2) in \<open>simp_all add: guest_region_def\<close>)
qed

section \<open>What a success says on any kernel\<close>

text \<open>The steps that only issue a request do not touch the object; the others, one member each.\<close>

definition same_setup :: "machine \<Rightarrow> machine \<Rightarrow> bool" where
  "same_setup m m' \<longleftrightarrow> m_conf m' = m_conf m \<and> m_devs m' = m_devs m \<and> m_pio m' = m_pio m
     \<and> m_vcpus m' = m_vcpus m"

lemma request_steps_frame:
  "setTSSAddr os s = Inr (r, s') \<Longrightarrow> same_setup (fst s) (fst s')"
  "setIdentityMapAddr os s = Inr (r, s') \<Longrightarrow> same_setup (fst s) (fst s')"
  "createIRQChip os s = Inr (r, s') \<Longrightarrow> same_setup (fst s) (fst s')"
  "createPIT2 os s = Inr (r, s') \<Longrightarrow> same_setup (fst s) (fst s')"
  "allocGuestRAM os s = Inr (r, s') \<Longrightarrow> same_setup (fst s) (fst s')"
  "setUserMemRegion os s = Inr (r, s') \<Longrightarrow> same_setup (fst s) (fst s')"
  "initVcpuRegs os r0 s = Inr (r, s') \<Longrightarrow> same_setup (fst s) (fst s')"
  "initVcpuSregs os s0 s = Inr (r, s') \<Longrightarrow> same_setup (fst s) (fst s')"
  by (cases s; auto simp: same_setup_def setTSSAddr_def setIdentityMapAddr_def createIRQChip_def
      createPIT2_def allocGuestRAM_def setUserMemRegion_def initVcpuRegs_def initVcpuSregs_def Let_def
      split: prod.splits sum.splits if_splits)+

lemma create_vcpus_success:
  assumes "errno_positive os" "create_vcpus os n i (m, h) = Inr (r, m', h')" "0 \<le> r"
  shows "\<exists>vs. m' = m\<lparr>m_vcpus := m_vcpus m @ vs\<rparr> \<and> length vs = n"
  using assms(2)
proof (induction n arbitrary: i m h)
  case 0
  then show ?case by (intro exI [of _ "[]"]) simp
next
  case (Suc n)
  obtain fd q h1 where k: "kvmIoctl os (m_fd m) (KVM_CREATE_VCPU (int i)) h = ((fd, q), h1)"
    by (metis surj_pair)
  have "0 \<le> fd"
  proof (rule ccontr)
    assume "\<not> 0 \<le> fd"
    then have "0 < errno h1" "r = - errno h1"
      using k Suc.prems assms(1) unfolding errno_positive_def
      by (force simp: kvmIoctl_def Let_def split: prod.splits if_splits)+
    with assms(3) show False by simp
  qed
  then obtain run h2 where "create_vcpus os n (Suc i) (m\<lparr>m_vcpus := m_vcpus m @ [\<lparr>vo_fd = fd, vo_run = run\<rparr>]\<rparr>, h2)
      = Inr (r, m', h')"
    using k Suc.prems by auto
  from Suc.IH [OF this] show ?case by auto
qed

lemma createVcpu_success:
  assumes "errno_positive os" "createVcpu os s = Inr (r, s')" "0 \<le> r"
  shows "\<exists>vs. fst s' = (fst s)\<lparr>m_vcpus := vs\<rparr> \<and> int (length vs) = conf_vcpu_num (m_conf (fst s))"
proof -
  obtain m h m' h' where s: "s = (m, h)" "s' = (m', h')" by (metis surj_pair)
  then show ?thesis
    using assms(2) create_vcpus_success [OF assms(1) _ assms(3), of "nat (conf_vcpu_num (m_conf m))" 0
        "m\<lparr>m_vcpus := []\<rparr>" h m' h']
    by (auto simp: createVcpu_def Let_def split: if_splits)
qed

lemma run_init_success:
  assumes "run_init (f # fs) s = Inr (0, s')"
  obtains r s1 where "f s = Inr (r, s1)" "0 \<le> r" "run_init fs s1 = Inr (0, s')"
  using assms by (auto split: if_splits simp: not_less)

lemma initMachine_success:
  assumes "errno_positive os" "initMachine os r0 s0 i (m, h) = Inr (0, m', h')"
    and "m_devs m = []" "m_pio m = (\<lambda>_ _. None)"
  shows "m_devs m' = new_devices i \<and> m_pio m' = machine_pio \<and> m_conf m' = m_conf m
    \<and> int (length (m_vcpus m')) = conf_vcpu_num (m_conf m)"
proof -
  have "run_init (initmachine_func os r0 s0) (with_devices i m, h) = Inr (0, m', h')"
    using assms(2) by (simp only: initMachine_alt)
  then obtain ra rb rc rd re rf rg rh ri rj sa sb sc sd se sf sg sh si sj where steps:
    "setTSSAddr os (with_devices i m, h) = Inr (ra, sa)" "setIdentityMapAddr os sa = Inr (rb, sb)"
    "createIRQChip os sb = Inr (rc, sc)" "createPIT2 os sc = Inr (rd, sd)"
    "allocGuestRAM os se = Inr (rf, sf)" "setUserMemRegion os sf = Inr (rg, sg)"
    "initVcpuRegs os r0 sh = Inr (ri, si)" "initVcpuSregs os s0 si = Inr (rj, sj)"
    and create: "createVcpu os sd = Inr (re, se)" "0 \<le> re"
    and pio: "init_pio_step sg = Inr (rh, sh)" and m: "run_init [] sj = Inr (0, m', h')"
    unfolding initmachine_func_def by (elim run_init_success)
  have "m_pio (fst sh) = initPIOHandler (map iodev_of (m_devs (fst sg))) (m_pio (fst sg))"
    "m_conf (fst sh) = m_conf (fst sg)" "m_devs (fst sh) = m_devs (fst sg)" "m_vcpus (fst sh) = m_vcpus (fst sg)"
    using pio by (cases sg; auto simp: init_pio_step_def)+
  moreover obtain vs where "fst se = (fst sd)\<lparr>m_vcpus := vs\<rparr>" "int (length vs) = conf_vcpu_num (m_conf (fst sd))"
    using createVcpu_success [OF assms(1) create] by blast
  ultimately show ?thesis
    using request_steps_frame(1) [OF steps(1)] request_steps_frame(2) [OF steps(2)]
      request_steps_frame(3) [OF steps(3)] request_steps_frame(4) [OF steps(4)]
      request_steps_frame(5) [OF steps(5)] request_steps_frame(6) [OF steps(6)]
      request_steps_frame(7) [OF steps(7)] request_steps_frame(8) [OF steps(8)] m assms(3,4)
    by (simp add: same_setup_def with_devices_def devices_iodev machine_pio_def)
qed

section \<open>Properties\<close>

text \<open>A file system with a small kernel and a RAM disk, and a machine fresh from the constructor.\<close>

definition tiny_files :: "string \<Rightarrow> u8 list option" where
  "tiny_files path = (if path = ''bzImage'' then Some tiny_kernel
     else if path = ''initramfs'' then Some [0x30, 0x37] else None)"

definition tiny_region :: mem_region where
  "tiny_region = \<lparr>mr_slot = 7, mr_flags = 7, mr_guest_phys_addr = 7, mr_memory_size = 7,
     mr_userspace_addr = 7\<rparr>"

definition tiny_kvm :: kvm_system where
  "tiny_kvm = \<lparr>kvm_fd = 3, mmap_size = 12288, api_ver = 12, kvm_caps = cap_of_list [1, 8, 1, 8, 8, 1]\<rparr>"

definition tiny_vm :: machine where
  "tiny_vm = \<lparr>m_fd = 4, m_kvm = tiny_kvm, m_conf = tiny_config,
     m_mem = \<lparr>vm_ram = new_ram 0, vm_kernel = opened tiny_kernel, vm_initramfs = opened [0x30, 0x37]\<rparr>,
     m_ram_start = 0, m_devs = [], m_pio = (\<lambda>_ _. None), m_vcpus = [], m_region = tiny_region\<rparr>"

lemma tiny_not_elf: "take 4 tiny_kernel \<noteq> ELF_MAGIC"
proof -
  have "hd (take 4 tiny_kernel) = 0" "hd ELF_MAGIC = 0x7F"
    by (simp_all add: tiny_kernel_def ELF_MAGIC_def)
  then show ?thesis by (auto dest: arg_cong [where f = hd])
qed

text \<open>The constructor accepts exactly a kernel file that is not an ELF image, together with an
  existing RAM disk, and leaves both streams at their start; anything else throws. (For a kernel
  file of at least four bytes; a shorter one is compared with uninitialised memory.)\<close>

lemma vm_constructor_spec:
  assumes "\<forall>kf. files (conf_kernel_path conf) = Some kf \<longrightarrow> 4 \<le> length kf"
  shows "VM files buf0 region0 fd kvm conf =
    (case (files (conf_kernel_path conf), files (conf_initramfs_path conf)) of
       (Some kf, Some rd) \<Rightarrow>
         if take 4 kf = ELF_MAGIC then Inl Runtime_Error
         else Inr \<lparr>m_fd = fd, m_kvm = kvm, m_conf = conf,
                   m_mem = \<lparr>vm_ram = new_ram 0, vm_kernel = opened kf, vm_initramfs = opened rd\<rparr>,
                   m_ram_start = 0, m_devs = [], m_pio = (\<lambda>_ _. None), m_vcpus = [],
                   m_region = region0\<rparr>
     | _ \<Rightarrow> Inl Runtime_Error)"
  using assms by (auto simp: VM_def if_open_def opened_def is_kernel_elf_ok split: option.splits)

text \<open>C37: \<^verbatim>\<open>initMachine\<close> returns 0 exactly when its ten steps, on the machine with the three new
  devices, have gone through in their order, each with a result that is not negative, and leaves the
  state the last of them left; it returns anything else exactly when one of the first seven steps
  returned that, a negative value, after those before it had gone through, and leaves the state
  that step left; and it goes wrong exactly where the first step that does not go through goes wrong.\<close>

theorem init_machine_first_error:
  "let steps = [setTSSAddr os, setIdentityMapAddr os, createIRQChip os, createPIT2 os, createVcpu os,
                allocGuestRAM os, setUserMemRegion os, init_pio_step, initVcpuRegs os r0, initVcpuSregs os s0];
       start = (m\<lparr>m_devs := m_devs m @ [D_Post, D_Cmos (cmos_new i), D_Com1 com1_new]\<rparr>, h)
   in (initMachine os r0 s0 i (m, h) = Inr (r, s') \<longleftrightarrow>
         r = 0 \<and> steps_done steps start s'
       \<or> r < 0 \<and> (\<exists>k < 7. \<exists>s1. steps_done (take k steps) start s1 \<and> (steps ! k) s1 = Inr (r, s')))
    \<and> (initMachine os r0 s0 i (m, h) = Inl e \<longleftrightarrow>
         (\<exists>k < 10. \<exists>s1. steps_done (take k steps) start s1 \<and> (steps ! k) s1 = Inl e))"
proof -
  let ?steps = "initmachine_func os r0 s0" and ?start = "(with_devices i m, h)"
  have late: "\<not> r < 0" if "7 \<le> k" "k < length ?steps" "(?steps ! k) s1 = Inr (r, s')" for k s1
    using late_steps_nonneg [OF late_steps [OF that(1,2)] that(3)] by simp
  have len: "length ?steps = 10" by (simp add: initmachine_func_def)
  have seven: "k < 10" if "k < 7" for k :: nat using that by simp
  have "(initMachine os r0 s0 i (m, h) = Inr (r, s') \<longleftrightarrow> r = 0 \<and> steps_done ?steps ?start s'
       \<or> r < 0 \<and> (\<exists>k < 7. \<exists>s1. steps_done (take k ?steps) ?start s1 \<and> (?steps ! k) s1 = Inr (r, s')))
    \<and> (initMachine os r0 s0 i (m, h) = Inl e \<longleftrightarrow>
         (\<exists>k < 10. \<exists>s1. steps_done (take k ?steps) ?start s1 \<and> (?steps ! k) s1 = Inl e))"
    unfolding initMachine_alt run_init_result run_init_fault len
    using late unfolding len by (meson not_less order_less_le_trans less_imp_le seven)
  then show ?thesis
    unfolding Let_def initmachine_func_def with_devices_def new_devices_def .
qed

theorem init_machine_first_error_witness:
  "\<exists>s' k s1. initMachine dead_vcpu_os sample_regs sample_sregs 0 (tiny_vm, \<lparr>kern = (), errno = 0\<rparr>) = Inr (- 22, s')
    \<and> k < 7 \<and> (initmachine_func dead_vcpu_os sample_regs sample_sregs ! k) s1 = Inr (- 22, s')"
proof -
  obtain s' where s': "initMachine dead_vcpu_os sample_regs sample_sregs 0 (tiny_vm, \<lparr>kern = (), errno = 0\<rparr>)
      = Inr (- 22, s')"
    by (simp add: initMachine_alt initmachine_func_def setTSSAddr_def ioctl_or_errno_def kvmIoctl_def
        dead_vcpu_os_def)
  then obtain k s1 where "k < 7" "(initmachine_func dead_vcpu_os sample_regs sample_sregs ! k) s1 = Inr (- 22, s')"
    using init_machine_first_error [of dead_vcpu_os sample_regs sample_sregs tiny_vm 0 "\<lparr>kern = (), errno = 0\<rparr>" "- 22" s',
        unfolded Let_def initmachine_func_def [symmetric], THEN conjunct1] by auto
  with s' show ?thesis by blast
qed

text \<open>Failing to set the registers of a vCPU does not stop the machine: the two functions that
  set them report it with 1, and \<^verbatim>\<open>initMachine\<close>, which looks for negative results only, returns 0.\<close>

lemma init_machine_ignores_register_errors:
  assumes "run_init (take 8 (initmachine_func os r0 s0)) (with_devices i m, h) = Inr (0, s1)"
    and "initVcpuRegs os r0 s1 = Inr (1, s2)" "initVcpuSregs os s0 s2 = Inr (1, s3)"
  shows "initMachine os r0 s0 i (m, h) = Inr (0, s3)"
proof -
  have "initmachine_func os r0 s0 = take 8 (initmachine_func os r0 s0) @ [initVcpuRegs os r0, initVcpuSregs os s0]"
    by (simp add: initmachine_func_def)
  then have "initMachine os r0 s0 i (m, h) = run_init (take 8 (initmachine_func os r0 s0)
      @ [initVcpuRegs os r0, initVcpuSregs os s0]) (with_devices i m, h)"
    by (simp only: initMachine_alt)
  also have "\<dots> = Inr (0, s3)" using assms by (simp add: run_init_append)
  finally show ?thesis .
qed

text \<open>C10: On a kernel that behaves as documented \<^verbatim>\<open>initMachine\<close> builds the whole machine and returns
  0: the number of vCPUs the configuration asks for, with different descriptors, each with the
  CPUID leaves of the host signed as KVM, its registers set to start at 1 MiB with \<open>rsi\<close> at the boot
  parameters and interrupts off, in flat 32-bit protected mode; guest memory of the configured size, registered at guest-physical address 0; the three devices
  new, and the port table that routes to them.\<close>

theorem init_machine_builds:
  assumes "kvm_documented os view leaves" "length leaves \<le> 100"
    and "0 \<le> conf_vcpu_num (m_conf m)" "\<not> conf_is_64bit_boot (m_conf m)"
    and "m_devs m = []" "m_pio m = (\<lambda>_ _. None)"
  shows "\<exists>m' h'. initMachine os r0 s0 i (m, h) = Inr (0, m', h')
    \<and> int (length (m_vcpus m')) = conf_vcpu_num (m_conf m) \<and> distinct (map vo_fd (m_vcpus m'))
    \<and> (\<forall>fd \<in> vo_fd ` set (m_vcpus m').
          v_regs (hview view h') fd
            = (v_regs (hview view h) fd)\<lparr>rip := HIGHMEM_BASE, rsi := BOOT_PARAMS_ADDR, rflags := 2\<rparr>
        \<and> flat_protected_mode (v_sregs (hview view h) fd) (v_sregs (hview view h') fd)
        \<and> list_all2 signed_as_kvm leaves (v_cpuid (hview view h') fd))
    \<and> v_region (hview view h') = Some (guest_region m')
    \<and> vm_ram (m_mem m') = new_ram (unat (conf_ram_size (m_conf m)))
    \<and> m_devs m' = new_devices i \<and> m_pio m' = machine_pio"
proof -
  obtain vs a m' h' where b: "initMachine os r0 s0 i (m, h) = Inr (0, m', h')"
    "m' = m\<lparr>m_mem := (m_mem m)\<lparr>vm_ram := new_ram (unat (conf_ram_size (m_conf m)))\<rparr>,
            m_ram_start := a, m_devs := new_devices i, m_pio := machine_pio, m_vcpus := vs,
            m_region := guest_region m'\<rparr>"
    "length vs = nat (conf_vcpu_num (m_conf m))" "distinct (map vo_fd vs)"
    "v_regs (hview view h') = on_fds (vo_fd ` set vs) boot_regs (v_regs (hview view h))"
    "v_sregs (hview view h') = on_fds (vo_fd ` set vs) protected_mode_sregs (v_sregs (hview view h))"
    "v_cpuid (hview view h') = on_fds (vo_fd ` set vs) (\<lambda>_. map sign_entry leaves) (v_cpuid (hview view h))"
    "v_region (hview view h') = Some (guest_region m')"
    by (rule initMachine_documented [OF assms])
  note p = arg_cong [OF b(2)]
  have "m_vcpus m' = vs" "m_devs m' = new_devices i" "m_pio m' = machine_pio"
    "vm_ram (m_mem m') = new_ram (unat (conf_ram_size (m_conf m)))"
    using p [of m_vcpus] p [of m_devs] p [of m_pio] p [of m_mem] by simp_all
  with b assms(3) show ?thesis
    by (intro exI [of _ m'] exI [of _ h'])
      (simp add: on_fds_def boot_regs_def protected_mode_flat list_all2_map2 list_all2_same sign_entry_signed)
qed

text \<open>A documented kernel: the next free descriptor, and what can be observed.\<close>

definition view_of :: "nat \<times> kview \<Rightarrow> kview" where
  "view_of k = (snd k)\<lparr>v_open := {x. x < int (fst k)}\<rparr>"

fun view_answer ::
  "cpuid_entry list \<Rightarrow> int \<Rightarrow> kvm_req \<Rightarrow> nat \<times> kview \<Rightarrow> (int \<times> int \<times> kvm_req) \<times> nat \<times> kview" where
  "view_answer ls fd (KVM_CREATE_VCPU i) (n, v) = ((int n, 0, KVM_CREATE_VCPU i), (Suc n, v))"
| "view_answer ls fd (KVM_CHECK_EXTENSION c) (n, v) = ((8, 0, KVM_CHECK_EXTENSION c), (n, v))"
| "view_answer ls fd (KVM_GET_REGS r) (n, v) = ((0, 0, KVM_GET_REGS (v_regs v fd)), (n, v))"
| "view_answer ls fd (KVM_SET_REGS r) (n, v) =
     ((0, 0, KVM_SET_REGS r), (n, v\<lparr>v_regs := (v_regs v)(fd := r)\<rparr>))"
| "view_answer ls fd (KVM_GET_SREGS r) (n, v) = ((0, 0, KVM_GET_SREGS (v_sregs v fd)), (n, v))"
| "view_answer ls fd (KVM_SET_SREGS r) (n, v) =
     ((0, 0, KVM_SET_SREGS r), (n, v\<lparr>v_sregs := (v_sregs v)(fd := r)\<rparr>))"
| "view_answer ls fd (KVM_GET_SUPPORTED_CPUID c) (n, v) =
     ((0, 0, KVM_GET_SUPPORTED_CPUID (c\<lparr>nent := length ls, entries := ls @ drop (length ls) (entries c)\<rparr>)), (n, v))"
| "view_answer ls fd (KVM_SET_CPUID2 c) (n, v) =
     ((0, 0, KVM_SET_CPUID2 c), (n, v\<lparr>v_cpuid := (v_cpuid v)(fd := take (nent c) (entries c))\<rparr>))"
| "view_answer ls fd (KVM_SET_USER_MEMORY_REGION r) (n, v) =
     ((0, 0, KVM_SET_USER_MEMORY_REGION r), (n, v\<lparr>v_region := Some r\<rparr>))"
| "view_answer ls fd req (n, v) = ((0, 0, req), (n, v))"

definition view_os :: "cpuid_entry list \<Rightarrow> (nat \<times> kview) os" where
  "view_os ls = \<lparr>os_ioctl = view_answer ls,
     os_write = (\<lambda>x k. ((1, 0), k)), os_read = (\<lambda>k. ((0, 0), k)),
     os_localtime = (\<lambda>k. (sample_now, k)), os_mmap = (\<lambda>n k. (Inr 0x7F0000000000, k)),
     os_open_kvm = (\<lambda>k. ((3, 0), k)), os_cpuid = os_cpuid sample_os\<rparr>"

lemma view_answer_reply:
  assumes "view_answer ls fd req k = ((r, e, q), k')"
  shows "0 \<le> r \<and> kvm_reply ls fd req (view_of k) r q (view_of k')"
proof -
  have "{x. x < 1 + int n} = insert (int n) {x. x < int n}" for n by auto
  then show ?thesis
    using assms by (induction ls fd req k rule: view_answer.induct) (auto simp: view_of_def)
qed

lemma view_os_documented: "kvm_documented (view_os ls) view_of ls"
  unfolding kvm_documented_def
  using view_answer_reply by (auto simp: view_os_def) (metis prod_cases3 surj_pair)

definition view_start :: "(nat \<times> kview) host" where
  "view_start = \<lparr>kern = (5, \<lparr>v_open = {}, v_regs = (\<lambda>_. sample_regs), v_sregs = (\<lambda>_. sample_sregs),
     v_cpuid = (\<lambda>_. []), v_region = None\<rparr>), errno = 0\<rparr>"

theorem init_machine_builds_witness:
  "\<exists>m' h'. initMachine (view_os [leaf_entry 1]) sample_regs sample_sregs 0 (tiny_vm, view_start) = Inr (0, m', h')
    \<and> int (length (m_vcpus m')) = 1
    \<and> v_region (view_of (kern h')) = Some (guest_region m')
    \<and> m_devs m' = new_devices 0 \<and> m_pio m' = machine_pio"
  using init_machine_builds [OF view_os_documented, of "[leaf_entry 1]" tiny_vm sample_regs sample_sregs 0 view_start]
  by (auto simp: tiny_vm_def tiny_config_def)

end
