(* ===== verification/VmBoot.thy ===== *)
theory VmBoot
  imports VmInit
begin

text \<open>
  Booting (\<^verbatim>\<open>VM::Boot\<close> of \<^verbatim>\<open>src/vm.cpp\<close>): one thread per vCPU runs \<^verbatim>\<open>Vcpu::RunLoop\<close> while
  the main thread joins them in order, and the reader thread of the serial port, started with
  the device, pushes standard input. The threads share the devices, the kernel,
  \<^verbatim>\<open>std::cout\<close> and \<^verbatim>\<open>std::cerr\<close>; \<^verbatim>\<open>errno\<close> and the run area belong to a thread.

  A step of the system is one turn of a loop: one \<^verbatim>\<open>RunOnce\<close>, one register dump, one iteration of
  the reader, one thread started or joined. The finer interleaving inside the serial port is in
  theory \<open>SerialRace\<close>.
\<close>

section \<open>State\<close>

text \<open>A vCPU thread: before its first statement, in the loop, at the dump, or returned.\<close>

datatype thread_phase = T_Start | T_Running | T_Stopping | T_Done int

record vcpu_thread =
  th_vcpu :: vcpu
  th_run :: kvm_run
  th_errno :: int
  th_phase :: thread_phase

text \<open>
  The process. \<open>bs_joined\<close> is the position of the main thread in its second loop (its position
  in the first is the number of threads); \<open>bs_fault\<close> is undefined behaviour or an exception that
  leaves a thread; \<open>bs_result\<close> is what \<^verbatim>\<open>Boot\<close> has returned.
\<close>

record 'k boot_state =
  bs_threads :: "vcpu_thread list"
  bs_joined :: nat
  bs_devs :: "device list"
  bs_kern :: 'k
  bs_out :: console
  bs_reader :: bool
  bs_reader_errno :: int
  bs_fault :: "fault option"
  bs_result :: "int option"

definition boot_start :: "machine \<Rightarrow> bool \<Rightarrow> console \<Rightarrow> 'k \<Rightarrow> 'k boot_state" where
  "boot_start m reader out k =
     \<lparr>bs_threads = [], bs_joined = 0, bs_devs = m_devs m, bs_kern = k, bs_out = out,
      bs_reader = reader, bs_reader_errno = 0, bs_fault = None, bs_result = None\<rparr>"

text \<open>What the methods of a vCPU use of \<^verbatim>\<open>this\<close>, in the machine.\<close>

definition vcpu_of :: "machine \<Rightarrow> nat \<Rightarrow> vcpu" where
  "vcpu_of m i = \<lparr>vcpu_fd = vo_fd (m_vcpus m ! i), vcpu_vm_fd = m_fd m, vcpu_id = i, vcpu_pio = m_pio m\<rparr>"

section \<open>The steps of the threads\<close>

text \<open>
  One iteration of the first loop of \<^verbatim>\<open>Boot\<close>: the message and
  \<^verbatim>\<open>threads.emplace_back(&Vcpu::RunLoop, &vcpus[i])\<close>. \<open>run0 i\<close> is the mapped area of vCPU \<open>i\<close>.
\<close>

definition boot_banner :: "nat \<Rightarrow> console \<Rightarrow> console" where
  "boot_banner i con =
     (out_all [Str ''VM::Boot: Booting vCPU['', Num i, Str '']'', Str [NL]] (fst con), snd con)"

definition boot_spawn :: "machine \<Rightarrow> (nat \<Rightarrow> kvm_run) \<Rightarrow> 'k boot_state \<Rightarrow> 'k boot_state" where
  "boot_spawn m run0 s =
     (let i = length (bs_threads s) in
      if i < length (m_vcpus m) then
        s\<lparr>bs_out := boot_banner i (bs_out s),
          bs_threads := bs_threads s
            @ [\<lparr>th_vcpu = vcpu_of m i, th_run = run0 i, th_errno = 0, th_phase = T_Start\<rparr>]\<rparr>
      else s\<lparr>bs_fault := Some Out_Of_Bounds\<rparr>)"

text \<open>The world a thread works on, and putting it back.\<close>

definition thread_guest :: "'k boot_state \<Rightarrow> vcpu_thread \<Rightarrow> 'k guest" where
  "thread_guest s t = (th_run t, (bs_devs s, \<lparr>kern = bs_kern s, errno = th_errno t\<rparr>))"

definition put_guest :: "nat \<Rightarrow> thread_phase \<Rightarrow> 'k guest \<Rightarrow> 'k boot_state \<Rightarrow> 'k boot_state" where
  "put_guest i ph g s =
     (let (run, (devs, h)) = g
      in s\<lparr>bs_threads := (bs_threads s)[i := (bs_threads s ! i)\<lparr>th_run := run, th_errno := errno h, th_phase := ph\<rparr>],
           bs_devs := devs, bs_kern := kern h\<rparr>)"

text \<open>
  \<^verbatim>\<open>Vcpu::RunLoop\<close> in thread \<open>i\<close>, up to its next turn: the message, a \<^verbatim>\<open>RunOnce\<close>, the dump of the
  registers. \<open>r0\<close> and \<open>s0\<close> are the uninitialised structures of the dump.
\<close>

definition thread_turn ::
  "'k os \<Rightarrow> vcpu_regs \<Rightarrow> vcpu_sregs \<Rightarrow> nat \<Rightarrow> 'k boot_state \<Rightarrow> 'k boot_state" where
  "thread_turn os r0 s0 i s =
     (let t = bs_threads s ! i; v = th_vcpu t; g = thread_guest s t in
      case th_phase t of
        T_Start \<Rightarrow> put_guest i T_Running g (s\<lparr>bs_out := run_banner v (bs_out s)\<rparr>)
      | T_Running \<Rightarrow>
          (case RunOnce os v g of
             Inl e \<Rightarrow> s\<lparr>bs_fault := Some e\<rparr>
           | Inr (r, g') \<Rightarrow> put_guest i (if r \<noteq> 0 then T_Stopping else T_Running) g' s)
      | T_Stopping \<Rightarrow>
          (let (r, out, g') = stop_running os v r0 s0 (bs_out s) g
           in put_guest i (T_Done r) g' (s\<lparr>bs_out := out\<rparr>))
      | T_Done r \<Rightarrow> s)"

text \<open>An iteration of \<^verbatim>\<open>COM1::readerLoop\<close>, on the third device.\<close>

definition reader_turn :: "'k os \<Rightarrow> int \<Rightarrow> com1 \<Rightarrow> 'k boot_state \<Rightarrow> 'k boot_state" where
  "reader_turn os vm_fd c s =
     (if shutting_down c then s\<lparr>bs_reader := False\<rparr>
      else
        let (go_on, c', h) = reader_iter os vm_fd (c, \<lparr>kern = bs_kern s, errno = bs_reader_errno s\<rparr>)
        in s\<lparr>bs_devs := (bs_devs s)[2 := D_Com1 c'], bs_kern := kern h, bs_reader := go_on,
             bs_reader_errno := errno h\<rparr>)"

section \<open>The system\<close>

definition thread_done :: "vcpu_thread \<Rightarrow> bool" where
  "thread_done t = (case th_phase t of T_Done r \<Rightarrow> True | _ \<Rightarrow> False)"

definition running :: "'k boot_state \<Rightarrow> bool" where
  "running s \<longleftrightarrow> bs_fault s = None \<and> bs_result s = None"

text \<open>Whether the first loop of \<^verbatim>\<open>Boot\<close>, \<^verbatim>\<open>for (i = 0; i < vm_conf.vcpu_num; ++i)\<close>, is over.\<close>

definition all_spawned :: "machine \<Rightarrow> 'k boot_state \<Rightarrow> bool" where
  "all_spawned m s \<longleftrightarrow> conf_vcpu_num (m_conf m) \<le> int (length (bs_threads s))"

inductive boot_step ::
  "'k os \<Rightarrow> machine \<Rightarrow> vcpu_regs \<Rightarrow> vcpu_sregs \<Rightarrow> (nat \<Rightarrow> kvm_run) \<Rightarrow> 'k boot_state \<Rightarrow> 'k boot_state \<Rightarrow> bool"
  for os m r0 s0 run0 where
  spawn: "running s \<Longrightarrow> \<not> all_spawned m s \<Longrightarrow> boot_step os m r0 s0 run0 s (boot_spawn m run0 s)"
| thread: "running s \<Longrightarrow> i < length (bs_threads s) \<Longrightarrow> \<not> thread_done (bs_threads s ! i) \<Longrightarrow>
    boot_step os m r0 s0 run0 s (thread_turn os r0 s0 i s)"
| reader: "running s \<Longrightarrow> bs_reader s \<Longrightarrow> 2 < length (bs_devs s) \<Longrightarrow> bs_devs s ! 2 = D_Com1 c \<Longrightarrow>
    boot_step os m r0 s0 run0 s (reader_turn os (m_fd m) c s)"
| join: "running s \<Longrightarrow> all_spawned m s \<Longrightarrow> bs_joined s < length (bs_threads s) \<Longrightarrow>
    thread_done (bs_threads s ! bs_joined s) \<Longrightarrow>
    boot_step os m r0 s0 run0 s (s\<lparr>bs_joined := Suc (bs_joined s)\<rparr>)"
| return: "running s \<Longrightarrow> all_spawned m s \<Longrightarrow> bs_joined s = length (bs_threads s) \<Longrightarrow>
    boot_step os m r0 s0 run0 s (s\<lparr>bs_result := Some 0\<rparr>)"

inductive_cases boot_stepE: "boot_step os m r0 s0 run0 s s'"

lemma boot_step_running: "boot_step os m r0 s0 run0 s s' \<Longrightarrow> running s"
  by (erule boot_stepE)

abbreviation boots ::
  "'k os \<Rightarrow> machine \<Rightarrow> vcpu_regs \<Rightarrow> vcpu_sregs \<Rightarrow> (nat \<Rightarrow> kvm_run) \<Rightarrow> 'k boot_state \<Rightarrow> 'k boot_state \<Rightarrow> bool" where
  "boots os m r0 s0 run0 \<equiv> (boot_step os m r0 s0 run0)\<^sup>*\<^sup>*"

section \<open>The invariant of a boot\<close>

text \<open>A machine as \<^verbatim>\<open>initMachine\<close> leaves it.\<close>

definition machine_ready :: "machine \<Rightarrow> bool" where
  "machine_ready m \<longleftrightarrow> m_pio m = machine_pio \<and> length (m_devs m) = 3
     \<and> (\<forall>d \<in> set (m_devs m). device_inv d) \<and> int (length (m_vcpus m)) = conf_vcpu_num (m_conf m)"

definition thread_inv :: "vcpu_thread \<Rightarrow> bool" where
  "thread_inv t \<longleftrightarrow> vcpu_pio (th_vcpu t) = machine_pio
     \<and> (\<forall>r. th_phase t = T_Done r \<longrightarrow> r = 1 \<or> r < 0)"

definition devices_inv :: "device list \<Rightarrow> bool" where
  "devices_inv devs \<longleftrightarrow> length devs = 3 \<and> (\<forall>d \<in> set devs. device_inv d)"

lemma bus_inv_devices [simp]: "bus_inv (devs, h) = devices_inv devs"
  by (simp add: bus_inv_def devices_inv_def)

definition boot_inv :: "machine \<Rightarrow> 'k boot_state \<Rightarrow> bool" where
  "boot_inv m s \<longleftrightarrow> devices_inv (bs_devs s) \<and> (\<forall>t \<in> set (bs_threads s). thread_inv t)
     \<and> int (length (bs_threads s)) \<le> conf_vcpu_num (m_conf m)
     \<and> bs_joined s \<le> length (bs_threads s) \<and> (\<forall>i < bs_joined s. thread_done (bs_threads s ! i))
     \<and> (\<forall>r. bs_result s = Some r \<longrightarrow> r = 0 \<and> bs_joined s = length (bs_threads s) \<and> all_spawned m s)"

lemma boot_inv_start: "machine_ready m \<Longrightarrow> boot_inv m (boot_start m reader out k)"
  by (auto simp: boot_inv_def boot_start_def machine_ready_def devices_inv_def)

lemma boot_inv_spawn:
  assumes "machine_ready m" "boot_inv m s" "running s" "\<not> all_spawned m s"
  shows "boot_inv m (boot_spawn m run0 s)"
  using assms
  by (auto simp: boot_inv_def boot_spawn_def machine_ready_def all_spawned_def running_def Let_def
      thread_inv_def vcpu_of_def nth_append)

text \<open>A thread's world put back: the thread is not done, so no joined one is touched.\<close>

lemma boot_inv_put_guest:
  assumes "boot_inv m s" "running s" "i < length (bs_threads s)" "\<not> thread_done (bs_threads s ! i)"
    and "bus_inv (snd g)" "\<And>r. ph = T_Done r \<Longrightarrow> r = 1 \<or> r < 0"
  shows "boot_inv m (put_guest i ph g (s\<lparr>bs_out := out\<rparr>))"
proof -
  obtain run devs h where g: "g = (run, (devs, h))" by (cases g) auto
  let ?t = "(bs_threads s ! i)\<lparr>th_run := run, th_errno := errno h, th_phase := ph\<rparr>"
  have "thread_inv (bs_threads s ! i)" using assms(1,3) by (simp add: boot_inv_def)
  then have t: "thread_inv ?t" using assms(6) by (auto simp: thread_inv_def)
  have all: "\<forall>t \<in> set ((bs_threads s)[i := ?t]). thread_inv t"
    using assms(1) t set_update_subset_insert [of "bs_threads s" i ?t] by (auto simp: boot_inv_def)
  have "i \<noteq> j" if "j < bs_joined s" for j using assms(1,4) that by (auto simp: boot_inv_def)
  then have "\<forall>j < bs_joined s. thread_done ((bs_threads s)[i := ?t] ! j)"
    using assms(1) by (auto simp: boot_inv_def)
  then show ?thesis
    using assms(1,2,5) all by (simp add: g put_guest_def boot_inv_def running_def)
qed

lemma thread_turn_fault: "boot_inv m s \<Longrightarrow> boot_inv m (s\<lparr>bs_fault := Some e\<rparr>)"
  by (simp add: boot_inv_def all_spawned_def)

lemma boot_inv_thread:
  assumes "errno_positive os" "boot_inv m s" "running s" "i < length (bs_threads s)"
    and "\<not> thread_done (bs_threads s ! i)"
  shows "boot_inv m (thread_turn os r0 s0 i s)"
proof -
  let ?t = "bs_threads s ! i"
  let ?g = "thread_guest s ?t"
  have pio: "vcpu_pio (th_vcpu ?t) = machine_pio" using assms(2,4) by (simp add: boot_inv_def thread_inv_def)
  have bus: "bus_inv (snd ?g)" using assms(2) by (simp add: thread_guest_def boot_inv_def)
  note put = boot_inv_put_guest [OF assms(2-5)]
  show ?thesis
  proof (cases "th_phase ?t")
    case T_Start
    then show ?thesis using put [OF bus, of T_Running] by (simp add: thread_turn_def Let_def)
  next
    case T_Running
    show ?thesis
    proof (cases "RunOnce os (th_vcpu ?t) ?g")
      case (Inl e)
      then show ?thesis using T_Running thread_turn_fault [OF assms(2)] by (simp add: thread_turn_def Let_def)
    next
      case (Inr x)
      obtain r g' where x: "x = (r, g')" by (cases x)
      have "bus_inv (snd g')" using RunOnce_inv [OF pio bus] Inr x by blast
      from put [OF this, of "if r \<noteq> 0 then T_Stopping else T_Running" "bs_out s"] show ?thesis
        using T_Running Inr x by (auto simp: thread_turn_def Let_def split: if_splits)
    qed
  next
    case T_Stopping
    obtain r out g' where stop: "stop_running os (th_vcpu ?t) r0 s0 (bs_out s) ?g = (r, out, g')"
      by (metis prod_cases3)
    have "(r = 1 \<or> r < 0) \<and> (\<exists>h'. snd g' = (bs_devs s, h'))"
      using stop_running_result [OF assms(1) stop [unfolded thread_guest_def]] .
    moreover from this have "bus_inv (snd g')" using assms(2) by (auto simp: boot_inv_def)
    ultimately show ?thesis using put [of g' "T_Done r" out] T_Stopping stop
      by (auto simp: thread_turn_def Let_def)
  next
    case (T_Done r)
    then show ?thesis using assms(5) by (simp add: thread_done_def)
  qed
qed

lemma reader_iter_inv: "com1_inv c \<Longrightarrow> reader_iter os fd (c, h) = (g, c', h') \<Longrightarrow> com1_inv c'"
  by (auto simp: reader_iter_def Let_def split: prod.splits if_splits)

lemma devices_inv_update: "devices_inv devs \<Longrightarrow> device_inv d \<Longrightarrow> devices_inv (devs[i := d])"
  using set_update_subset_insert [of devs i d] by (auto simp: devices_inv_def)

lemma boot_inv_reader:
  assumes "boot_inv m s" "2 < length (bs_devs s)" "bs_devs s ! 2 = D_Com1 c"
  shows "boot_inv m (reader_turn os fd c s)"
proof -
  obtain g c' h where r: "reader_iter os fd (c, \<lparr>kern = bs_kern s, errno = bs_reader_errno s\<rparr>) = (g, c', h)"
    by (metis prod_cases3)
  have "device_inv (bs_devs s ! 2)" using assms(1,2) by (simp add: boot_inv_def devices_inv_def)
  then have "com1_inv c'" using reader_iter_inv [OF _ r] assms(3) by simp
  then show ?thesis
    using assms(1) r by (auto simp: reader_turn_def boot_inv_def all_spawned_def devices_inv_update)
qed

lemma boot_inv_step:
  assumes "machine_ready m" "errno_positive os" "boot_inv m s" "boot_step os m r0 s0 run0 s s'"
  shows "boot_inv m s'"
  using assms(4)
proof (cases rule: boot_step.cases)
  case join
  then show ?thesis using assms(3)
    by (auto simp: boot_inv_def running_def all_spawned_def less_Suc_eq)
next
  case return
  then show ?thesis using assms(3) by (simp add: boot_inv_def all_spawned_def)
qed (simp_all add: assms boot_inv_spawn boot_inv_thread boot_inv_reader)

interpretation boot: step_invariant "boot_step os m r0 s0 run0"
    "\<lambda>s. machine_ready m \<and> errno_positive os \<and> boot_inv m s"
  for os :: "'k os" and m :: machine and r0 s0 run0
  by unfold_locales (auto intro: boot_inv_step)

lemma boot_inv_reachable:
  assumes "machine_ready m" "errno_positive os" "boots os m r0 s0 run0 (boot_start m reader out k) s"
  shows "boot_inv m s"
  using boot.path_inv [OF assms(3)] assms(1,2) by (simp add: boot_inv_start)

section \<open>A machine with one vCPU\<close>

text \<open>
  The states of a boot with one vCPU and no more standard input: \<open>j\<close> threads joined, the thread in
  phase \<open>ph\<close> with its world.
\<close>

definition single :: "machine \<Rightarrow> nat \<Rightarrow> thread_phase \<Rightarrow> console \<Rightarrow> 'k guest \<Rightarrow> 'k boot_state" where
  "single m j ph out g =
     (let (run, (devs, h)) = g
      in \<lparr>bs_threads = [\<lparr>th_vcpu = vcpu_of m 0, th_run = run, th_errno = errno h, th_phase = ph\<rparr>],
          bs_joined = j, bs_devs = devs, bs_kern = kern h, bs_out = out, bs_reader = False,
          bs_reader_errno = 0, bs_fault = None, bs_result = None\<rparr>)"

lemma single_simps [simp]:
  "length (bs_threads (single m j ph out g)) = 1" "bs_joined (single m j ph out g) = j"
  "th_phase (bs_threads (single m j ph out g) ! 0) = ph" "bs_out (single m j ph out g) = out"
  "th_vcpu (bs_threads (single m j ph out g) ! 0) = vcpu_of m 0"
  "bs_fault (single m j ph out g) = None" "bs_result (single m j ph out g) = None"
  "\<not> bs_reader (single m j ph out g)" "running (single m j ph out g)"
  "thread_guest (single m j ph out g) (bs_threads (single m j ph out g) ! 0) = g"
  "(single m j ph out g)\<lparr>bs_out := out'\<rparr> = single m j ph out' g"
  "(single m j ph out g)\<lparr>bs_joined := i\<rparr> = single m i ph out g"
  "put_guest 0 ph' g' (single m j ph out g) = single m j ph' out g'"
  by (auto simp: single_def thread_guest_def put_guest_def running_def split: prod.splits)

lemma single_thread_turn:
  "thread_turn os r0 s0 0 (single m j ph out g) =
     (case ph of
        T_Start \<Rightarrow> single m j T_Running (run_banner (vcpu_of m 0) out) g
      | T_Running \<Rightarrow>
          (case RunOnce os (vcpu_of m 0) g of
             Inl e \<Rightarrow> (single m j ph out g)\<lparr>bs_fault := Some e\<rparr>
           | Inr (r, g') \<Rightarrow> single m j (if r \<noteq> 0 then T_Stopping else T_Running) out g')
      | T_Stopping \<Rightarrow>
          (let (r, out', g') = stop_running os (vcpu_of m 0) r0 s0 out g in single m j (T_Done r) out' g')
      | T_Done r \<Rightarrow> single m j ph out g)"
  by (simp add: thread_turn_def Let_def split: thread_phase.splits sum.splits prod.splits)

text \<open>The one way such a machine can go on.\<close>

lemma single_step_iff:
  assumes "conf_vcpu_num (m_conf m) = 1"
  shows "boot_step os m r0 s0 run0 (single m j ph out g) s' \<longleftrightarrow>
    (case ph of
       T_Done r \<Rightarrow> j = 0 \<and> s' = single m 1 ph out g \<or> j = 1 \<and> s' = (single m j ph out g)\<lparr>bs_result := Some 0\<rparr>
     | _ \<Rightarrow> s' = thread_turn os r0 s0 0 (single m j ph out g)
           \<or> j = 1 \<and> s' = (single m j ph out g)\<lparr>bs_result := Some 0\<rparr>)"
  (is "?step s' \<longleftrightarrow> ?next")
proof -
  have spawned: "all_spawned m (single m j ph out g)" using assms by (simp add: all_spawned_def)
  have "thread_done (bs_threads (single m j ph out g) ! 0) \<longleftrightarrow> (\<exists>r. ph = T_Done r)"
    by (cases ph) (simp_all add: thread_done_def)
  then show ?thesis
    using spawned
    by (subst boot_step.simps) (auto split: thread_phase.splits)
qed

text \<open>Where a boot of one vCPU has come to, as an outcome of its run loop.\<close>

fun boot_outcome :: "'k boot_state \<Rightarrow> fault + (int \<times> console \<times> 'k guest) \<Rightarrow> bool" where
  "boot_outcome s (Inl e) \<longleftrightarrow> bs_fault s = Some e"
| "boot_outcome s (Inr (r, out, g)) \<longleftrightarrow> bs_result s = Some 0 \<and> bs_out s = out
     \<and> (\<exists>t. bs_threads s = [t] \<and> th_phase t = T_Done r \<and> thread_guest s t = g)"

text \<open>The states such a boot goes through, with what each says of the run loop.\<close>

definition single_guest :: "machine \<Rightarrow> (nat \<Rightarrow> kvm_run) \<Rightarrow> 'k \<Rightarrow> 'k guest" where
  "single_guest m run0 k = (run0 0, (m_devs m, \<lparr>kern = k, errno = 0\<rparr>))"

definition single_out :: "machine \<Rightarrow> console \<Rightarrow> console" where
  "single_out m out = run_banner (vcpu_of m 0) (boot_banner 0 out)"

inductive single_state ::
  "'k os \<Rightarrow> machine \<Rightarrow> vcpu_regs \<Rightarrow> vcpu_sregs \<Rightarrow> (nat \<Rightarrow> kvm_run) \<Rightarrow> console \<Rightarrow> 'k \<Rightarrow> 'k boot_state \<Rightarrow> bool"
  for os m r0 s0 run0 out k where
  "single_state os m r0 s0 run0 out k (boot_start m False out k)"
| "single_state os m r0 s0 run0 out k (single m 0 T_Start (boot_banner 0 out) (single_guest m run0 k))"
| "run_while os (vcpu_of m 0) (single_guest m run0 k) = run_while os (vcpu_of m 0) g \<Longrightarrow>
    single_state os m r0 s0 run0 out k (single m 0 T_Running (single_out m out) g)"
| "run_while os (vcpu_of m 0) (single_guest m run0 k) = Some (Inl e) \<Longrightarrow>
    single_state os m r0 s0 run0 out k ((single m 0 T_Running (single_out m out) g)\<lparr>bs_fault := Some e\<rparr>)"
| "run_while os (vcpu_of m 0) (single_guest m run0 k) = Some (Inr g) \<Longrightarrow>
    single_state os m r0 s0 run0 out k (single m 0 T_Stopping (single_out m out) g)"
| "run_while os (vcpu_of m 0) (single_guest m run0 k) = Some (Inr g1) \<Longrightarrow>
    stop_running os (vcpu_of m 0) r0 s0 (single_out m out) g1 = (r, out', g) \<Longrightarrow>
    single_state os m r0 s0 run0 out k (single m j (T_Done r) out' g)"
| "run_while os (vcpu_of m 0) (single_guest m run0 k) = Some (Inr g1) \<Longrightarrow>
    stop_running os (vcpu_of m 0) r0 s0 (single_out m out) g1 = (r, out', g) \<Longrightarrow>
    single_state os m r0 s0 run0 out k ((single m 1 (T_Done r) out' g)\<lparr>bs_result := Some 0\<rparr>)"

lemma single_spawn:
  assumes "length (m_vcpus m) = 1"
  shows "boot_spawn m run0 (boot_start m False out k)
    = single m 0 T_Start (boot_banner 0 out) (single_guest m run0 k)"
  using assms by (simp add: boot_spawn_def boot_start_def single_def single_guest_def)

lemma single_start_step:
  assumes "length (m_vcpus m) = 1" "conf_vcpu_num (m_conf m) = 1"
  shows "boot_step os m r0 s0 run0 (boot_start m False out k) s' \<longleftrightarrow>
    s' = single m 0 T_Start (boot_banner 0 out) (single_guest m run0 k)"
proof -
  let ?s = "boot_start m False out k"
  have "running ?s" "\<not> all_spawned m ?s" "bs_threads ?s = []" "\<not> bs_reader ?s"
    using assms by (simp_all add: boot_start_def all_spawned_def running_def)
  then show ?thesis
    by (subst boot_step.simps) (simp add: single_spawn [OF assms(1)])
qed

text \<open>A turn of the thread in the loop: the run goes on, faults or stops.\<close>

lemma single_state_turn:
  assumes "run_while os (vcpu_of m 0) (single_guest m run0 k) = run_while os (vcpu_of m 0) g"
  shows "single_state os m r0 s0 run0 out k (thread_turn os r0 s0 0 (single m 0 T_Running (single_out m out) g))"
proof (cases "RunOnce os (vcpu_of m 0) g")
  case (Inl e)
  then have "run_while os (vcpu_of m 0) g = Some (Inl e)"
    by (intro run_while_stop) (simp add: stops_def)
  with assms Inl show ?thesis unfolding single_thread_turn by (simp add: single_state.intros(4))
next
  case (Inr x)
  obtain r g' where x: "x = (r, g')" by (cases x)
  show ?thesis
  proof (cases "r = 0")
    case True
    then have "keeps_running os (vcpu_of m 0) g g'" using Inr x by (auto intro: keeps_running.intros)
    then have "run_while os (vcpu_of m 0) g = run_while os (vcpu_of m 0) g'" by (rule run_while_step)
    with assms Inr x True show ?thesis
      unfolding single_thread_turn by (simp add: single_state.intros(3))
  next
    case False
    then have "run_while os (vcpu_of m 0) g = Some (Inr g')"
      using Inr x by (intro run_while_stop) (simp add: stops_def)
    with assms Inr x False show ?thesis
      unfolding single_thread_turn by (simp add: single_state.intros(5))
  qed
qed

lemma single_state_step:
  assumes "length (m_vcpus m) = 1" "conf_vcpu_num (m_conf m) = 1"
    and "single_state os m r0 s0 run0 out k s" "boot_step os m r0 s0 run0 s s'"
  shows "single_state os m r0 s0 run0 out k s'"
  using assms(3)
proof (cases rule: single_state.cases)
  case 1
  then show ?thesis using assms(4) single_start_step [OF assms(1,2)] single_state.intros(2) by metis
next
  case 2
  then have "s' = single m 0 T_Running (single_out m out) (single_guest m run0 k)"
    using assms(4) by (simp add: single_step_iff [OF assms(2)] single_thread_turn single_out_def)
  then show ?thesis by (simp add: single_state.intros(3))
next
  case (3 g)
  have "s' = thread_turn os r0 s0 0 (single m 0 T_Running (single_out m out) g)"
    using assms(4) 3(1) by (simp add: single_step_iff [OF assms(2)])
  then show ?thesis using single_state_turn [OF 3(2)] by simp
next
  case (4 e g)
  then show ?thesis using boot_step_running [OF assms(4)] by (simp add: running_def)
next
  case (5 g)
  obtain r out' g' where stop: "stop_running os (vcpu_of m 0) r0 s0 (single_out m out) g = (r, out', g')"
    by (metis prod_cases3)
  then have "s' = single m 0 (T_Done r) out' g'"
    using assms(4) 5(1) by (simp add: single_step_iff [OF assms(2)] single_thread_turn)
  with 5(2) stop show ?thesis by (simp add: single_state.intros(6))
next
  case (6 g1 r out' g j)
  then have "s' = single m 1 (T_Done r) out' g \<or> s' = (single m 1 (T_Done r) out' g)\<lparr>bs_result := Some 0\<rparr>"
    using assms(4) by (auto simp: single_step_iff [OF assms(2)])
  with 6(2,3) show ?thesis using single_state.intros(6,7) by metis
next
  case (7 g1 r out' g)
  then show ?thesis using boot_step_running [OF assms(4)] by (simp add: running_def)
qed

lemma single_state_reachable:
  assumes "length (m_vcpus m) = 1" "conf_vcpu_num (m_conf m) = 1"
    and "boots os m r0 s0 run0 (boot_start m False out k) s"
  shows "single_state os m r0 s0 run0 out k s"
  using assms(3)
  by (induction rule: rtranclp_induct)
    (simp_all add: single_state.intros(1) single_state_step [OF assms(1,2)])

text \<open>The outcomes of the states: those of the run loop, both ways.\<close>

lemma single_state_outcome:
  assumes "single_state os m r0 s0 run0 out k s" "boot_outcome s x"
  shows "RunLoop os (vcpu_of m 0) r0 s0 (boot_banner 0 out) (single_guest m run0 k) = Some x"
  using assms(1)
proof (cases rule: single_state.cases)
  case (4 e g)
  then have "x = Inl e" using assms(2) by (cases x) auto
  with 4(2) show ?thesis by (simp add: RunLoop_alt)
next
  case (7 g1 r out' g)
  have "x = Inr (r, out', g)"
    using assms(2) unfolding 7(1) single_def
    by (cases x; cases g) (auto simp: thread_guest_def)
  with 7(2,3) show ?thesis by (simp add: RunLoop_alt single_out_def)
qed (use assms(2) in \<open>cases x; auto simp: boot_start_def\<close>)+

lemma single_boots_running:
  assumes "conf_vcpu_num (m_conf m) = 1" "(keeps_running os (vcpu_of m 0))\<^sup>*\<^sup>* g g'"
  shows "boots os m r0 s0 run0 (single m 0 T_Running o1 g) (single m 0 T_Running o1 g')"
  using assms(2)
proof (induction rule: rtranclp_induct)
  case (step g1 g2)
  then have "boot_step os m r0 s0 run0 (single m 0 T_Running o1 g1) (single m 0 T_Running o1 g2)"
    by (auto simp: single_step_iff [OF assms(1)] single_thread_turn elim!: keeps_runningE)
  with step.IH show ?case by (rule rtranclp.rtrancl_into_rtrancl)
qed simp

lemma single_boots_to_loop:
  assumes "length (m_vcpus m) = 1" "conf_vcpu_num (m_conf m) = 1"
  shows "boots os m r0 s0 run0 (boot_start m False out k)
     (single m 0 T_Running (single_out m out) (single_guest m run0 k))"
proof -
  have "boot_step os m r0 s0 run0 (boot_start m False out k)
      (single m 0 T_Start (boot_banner 0 out) (single_guest m run0 k))"
    by (simp add: single_start_step [OF assms])
  moreover have "boot_step os m r0 s0 run0 (single m 0 T_Start (boot_banner 0 out) (single_guest m run0 k))
      (single m 0 T_Running (single_out m out) (single_guest m run0 k))"
    by (simp add: single_step_iff [OF assms(2)] single_thread_turn single_out_def)
  ultimately show ?thesis by (meson converse_rtranclp_into_rtranclp r_into_rtranclp)
qed

lemma single_boots_to_end:
  assumes "conf_vcpu_num (m_conf m) = 1" "stops os (vcpu_of m 0) g y"
  shows "\<exists>s. boots os m r0 s0 run0 (single m 0 T_Running o1 g) s
    \<and> boot_outcome s (map_sum id (stop_running os (vcpu_of m 0) r0 s0 o1) y)"
proof (cases y)
  case (Inl e)
  then have "RunOnce os (vcpu_of m 0) g = Inl e"
    using assms(2) by (auto simp: stops_def split: sum.splits)
  then have "boot_step os m r0 s0 run0 (single m 0 T_Running o1 g) ((single m 0 T_Running o1 g)\<lparr>bs_fault := Some e\<rparr>)"
    by (simp add: single_step_iff [OF assms(1)] single_thread_turn)
  then show ?thesis using Inl by (intro exI [of _ "(single m 0 T_Running o1 g)\<lparr>bs_fault := Some e\<rparr>"]) auto
next
  case (Inr g1)
  then obtain q where "RunOnce os (vcpu_of m 0) g = Inr (q, g1)" "q \<noteq> 0"
    using assms(2) by (auto simp: stops_def split: sum.splits)
  then have 1: "boot_step os m r0 s0 run0 (single m 0 T_Running o1 g) (single m 0 T_Stopping o1 g1)"
    by (simp add: single_step_iff [OF assms(1)] single_thread_turn)
  obtain r out' g2 where stop: "stop_running os (vcpu_of m 0) r0 s0 o1 g1 = (r, out', g2)"
    by (metis prod_cases3)
  let ?fin = "\<lambda>j. single m j (T_Done r) out' g2"
  have 2: "boot_step os m r0 s0 run0 (single m 0 T_Stopping o1 g1) (?fin 0)"
    using stop by (simp add: single_step_iff [OF assms(1)] single_thread_turn)
  have 3: "boot_step os m r0 s0 run0 (?fin 0) (?fin 1)"
    "boot_step os m r0 s0 run0 (?fin 1) ((?fin 1)\<lparr>bs_result := Some 0\<rparr>)"
    by (simp_all add: single_step_iff [OF assms(1)])
  have "boots os m r0 s0 run0 (single m 0 T_Running o1 g) ((?fin 1)\<lparr>bs_result := Some 0\<rparr>)"
    using 1 2 3 by (meson converse_rtranclp_into_rtranclp rtranclp.rtrancl_refl)
  moreover have "boot_outcome ((?fin 1)\<lparr>bs_result := Some 0\<rparr>) (Inr (r, out', g2))"
    by (auto simp: single_def thread_guest_def split: prod.splits)
  ultimately show ?thesis using Inr stop by auto
qed

section \<open>Properties\<close>

lemma boot_inv_steps:
  assumes "boot_inv m s" "running s"
  shows "\<exists>s'. boot_step os m r0 s0 run0 s s'"
proof (cases "all_spawned m s")
  case False
  then show ?thesis using assms(2) boot_step.spawn by blast
next
  case True
  show ?thesis
  proof (cases "bs_joined s < length (bs_threads s)")
    case False
    then have "bs_joined s = length (bs_threads s)" using assms(1) by (simp add: boot_inv_def)
    then show ?thesis using assms(2) True boot_step.return by blast
  next
    case less: True
    then show ?thesis
      using boot_step.join [OF assms(2) True less] boot_step.thread [OF assms(2) less] by blast
  qed
qed

text \<open>A fault can only come from a turn of a vCPU thread.\<close>

lemma boot_fault_step:
  assumes "machine_ready m" "boot_inv m s" "boot_step os m r0 s0 run0 s s'" "bs_fault s' = Some e"
  obtains i where "i < length (bs_threads s)" "th_phase (bs_threads s ! i) = T_Running"
    "RunOnce os (th_vcpu (bs_threads s ! i)) (thread_guest s (bs_threads s ! i)) = Inl e"
  using assms(3)
proof (cases rule: boot_step.cases)
  case spawn
  then have False
    using assms(1,2,4)
    by (auto simp: boot_spawn_def running_def machine_ready_def boot_inv_def all_spawned_def Let_def
        split: if_splits)
  then show ?thesis ..
next
  case (thread i)
  then show ?thesis
    using assms(4) that [of i]
    by (auto simp: thread_turn_def put_guest_def running_def Let_def
        split: thread_phase.splits sum.splits prod.splits if_splits)
next
  case (reader c)
  then show ?thesis using assms(4)
    by (auto simp: reader_turn_def running_def Let_def split: prod.splits if_splits)
qed (use assms(4) in \<open>auto simp: running_def\<close>)

text \<open>The turn that faulted had an access to port 0xFFFF as its exit.\<close>

lemma RunOnce_fault:
  assumes "vcpu_pio v = machine_pio" "devices_inv devs" "RunOnce os v (run, (devs, h)) = Inl e"
  shows "e = Out_Of_Bounds \<and> (\<exists>r run' h'. Run os v (run, h) = (r, run', h')
    \<and> run_exit_reason run' = KVM_EXIT_IO \<and> run_port run' = 0xFFFF)"
proof -
  obtain r run' h' where run: "Run os v (run, h) = (r, run', h')" by (cases "Run os v (run, h)")
  then show ?thesis
    using handle_exit_fault [OF assms(1), of "(devs, h')" os "run_exit_reason run'" run' e] assms(2,3)
    by (auto simp: RunOnce_exit)
qed

lemma boot_faults:
  assumes "machine_ready m" "errno_positive os"
    and "boots os m r0 s0 run0 (boot_start m reader out k) s" "bs_fault s = Some e"
  shows "e = Out_Of_Bounds \<and>
    (\<exists>s1 i r run' h'. boots os m r0 s0 run0 (boot_start m reader out k) s1 \<and> i < length (bs_threads s1)
       \<and> Run os (th_vcpu (bs_threads s1 ! i)) (th_run (bs_threads s1 ! i),
            \<lparr>kern = bs_kern s1, errno = th_errno (bs_threads s1 ! i)\<rparr>) = (r, run', h')
       \<and> run_exit_reason run' = KVM_EXIT_IO \<and> run_port run' = 0xFFFF)"
proof (rule boot.path_last [OF assms(3)], goal_cases)
  case 1
  then show ?case using assms(1,2) by (simp add: boot_inv_start)
next
  case 2
  then show ?case using assms(4) by (simp add: boot_start_def)
next
  case (3 s1)
  then have inv: "boot_inv m s1" by blast
  obtain i where i: "i < length (bs_threads s1)"
    "RunOnce os (th_vcpu (bs_threads s1 ! i)) (thread_guest s1 (bs_threads s1 ! i)) = Inl e"
    by (rule boot_fault_step [OF assms(1) inv 3(3) assms(4)])
  then have "vcpu_pio (th_vcpu (bs_threads s1 ! i)) = machine_pio" "devices_inv (bs_devs s1)"
    using inv by (simp_all add: boot_inv_def thread_inv_def)
  from RunOnce_fault [OF this i(2) [unfolded thread_guest_def]] i(1) 3(1)
  show ?case by blast
qed

text \<open>When \<^verbatim>\<open>Boot\<close> has returned, every vCPU has had its thread and every thread has failed.\<close>

lemma boot_results:
  assumes "machine_ready m" "boot_inv m s" "bs_result s = Some r"
  shows "r = 0 \<and> length (bs_threads s) = length (m_vcpus m)
    \<and> (\<forall>t \<in> set (bs_threads s). \<exists>q. th_phase t = T_Done q \<and> q \<noteq> 0)"
proof -
  have "\<exists>q. th_phase t = T_Done q \<and> q \<noteq> 0" if t: "t \<in> set (bs_threads s)" for t
  proof -
    obtain i where i: "i < length (bs_threads s)" "t = bs_threads s ! i"
      using t by (metis in_set_conv_nth)
    then have "thread_done t" "thread_inv t" using assms(2,3) by (auto simp: boot_inv_def)
    then show ?thesis by (force simp: thread_done_def thread_inv_def split: thread_phase.splits)
  qed
  then show ?thesis
    using assms by (auto simp: boot_inv_def machine_ready_def all_spawned_def)
qed

text \<open>A kernel on which a machine of the given size is ready to boot, for the witnesses.\<close>

definition sample_machine :: machine where
  "sample_machine = tiny_vm\<lparr>m_devs := new_devices 0, m_pio := machine_pio,
     m_vcpus := [\<lparr>vo_fd = 5, vo_run = 0\<rparr>]\<rparr>"

lemma sample_machine_ready: "machine_ready sample_machine"
  using bus_inv_new [of 0]
  by (simp add: machine_ready_def sample_machine_def tiny_vm_def tiny_config_def devices_inv_def)

lemma sample_vcpu_of: "vcpu_of sample_machine 0 = sample_vcpu"
  by (simp add: vcpu_of_def sample_machine_def sample_vcpu_def tiny_vm_def)

abbreviation (input) idle_run :: "nat \<Rightarrow> kvm_run" where
  "idle_run \<equiv> \<lambda>_. io_exit KVM_EXIT_IO_IN 0 0 (\<lambda>_. 0)"

text \<open>C8: Whatever the threads of a booted machine do and however they interleave, on a kernel whose
  failing calls set \<^verbatim>\<open>errno\<close> and from devices in good order (the uninitialised CMOS index lying in its
  memory), the devices keep their invariants, and the process goes wrong only through the one missing table row: in a state
  that was reached before, a vCPU thread got an access to port 0xFFFF as its exit.\<close>

theorem boot_safe:
  assumes "machine_ready m" "errno_positive os"
    and "boots os m r0 s0 run0 (boot_start m reader out k) s"
  shows "devices_inv (bs_devs s) \<and> (\<forall>e. bs_fault s = Some e \<longrightarrow> e = Out_Of_Bounds \<and>
    (\<exists>s1 i r run' h'. boots os m r0 s0 run0 (boot_start m reader out k) s1 \<and> i < length (bs_threads s1)
       \<and> Run os (th_vcpu (bs_threads s1 ! i)) (th_run (bs_threads s1 ! i),
            \<lparr>kern = bs_kern s1, errno = th_errno (bs_threads s1 ! i)\<rparr>) = (r, run', h')
       \<and> run_exit_reason run' = KVM_EXIT_IO \<and> run_port run' = 0xFFFF))"
  using boot_faults [OF assms] boot_inv_reachable [OF assms] unfolding boot_inv_def by blast

theorem boot_safe_witness:
  "\<exists>s. boots sample_os sample_machine sample_regs sample_sregs idle_run
      (boot_start sample_machine True empty_console (sample_kernel [] [])) s
    \<and> length (bs_threads s) = 1 \<and> devices_inv (bs_devs s)"
proof -
  let ?s = "boot_start sample_machine True empty_console (sample_kernel [] [])"
  have "boot_step sample_os sample_machine sample_regs sample_sregs idle_run ?s
      (boot_spawn sample_machine idle_run ?s)"
    by (rule boot_step.spawn)
      (simp_all add: running_def all_spawned_def boot_start_def sample_machine_def tiny_vm_def tiny_config_def)
  then have b: "boots sample_os sample_machine sample_regs sample_sregs idle_run ?s
      (boot_spawn sample_machine idle_run ?s)" by (rule r_into_rtranclp)
  have "length (bs_threads (boot_spawn sample_machine idle_run ?s)) = 1"
    by (simp add: boot_spawn_def boot_start_def sample_machine_def Let_def)
  with boot_safe [OF sample_machine_ready sample_errno_positive b] b show ?thesis by blast
qed

text \<open>C13: The threads never block each other: a booting process can go on until it has gone wrong or
  \<^verbatim>\<open>Boot\<close> has returned; and \<^verbatim>\<open>Boot\<close> returns, with 0, only when every vCPU has its thread and every
  one of them has ended, none with success.\<close>

theorem boot_ends_iff:
  assumes "machine_ready m" "errno_positive os"
    and "boots os m r0 s0 run0 (boot_start m reader out k) s"
  shows "(\<nexists>s'. boot_step os m r0 s0 run0 s s') \<longleftrightarrow> bs_fault s \<noteq> None \<or>
    bs_result s = Some 0 \<and> length (bs_threads s) = length (m_vcpus m)
      \<and> (\<forall>t \<in> set (bs_threads s). \<exists>r. th_phase t = T_Done r \<and> r \<noteq> 0)"
proof -
  have inv: "boot_inv m s" by (rule boot_inv_reachable [OF assms])
  have "(\<nexists>s'. boot_step os m r0 s0 run0 s s') \<longleftrightarrow> \<not> running s"
    using boot_inv_steps [OF inv] boot_step_running by blast
  then show ?thesis using boot_results [OF assms(1) inv] unfolding running_def by (cases "bs_result s") auto
qed

theorem boot_ends_iff_witness:
  "\<exists>s. boots sample_os sample_machine sample_regs sample_sregs idle_run
      (boot_start sample_machine False empty_console (sample_kernel [] [])) s
    \<and> running s \<and> (\<exists>s'. boot_step sample_os sample_machine sample_regs sample_sregs idle_run s s')"
proof -
  have m: "length (m_vcpus sample_machine) = 1" "conf_vcpu_num (m_conf sample_machine) = 1"
    by (simp_all add: sample_machine_def tiny_vm_def tiny_config_def)
  let ?s = "single sample_machine 0 T_Running (single_out sample_machine empty_console)
      (single_guest sample_machine idle_run (sample_kernel [] []))"
  have b: "boots sample_os sample_machine sample_regs sample_sregs idle_run
      (boot_start sample_machine False empty_console (sample_kernel [] [])) ?s"
    by (rule single_boots_to_loop [OF m])
  have "\<exists>s'. boot_step sample_os sample_machine sample_regs sample_sregs idle_run ?s s'"
    using boot_ends_iff [OF sample_machine_ready sample_errno_positive b] by simp
  then show ?thesis by - (rule exI [of _ ?s], intro conjI b single_simps(9))
qed

text \<open>C9: With one vCPU and no more standard input, the threads of \<^verbatim>\<open>Boot\<close> carry out the run loop as
  it is on its own: the process can reach an outcome (the fault that ends it, or the return of
  \<^verbatim>\<open>Boot\<close> with the thread's result, the text printed and the state left) exactly when that is
  the outcome of \<^verbatim>\<open>RunLoop\<close>; in particular it has no other one.\<close>

theorem boot_single_vcpu:
  assumes "length (m_vcpus m) = 1" "conf_vcpu_num (m_conf m) = 1"
  shows "(\<exists>s. boots os m r0 s0 run0 (boot_start m False out k) s \<and> boot_outcome s x) \<longleftrightarrow>
    RunLoop os (vcpu_of m 0) r0 s0 (boot_banner 0 out) (single_guest m run0 k) = Some x"
proof
  assume "\<exists>s. boots os m r0 s0 run0 (boot_start m False out k) s \<and> boot_outcome s x"
  then obtain s where "boots os m r0 s0 run0 (boot_start m False out k) s" and s: "boot_outcome s x"
    by (elim exE conjE)
  then have "single_state os m r0 s0 run0 out k s" using single_state_reachable [OF assms] by metis
  then show "RunLoop os (vcpu_of m 0) r0 s0 (boot_banner 0 out) (single_guest m run0 k) = Some x"
    using s by (rule single_state_outcome)
next
  assume "RunLoop os (vcpu_of m 0) r0 s0 (boot_banner 0 out) (single_guest m run0 k) = Some x"
  then obtain y where "run_while os (vcpu_of m 0) (single_guest m run0 k) = Some y"
    and x: "x = map_sum id (stop_running os (vcpu_of m 0) r0 s0 (single_out m out)) y"
    by (auto simp: RunLoop_alt single_out_def)
  then obtain g where g: "(keeps_running os (vcpu_of m 0))\<^sup>*\<^sup>* (single_guest m run0 k) g"
    "stops os (vcpu_of m 0) g y"
    using run_while_iff by blast
  obtain s where s: "boots os m r0 s0 run0 (single m 0 T_Running (single_out m out) g) s" "boot_outcome s x"
    using single_boots_to_end [OF assms(2) g(2)] x by blast
  have "boots os m r0 s0 run0 (boot_start m False out k) s"
    using single_boots_to_loop [OF assms] single_boots_running [OF assms(2) g(1)] s(1)
    by (meson rtranclp_trans)
  with s(2) show "\<exists>s. boots os m r0 s0 run0 (boot_start m False out k) s \<and> boot_outcome s x" by blast
qed

theorem boot_single_vcpu_witness:
  "\<exists>s x. boots sample_os sample_machine sample_regs sample_sregs idle_run
       (boot_start sample_machine False empty_console (sample_kernel [] [])) s \<and> boot_outcome s (Inr x)"
proof -
  have m: "length (m_vcpus sample_machine) = 1" "conf_vcpu_num (m_conf sample_machine) = 1"
    by (simp_all add: sample_machine_def tiny_vm_def tiny_config_def)
  have "single_guest sample_machine idle_run (sample_kernel [] []) = sample_guest []"
    by (simp add: single_guest_def sample_guest_def sample_host_def sample_machine_def)
  then obtain r out' g where "RunLoop sample_os (vcpu_of sample_machine 0) sample_regs sample_sregs
      (boot_banner 0 empty_console) (single_guest sample_machine idle_run (sample_kernel [] []))
      = Some (Inr (r, out', g))"
    using sample_RunLoop_halt [of sample_regs sample_sregs "boot_banner 0 empty_console"]
    by (metis sample_vcpu_of)
  then have "\<exists>s. boots sample_os sample_machine sample_regs sample_sregs idle_run
       (boot_start sample_machine False empty_console (sample_kernel [] [])) s \<and> boot_outcome s (Inr (r, out', g))"
    by (simp only: boot_single_vcpu [OF m])
  then show ?thesis by (elim exE conjE) (intro exI conjI)
qed

end
