(* ===== verification/DeviceTypes.thy ===== *)
theory DeviceTypes
  imports VmBoot
begin

text \<open>
  What a boot may do to its devices. The locale \<open>guest_relation\<close> lifts a relation between a device
  before and after an access of a guest to the turns of the vCPU threads of \<open>VmBoot\<close>, its extension
  \<open>device_relation\<close> to all steps; it is interpreted for
  the class of a device (the objects behind the pointers of \<^verbatim>\<open>VM::iodev\<close> keep their dynamic type, so
  that the closures of the port table call the methods of the class whose ports they serve) and for
  the members of \<^verbatim>\<open>COM1\<close> that no operation of a running machine writes.
\<close>

section \<open>From a device to the machine\<close>

locale guest_relation =
  fixes os :: "'k os" and dev_rel :: "device \<Rightarrow> device \<Rightarrow> bool"
  assumes rel_refl: "dev_rel d d"
    and rel_trans: "dev_rel d1 d2 \<Longrightarrow> dev_rel d2 d3 \<Longrightarrow> dev_rel d1 d3"
    and read_rel: "dev_Read os p b n (d, h) = Inr (r, b', (d', h')) \<Longrightarrow> dev_rel d d'"
    and write_rel: "dev_Write os fd p b n (d, h) = Inr (r, b', (d', h')) \<Longrightarrow> dev_rel d d'"
begin

abbreviation devs_rel :: "device list \<Rightarrow> device list \<Rightarrow> bool" where
  "devs_rel \<equiv> list_all2 dev_rel"

lemma devs_refl: "devs_rel devs devs"
  by (simp add: list_all2_refl rel_refl)

lemma devs_trans: "devs_rel d1 d2 \<Longrightarrow> devs_rel d2 d3 \<Longrightarrow> devs_rel d1 d3"
  by (rule list_all2_trans [OF rel_trans])

lemma devs_update: "i < length devs \<Longrightarrow> dev_rel (devs ! i) d \<Longrightarrow> devs_rel devs (devs[i := d])"
  by (auto simp: list_all2_conv_all_nth nth_list_update rel_refl)

lemma call_rel:
  assumes "pio_call os fd f p b n s = Inr (r, b', s')"
  shows "devs_rel (fst s) (fst s')"
proof (cases s)
  case (Pair devs h)
  then show ?thesis
    using assms
    by (cases f)
      (auto simp: devs_refl default_pio_handler_def do_nothing_pio_handler_def reset_generator_handler_out_def
        intro!: devs_update dest: read_rel write_rel split: if_splits)
qed

lemma access_rel:
  "pio_access os fd tab d p b n s = Inr (r, b', s') \<Longrightarrow> devs_rel (fst s) (fst s')"
  by (auto simp: pio_access_def simp del: pio_call.simps dest: call_rel split: if_splits option.splits)

lemma repeat_rel:
  "io_repeat c (pio_access os fd tab d) p b n s = Inr (r, b', s') \<Longrightarrow> devs_rel (fst s) (fst s')"
proof (induction c arbitrary: b s)
  case 0
  then show ?case by (simp add: devs_refl)
next
  case (Suc c)
  from Suc.prems obtain r1 b1 s1 where x: "pio_access os fd tab d p b n s = Inr (r1, b1, s1)"
    and y: "(if r1 \<noteq> 0 then Inr (1, b1, s1) else io_repeat c (pio_access os fd tab d) p b1 n s1)
      = Inr (r, b', s')"
    by auto
  show ?case using access_rel [OF x] y Suc.IH devs_trans by (auto split: if_splits)
qed

lemma exit_rel:
  "handle_exit os v x (run, b) = Inr (r, (run', b')) \<Longrightarrow> devs_rel (fst b) (fst b')"
  by (cases x) (auto simp: devs_refl dest: repeat_rel)

lemma RunOnce_rel:
  assumes "RunOnce os v s = Inr (r, s')"
  shows "devs_rel (fst (snd s)) (fst (snd s'))"
proof -
  obtain run devs h where s: "s = (run, (devs, h))" by (cases s) auto
  obtain rr run1 h1 where run: "Run os v (run, h) = (rr, run1, h1)" by (cases "Run os v (run, h)")
  obtain run2 b2 where "s' = (run2, b2)" by (cases s')
  then show ?thesis using assms exit_rel unfolding s RunOnce_exit [OF run] by fastforce
qed

lemma turn_rel: "devs_rel (bs_devs s) (bs_devs (thread_turn os r0 s0 i s))"
proof (cases "th_phase (bs_threads s ! i)")
  case T_Running
  then show ?thesis
    using RunOnce_rel [of "th_vcpu (bs_threads s ! i)" "thread_guest s (bs_threads s ! i)"]
    by (auto simp: thread_turn_def Let_def put_guest_def thread_guest_def devs_refl split: sum.splits)
next
  case T_Stopping
  obtain r out g' where stop: "stop_running os (th_vcpu (bs_threads s ! i)) r0 s0 (bs_out s)
      (thread_guest s (bs_threads s ! i)) = (r, out, g')" by (metis prod_cases3)
  then have "\<exists>h'. snd g' = (bs_devs s, h')"
    by (auto simp: thread_guest_def stop_running_def dump_and_stop_def split: prod.splits if_splits)
  then show ?thesis
    using stop T_Stopping by (cases g') (auto simp: thread_turn_def Let_def put_guest_def devs_refl)
qed (simp_all add: thread_turn_def Let_def put_guest_def thread_guest_def devs_refl)

text \<open>A step of a boot is a turn of the reader, or it moves the devices as guests do.\<close>

lemma step_rel_or_reader:
  assumes "boot_step os m r0 s0 run0 s s'"
  shows "devs_rel (bs_devs s) (bs_devs s') \<or>
    (\<exists>c. bs_reader s \<and> 2 < length (bs_devs s) \<and> bs_devs s ! 2 = D_Com1 c \<and> s' = reader_turn os (m_fd m) c s)"
  using assms by (cases rule: boot_step.cases) (simp_all add: devs_refl turn_rel boot_spawn_def Let_def)

end

text \<open>With the reader thread.\<close>

locale device_relation = guest_relation +
  assumes reader_rel: "reader_iter os fd (c, h) = (g, c', h') \<Longrightarrow> dev_rel (D_Com1 c) (D_Com1 c')"
begin

lemma reader_turn_rel:
  assumes "2 < length (bs_devs s)" "bs_devs s ! 2 = D_Com1 c"
  shows "devs_rel (bs_devs s) (bs_devs (reader_turn os fd c s))"
proof -
  obtain g c' h where r: "reader_iter os fd (c, \<lparr>kern = bs_kern s, errno = bs_reader_errno s\<rparr>) = (g, c', h)"
    by (metis prod_cases3)
  then have "devs_rel (bs_devs s) ((bs_devs s)[2 := D_Com1 c'])"
    using assms devs_update [of 2 "bs_devs s"] reader_rel [OF r] by simp
  then show ?thesis using r by (simp add: reader_turn_def devs_refl)
qed

lemma step_rel: "boot_step os m r0 s0 run0 s s' \<Longrightarrow> devs_rel (bs_devs s) (bs_devs s')"
  using step_rel_or_reader reader_turn_rel by metis

lemma boots_rel: "boots os m r0 s0 run0 s s' \<Longrightarrow> devs_rel (bs_devs s) (bs_devs s')"
  by (induction rule: rtranclp_induct) (auto intro: devs_refl devs_trans dest: step_rel)

end

section \<open>The class of a device\<close>

lemma dev_Read_class: "dev_Read os p b n (d, h) = Inr (r, b', (d', h')) \<Longrightarrow> iodev_of d' = iodev_of d"
  by (cases d) (auto simp: iodev_of_def)

lemma dev_Write_class: "dev_Write os fd p b n (d, h) = Inr (r, b', (d', h')) \<Longrightarrow> iodev_of d' = iodev_of d"
  by (cases d) (auto simp: iodev_of_def)

interpretation dev_class: device_relation os "\<lambda>d d'. iodev_of d' = iodev_of d"
  for os :: "'k os"
  by unfold_locales (auto simp: iodev_of_def dest: dev_Read_class dev_Write_class)

lemma dev_class_map: "list_all2 (\<lambda>d d'. iodev_of d' = iodev_of d) devs devs' \<longleftrightarrow> map iodev_of devs' = map iodev_of devs"
  by (auto simp: list_all2_conv_all_nth list_eq_iff_nth_eq)

text \<open>The ports \<^verbatim>\<open>initPIOHandler\<close> registers for an object.\<close>

definition serves :: "iodev \<Rightarrow> u16 \<Rightarrow> bool" where
  "serves d p \<longleftrightarrow> unat (dev_port d) \<le> unat p \<and> unat p < unat (dev_port d) + unat (dev_size d)"

lemma owner_serves:
  "port_owner p = Owned_By i \<Longrightarrow> i < length machine_devices \<and> serves (machine_devices ! i) p"
  by (auto simp: port_owner_def Let_def serves_def machine_devices_def Post_def CMOS_def COM1_def split: if_splits)

lemma machine_pio_owner:
  "machine_pio p d = Some (H_dev_read i) \<Longrightarrow> port_owner p = Owned_By i"
  "machine_pio p d = Some (H_dev_write i) \<Longrightarrow> port_owner p = Owned_By i"
  by (cases d; cases "port_owner p"; simp add: machine_pio_def machine_table split: if_splits)+

lemma iodev_of_COM1: "iodev_of d = COM1 \<longleftrightarrow> (\<exists>c. d = D_Com1 c)"
  by (cases d) (simp_all add: iodev_of_def Post_def CMOS_def COM1_def)

lemma machine_device_2:
  assumes "map iodev_of devs = machine_devices"
  shows "length devs = 3" "\<exists>c. devs ! 2 = D_Com1 c"
proof -
  show len: "length devs = 3" using arg_cong [OF assms, of length] by (simp add: machine_devices_def)
  have "map iodev_of devs ! 2 = COM1" by (simp add: assms machine_devices_def)
  then show "\<exists>c. devs ! 2 = D_Com1 c" using len by (simp add: iodev_of_COM1)
qed

lemma boot_devices:
  assumes "map iodev_of (m_devs m) = machine_devices"
    and "boots os m r0 s0 run0 (boot_start m reader out k) s"
  shows "map iodev_of (bs_devs s) = machine_devices"
  using dev_class.boots_rel [OF assms(2)] assms(1) by (simp add: dev_class_map boot_start_def)

section \<open>What nothing writes\<close>

text \<open>
  The members of \<^verbatim>\<open>COM1\<close> that are read but that only the constructor, or the destructor, sets. (The
  registers that a read of the port computes have members as well, which stay 0.)
\<close>

definition com1_fixed :: "com1 \<Rightarrow> bool \<times> u8 \<times> u8 \<times> u8 \<times> u8 \<times> u8" where
  "com1_fixed c = (shutting_down c, com_THR c, com_RBR c, com_IIR c, com_LSR c, com_MSR c)"

fun device_fixed :: "device \<Rightarrow> (bool \<times> u8 \<times> u8 \<times> u8 \<times> u8 \<times> u8) option" where
  "device_fixed (D_Com1 c) = Some (com1_fixed c)"
| "device_fixed _ = None"

lemma com1_Read_fixed: "com1_Read p b n (c, h) = Inr (r, b', (c', h')) \<Longrightarrow> com1_fixed c' = com1_fixed c"
  by (auto simp: com1_Read_def com1_rbr_def com1_fixed_def Let_def split: if_splits list.splits prod.splits)

lemma com1_Write_fixed: "com1_Write os fd p b n (c, h) = Inr (r, b', (c', h')) \<Longrightarrow> com1_fixed c' = com1_fixed c"
  using com1_transmit_com [of os fd "b 0" c h]
  by (auto simp: com1_Write_def com1_fixed_def ier_store_def rx_push_def Let_def split: if_splits prod.splits)

lemma reader_iter_fixed: "reader_iter os fd (c, h) = (g, c', h') \<Longrightarrow> com1_fixed c' = com1_fixed c"
  by (auto simp: reader_iter_def com1_fixed_def rx_push_def Let_def split: if_splits prod.splits)

lemma dev_Read_fixed: "dev_Read os p b n (d, h) = Inr (r, b', (d', h')) \<Longrightarrow> device_fixed d' = device_fixed d"
  by (cases d) (auto dest: com1_Read_fixed)

lemma dev_Write_fixed: "dev_Write os fd p b n (d, h) = Inr (r, b', (d', h')) \<Longrightarrow> device_fixed d' = device_fixed d"
  by (cases d) (auto dest: com1_Write_fixed)

interpretation fixed: device_relation os "\<lambda>d d'. device_fixed d' = device_fixed d"
  for os :: "'k os"
  by unfold_locales (auto dest: dev_Read_fixed dev_Write_fixed reader_iter_fixed)


section \<open>The reader thread\<close>

lemma thread_turn_reader [simp]: "bs_reader (thread_turn os r0 s0 i s) = bs_reader s"
  by (auto simp: thread_turn_def Let_def put_guest_def split: thread_phase.splits sum.splits prod.splits)

lemma reader_turn_ends:
  assumes "bs_reader s" "\<not> bs_reader (reader_turn os fd c s)" "\<not> shutting_down c"
  shows "\<exists>x k'. os_read os (bs_kern s) = ((0, x), k')"
  using assms by (auto simp: reader_turn_def reader_iter_def Let_def split: prod.splits if_splits)

lemma boot_step_reader:
  assumes "boot_step os m r0 s0 run0 s s'" "bs_reader s" "\<not> bs_reader s'"
  obtains c where "2 < length (bs_devs s)" "bs_devs s ! 2 = D_Com1 c" "s' = reader_turn os (m_fd m) c s"
  using assms(1)
proof (cases rule: boot_step.cases)
  case (reader c)
  then show ?thesis using that by blast
qed (use assms(2,3) in \<open>simp_all add: boot_spawn_def Let_def split: if_splits\<close>)

lemma boots_reader_end:
  assumes "boots os m r0 s0 run0 s s'" "bs_reader s" "\<not> bs_reader s'"
  obtains s1 c where "boots os m r0 s0 run0 s s1" "bs_reader s1" "2 < length (bs_devs s1)"
    "bs_devs s1 ! 2 = D_Com1 c" "\<not> bs_reader (reader_turn os (m_fd m) c s1)"
  using assms(1,3)
proof (induction arbitrary: thesis rule: rtranclp_induct)
  case base
  then show ?case using assms(2) by simp
next
  case (step s1 s2)
  show ?case
  proof (cases "bs_reader s1")
    case True
    from boot_step_reader [OF step.hyps(2) True step.prems(2)]
    obtain c where "2 < length (bs_devs s1)" "bs_devs s1 ! 2 = D_Com1 c" "s2 = reader_turn os (m_fd m) c s1" .
    with step.prems(1) [OF step.hyps(1) True] step.prems(2) show ?thesis by metis
  qed (use step in metis)
qed

section \<open>Properties\<close>

text \<open>The machine stays well typed while its threads run: the three objects keep the classes they
  were constructed with, so that every closure in the port table of every vCPU thread finds an
  object at its position whose class serves the port it was registered for, and the reader thread
  finds the serial port at the third position and is never stuck.\<close>

lemma boot_devices_typed:
  assumes "machine_ready m" "errno_positive os" "map iodev_of (m_devs m) = machine_devices"
    and "boots os m r0 s0 run0 (boot_start m reader out k) s"
  shows "map iodev_of (bs_devs s) = machine_devices
    \<and> (\<forall>t \<in> set (bs_threads s). \<forall>p d i.
         vcpu_pio (th_vcpu t) p d = Some (H_dev_read i) \<or> vcpu_pio (th_vcpu t) p d = Some (H_dev_write i) \<longrightarrow>
         i < length (bs_devs s) \<and> serves (iodev_of (bs_devs s ! i)) p)
    \<and> (running s \<and> bs_reader s \<longrightarrow> (\<exists>c. bs_devs s ! 2 = D_Com1 c
         \<and> boot_step os m r0 s0 run0 s (reader_turn os (m_fd m) c s)))"
proof (intro conjI ballI allI impI)
  show devs: "map iodev_of (bs_devs s) = machine_devices" by (rule boot_devices [OF assms(3,4)])
  note com1 = machine_device_2 [OF devs]
  show "i < length (bs_devs s)" "serves (iodev_of (bs_devs s ! i)) p"
    if "t \<in> set (bs_threads s)"
      "vcpu_pio (th_vcpu t) p d = Some (H_dev_read i) \<or> vcpu_pio (th_vcpu t) p d = Some (H_dev_write i)"
    for t p d i
  proof -
    have "vcpu_pio (th_vcpu t) = machine_pio"
      using boot_inv_reachable [OF assms(1,2,4)] that(1) by (simp add: boot_inv_def thread_inv_def)
    then have "port_owner p = Owned_By i" using that(2) machine_pio_owner by metis
    from owner_serves [OF this] have "i < length machine_devices" "serves (machine_devices ! i) p" by simp_all
    then show "i < length (bs_devs s)" "serves (iodev_of (bs_devs s ! i)) p"
      using com1(1) by (simp_all add: devs [symmetric])
  qed
  show "\<exists>c. bs_devs s ! 2 = D_Com1 c \<and> boot_step os m r0 s0 run0 s (reader_turn os (m_fd m) c s)"
    if "running s \<and> bs_reader s"
    using com1 that boot_step.reader [of s _ os m] by auto
qed

text \<open>C33: The reader thread of a running machine listens for as long as standard input lasts: it ends
  only after a read that met the end of the input. (A failed read is tried again, and nothing a
  guest or another thread does sets \<^verbatim>\<open>shutting_down\<close>.)\<close>

theorem reader_ends_at_eof:
  assumes "m_devs m ! 2 = D_Com1 c" "2 < length (m_devs m)" "\<not> shutting_down c"
    and "boots os m r0 s0 run0 (boot_start m True out k) s" "\<not> bs_reader s"
  shows "\<exists>s1 x k'. boots os m r0 s0 run0 (boot_start m True out k) s1 \<and> bs_reader s1
    \<and> os_read os (bs_kern s1) = ((0, x), k')"
proof -
  have "bs_reader (boot_start m True out k)" by (simp add: boot_start_def)
  from boots_reader_end [OF assms(4) this assms(5)]
  obtain s1 c1 where s1: "boots os m r0 s0 run0 (boot_start m True out k) s1" "bs_reader s1"
    "2 < length (bs_devs s1)" "bs_devs s1 ! 2 = D_Com1 c1" "\<not> bs_reader (reader_turn os (m_fd m) c1 s1)" .
  have "list_all2 (\<lambda>d d'. device_fixed d' = device_fixed d) (m_devs m) (bs_devs s1)"
    using fixed.boots_rel [OF s1(1)] by (simp add: boot_start_def)
  from list_all2_nthD [OF this assms(2)] have "com1_fixed c1 = com1_fixed c"
    using assms(1) s1(4) by simp
  then have "\<not> shutting_down c1" using assms(3) by (simp add: com1_fixed_def)
  from reader_turn_ends [OF s1(2,5) this] s1(1,2) show ?thesis by blast
qed

theorem reader_ends_at_eof_witness:
  "\<exists>s1 x k'. boots sample_os sample_machine sample_regs sample_sregs idle_run
      (boot_start sample_machine True empty_console (sample_kernel [] [])) s1 \<and> bs_reader s1
    \<and> os_read sample_os (bs_kern s1) = ((0, x), k')"
proof (rule reader_ends_at_eof)
  let ?s = "boot_start sample_machine True empty_console (sample_kernel [] [])"
  show "m_devs sample_machine ! 2 = D_Com1 com1_new" "2 < length (m_devs sample_machine)"
    by (simp_all add: sample_machine_def new_devices_def)
  then have "boot_step sample_os sample_machine sample_regs sample_sregs idle_run ?s
      (reader_turn sample_os (m_fd sample_machine) com1_new ?s)"
    by (intro boot_step.reader) (simp_all add: running_def boot_start_def)
  then show "boots sample_os sample_machine sample_regs sample_sregs idle_run ?s
      (reader_turn sample_os (m_fd sample_machine) com1_new ?s)"
    by (rule r_into_rtranclp)
  show "\<not> bs_reader (reader_turn sample_os (m_fd sample_machine) com1_new ?s)"
    by (simp add: reader_turn_def reader_iter_def boot_start_def com1_new_def sample_kernel_def
        sample_os_def)
qed (simp add: com1_new_def)

end
