(* ===== verification/SerialHistory.thy ===== *)
theory SerialHistory
  imports DeviceTypes
begin

text \<open>
  The bytes the serial port receives, along a whole boot: what the reader thread takes from standard
  input, what the guest sends itself through the loopback, and what an exit of a vCPU takes out and
  hands to its guest. A boot is followed step by step with the events of its turns; each event is
  computed from the state before the turn and the state it leads to, not from the port's operations.
\<close>

section \<open>Events\<close>

text \<open>
  A byte from the host; a byte from the loopback; an input exit of \<open>n\<close> elements from the receive
  buffer, with the bytes it takes out of the queue and the byte it leaves at the place of the data
  in the area of its thread.
\<close>

datatype serial_event = From_Host u8 | From_Loop u8 | Guest_In nat "u8 list" u8

fun event_in :: "serial_event \<Rightarrow> u8 list" where
  "event_in (From_Host x) = [x]"
| "event_in (From_Loop x) = [x]"
| "event_in (Guest_In n taken x) = []"

fun event_taken :: "serial_event \<Rightarrow> u8 list" where
  "event_taken (Guest_In n taken x) = taken"
| "event_taken e = []"

text \<open>What the guest gets: one byte for an exit that took any.\<close>

fun event_delivered :: "serial_event \<Rightarrow> u8 list" where
  "event_delivered (Guest_In n taken x) = (if taken = [] then [] else [x])"
| "event_delivered e = []"

definition bytes_in :: "serial_event list \<Rightarrow> u8 list" where
  "bytes_in es = concat (map event_in es)"

definition bytes_taken :: "serial_event list \<Rightarrow> u8 list" where
  "bytes_taken es = concat (map event_taken es)"

definition bytes_delivered :: "serial_event list \<Rightarrow> u8 list" where
  "bytes_delivered es = concat (map event_delivered es)"

lemma bytes_simps [simp]:
  "bytes_in [] = []" "bytes_taken [] = []" "bytes_delivered [] = []"
  "bytes_in (es @ fs) = bytes_in es @ bytes_in fs"
  "bytes_taken (es @ fs) = bytes_taken es @ bytes_taken fs"
  "bytes_delivered (es @ fs) = bytes_delivered es @ bytes_delivered fs"
  by (simp_all add: bytes_in_def bytes_taken_def bytes_delivered_def)

lemma bytes_in_loop: "bytes_in (map From_Loop xs) = xs" "bytes_taken (map From_Loop xs) = []"
  by (induction xs) (simp_all add: bytes_in_def bytes_taken_def)

text \<open>The exit in the area \<open>run\<close>, on the port \<open>c\<close>; \<open>x\<close> is the byte at the place of the data afterwards.\<close>

definition exit_events :: "kvm_run \<Rightarrow> com1 \<Rightarrow> u8 \<Rightarrow> serial_event list" where
  "exit_events run c x =
     (if run_exit_reason run = KVM_EXIT_IO \<and> run_port run = PIO_PORT_COM1_THR_RBR_DLL \<and> \<not> is_dlab_set c
      then (case run_direction run of
              KVM_EXIT_IO_IN \<Rightarrow> [Guest_In (unat (run_count run)) (take (unat (run_count run)) (rx_buf c)) x]
            | KVM_EXIT_IO_OUT \<Rightarrow>
                if is_loop_set c then map From_Loop (replicate (unat (run_count run)) (run_data run 0)) else [])
      else [])"

section \<open>One access\<close>

text \<open>The bytes an access puts into the queue, and those it takes out.\<close>

definition access_in :: "io_dir \<Rightarrow> u16 \<Rightarrow> buf \<Rightarrow> com1 \<Rightarrow> u8 list" where
  "access_in d p b c =
     (if d = KVM_EXIT_IO_OUT \<and> p = PIO_PORT_COM1_THR_RBR_DLL \<and> \<not> is_dlab_set c \<and> is_loop_set c then [b 0] else [])"

definition takes_byte :: "io_dir \<Rightarrow> u16 \<Rightarrow> com1 \<Rightarrow> bool" where
  "takes_byte d p c \<longleftrightarrow> d = KVM_EXIT_IO_IN \<and> p = PIO_PORT_COM1_THR_RBR_DLL \<and> \<not> is_dlab_set c"

definition front :: "u8 list \<Rightarrow> u8" where
  "front xs = (case xs of [] \<Rightarrow> 0 | x # _ \<Rightarrow> x)"

text \<open>An access leaves the line and modem control alone if it is to the data port.\<close>

definition same_mode :: "com1 \<Rightarrow> com1 \<Rightarrow> bool" where
  "same_mode c c' \<longleftrightarrow> com_LCR c' = com_LCR c \<and> com_MCR c' = com_MCR c"

lemma same_mode_tests: "same_mode c c' \<Longrightarrow> is_dlab_set c' = is_dlab_set c \<and> is_loop_set c' = is_loop_set c"
  by (simp add: same_mode_def is_dlab_set_def is_loop_set_def)

lemma com1_Read_queue:
  assumes "com1_Read p b n (c, h) = Inr (r, b', (c', h'))"
  shows "rx_buf c' = (if takes_byte KVM_EXIT_IO_IN p c then drop 1 (rx_buf c) else rx_buf c)
    \<and> same_mode c c' \<and> (takes_byte KVM_EXIT_IO_IN p c \<longrightarrow> r = 0 \<and> b' 0 = front (rx_buf c))"
  using assms
  by (auto simp: com1_Read_def com1_rbr_def takes_byte_def same_mode_def front_def Let_def
      split: if_splits list.splits prod.splits)

lemma com1_Write_queue:
  assumes "com1_Write os fd p b n (c, h) = Inr (r, b', (c', h'))"
  shows "rx_buf c' = rx_buf c @ access_in KVM_EXIT_IO_OUT p b c
    \<and> (p = PIO_PORT_COM1_THR_RBR_DLL \<longrightarrow> same_mode c c')
    \<and> (access_in KVM_EXIT_IO_OUT p b c \<noteq> [] \<longrightarrow> r = 0) \<and> b' = b"
  using assms com1_transmit_com [of os fd "b 0" c h]
  by (auto simp: com1_Write_def access_in_def same_mode_def ier_store_def rx_push_def Let_def
      split: if_splits prod.splits)

lemma access_queue:
  assumes "pio_access os fd machine_pio d p b n (devs, h) = Inr (r, b', (devs', h'))"
    and "2 < length devs" "devs ! 2 = D_Com1 c"
  shows "length devs' = length devs \<and> (\<exists>c'. devs' ! 2 = D_Com1 c'
    \<and> rx_buf c' = (if takes_byte d p c then drop 1 (rx_buf c) else rx_buf c @ access_in d p b c)
    \<and> (p = PIO_PORT_COM1_THR_RBR_DLL \<longrightarrow> same_mode c c')
    \<and> (takes_byte d p c \<longrightarrow> r = 0 \<and> b' 0 = front (rx_buf c))
    \<and> (access_in d p b c \<noteq> [] \<longrightarrow> r = 0 \<and> b' = b))"
proof (cases "port_owner p = Owned_By 2")
  case True
  then have p: "p \<noteq> 0xFFFF" by (auto simp: port_owner_def)
  show ?thesis
  proof (cases d)
    case KVM_EXIT_IO_IN
    then obtain c' where "com1_Read p b n (c, h) = Inr (r, b', (c', h'))" "devs' = devs[2 := D_Com1 c']"
      using assms p True by (auto simp: pio_access_owner)
    with com1_Read_queue [OF this(1)] show ?thesis
      using assms(2) KVM_EXIT_IO_IN by (auto simp: access_in_def)
  next
    case KVM_EXIT_IO_OUT
    then obtain c' where "com1_Write os fd p b n (c, h) = Inr (r, b', (c', h'))" "devs' = devs[2 := D_Com1 c']"
      using assms p True by (auto simp: pio_access_owner)
    with com1_Write_queue [OF this(1)] show ?thesis
      using assms(2) KVM_EXIT_IO_OUT by (auto simp: takes_byte_def)
  qed
next
  case False
  then have other: "p \<noteq> PIO_PORT_COM1_THR_RBR_DLL" by (auto simp: port_owner_def)
  have "length devs' = length devs \<and> devs' ! 2 = devs ! 2"
    using False pio_read_shape [of os fd p b n devs h r b' devs' h'] pio_write_shape [of os fd p b n devs h r b' devs' h']
      assms(1) by (cases d) (auto simp: nth_list_update)
  then show ?thesis using other assms(3) by (simp add: takes_byte_def access_in_def)
qed

section \<open>An exit\<close>

text \<open>The loop over the elements of the exit.\<close>

lemma repeat_other:
  assumes "io_repeat k (pio_access os fd machine_pio d) p b n (devs, h) = Inr (r, b', (devs', h'))"
    and "2 < length devs" "devs ! 2 = D_Com1 c"
    and "p \<noteq> PIO_PORT_COM1_THR_RBR_DLL \<or> is_dlab_set c \<or> d = KVM_EXIT_IO_OUT \<and> \<not> is_loop_set c"
  shows "length devs' = length devs \<and> (\<exists>c'. devs' ! 2 = D_Com1 c' \<and> rx_buf c' = rx_buf c)"
  using assms
proof (induction k arbitrary: b devs h c)
  case (Suc k)
  from Suc.prems(1) obtain r1 b1 devs1 h1 where
    x: "pio_access os fd machine_pio d p b n (devs, h) = Inr (r1, b1, (devs1, h1))"
    and y: "(if r1 \<noteq> 0 then Inr (1, b1, (devs1, h1))
             else io_repeat k (pio_access os fd machine_pio d) p b1 n (devs1, h1)) = Inr (r, b', (devs', h'))"
    by auto
  have "\<not> takes_byte d p c" "access_in d p b c = []"
    using Suc.prems(4) by (auto simp: takes_byte_def access_in_def)
  with access_queue [OF x Suc.prems(2,3)] obtain c1 where c1: "length devs1 = length devs" "devs1 ! 2 = D_Com1 c1"
    "rx_buf c1 = rx_buf c" "p = PIO_PORT_COM1_THR_RBR_DLL \<longrightarrow> same_mode c c1" by auto
  show ?case
  proof (cases "r1 = 0")
    case True
    have "p \<noteq> PIO_PORT_COM1_THR_RBR_DLL \<or> is_dlab_set c1 \<or> d = KVM_EXIT_IO_OUT \<and> \<not> is_loop_set c1"
      using Suc.prems(4) c1(4) same_mode_tests by metis
    then show ?thesis using Suc.IH [of b1 devs1 h1 c1] y c1 Suc.prems(2) True by simp
  next
    case False
    then show ?thesis using y c1 by simp
  qed
qed auto

text \<open>The byte that \<open>k\<close> accesses leave: that of the last, each of which overwrites the one before.\<close>

definition last_of :: "nat \<Rightarrow> u8 list \<Rightarrow> u8" where
  "last_of k xs = (if length (take k xs) = k then last (take k xs) else 0)"

lemma last_of_Suc: "last_of (Suc k) xs = (if k = 0 then front xs else last_of k (drop 1 xs))"
  by (cases xs; cases k) (auto simp: last_of_def front_def)

lemma repeat_in:
  assumes "io_repeat k (pio_access os fd machine_pio KVM_EXIT_IO_IN) PIO_PORT_COM1_THR_RBR_DLL b n (devs, h)
      = Inr (r, b', (devs', h'))"
    and "2 < length devs" "devs ! 2 = D_Com1 c" "\<not> is_dlab_set c"
  shows "length devs' = length devs \<and> (\<exists>c'. devs' ! 2 = D_Com1 c' \<and> rx_buf c' = drop k (rx_buf c))
    \<and> (0 < k \<longrightarrow> b' 0 = last_of k (rx_buf c))"
  using assms
proof (induction k arbitrary: b devs h c)
  case (Suc k)
  let ?p = "PIO_PORT_COM1_THR_RBR_DLL"
  from Suc.prems(1) obtain r1 b1 devs1 h1 where
    x: "pio_access os fd machine_pio KVM_EXIT_IO_IN ?p b n (devs, h) = Inr (r1, b1, (devs1, h1))"
    and y: "(if r1 \<noteq> 0 then Inr (1, b1, (devs1, h1))
             else io_repeat k (pio_access os fd machine_pio KVM_EXIT_IO_IN) ?p b1 n (devs1, h1)) = Inr (r, b', (devs', h'))"
    by auto
  have t: "takes_byte KVM_EXIT_IO_IN ?p c" using Suc.prems(4) by (simp add: takes_byte_def)
  with access_queue [OF x Suc.prems(2,3)] obtain c1 where c1: "length devs1 = length devs" "devs1 ! 2 = D_Com1 c1"
    "rx_buf c1 = drop 1 (rx_buf c)" "same_mode c c1" "r1 = 0" "b1 0 = front (rx_buf c)" by auto
  have "\<not> is_dlab_set c1" using same_mode_tests [OF c1(4)] Suc.prems(4) by simp
  with Suc.IH [of b1 devs1 h1 c1] y c1 Suc.prems(2)
  have "length devs' = length devs" "\<exists>c'. devs' ! 2 = D_Com1 c' \<and> rx_buf c' = drop k (rx_buf c1)"
    "0 < k \<longrightarrow> b' 0 = last_of k (rx_buf c1)" by simp_all
  moreover have "k = 0 \<Longrightarrow> b' = b1" using y c1(5) by simp
  ultimately show ?case using c1(3,6) by (auto simp: last_of_Suc)
qed auto

lemma repeat_loop:
  assumes "io_repeat k (pio_access os fd machine_pio KVM_EXIT_IO_OUT) PIO_PORT_COM1_THR_RBR_DLL b n (devs, h)
      = Inr (r, b', (devs', h'))"
    and "2 < length devs" "devs ! 2 = D_Com1 c" "\<not> is_dlab_set c" "is_loop_set c"
  shows "length devs' = length devs \<and> (\<exists>c'. devs' ! 2 = D_Com1 c' \<and> rx_buf c' = rx_buf c @ replicate k (b 0))"
  using assms
proof (induction k arbitrary: b devs h c)
  case (Suc k)
  let ?p = "PIO_PORT_COM1_THR_RBR_DLL"
  from Suc.prems(1) obtain r1 b1 devs1 h1 where
    x: "pio_access os fd machine_pio KVM_EXIT_IO_OUT ?p b n (devs, h) = Inr (r1, b1, (devs1, h1))"
    and y: "(if r1 \<noteq> 0 then Inr (1, b1, (devs1, h1))
             else io_repeat k (pio_access os fd machine_pio KVM_EXIT_IO_OUT) ?p b1 n (devs1, h1)) = Inr (r, b', (devs', h'))"
    by auto
  have t: "\<not> takes_byte KVM_EXIT_IO_OUT ?p c" "access_in KVM_EXIT_IO_OUT ?p b c = [b 0]"
    using Suc.prems(4,5) by (simp_all add: takes_byte_def access_in_def)
  with access_queue [OF x Suc.prems(2,3)] obtain c1 where c1: "length devs1 = length devs" "devs1 ! 2 = D_Com1 c1"
    "rx_buf c1 = rx_buf c @ [b 0]" "same_mode c c1" "r1 = 0" "b1 = b" by auto
  have "\<not> is_dlab_set c1" "is_loop_set c1" using same_mode_tests [OF c1(4)] Suc.prems(4,5) by simp_all
  with Suc.IH [of b1 devs1 h1 c1] y c1 Suc.prems(2) show ?case
    by (simp add: replicate_append_same)
qed auto

lemma RunOnce_events:
  assumes "vcpu_pio v = machine_pio" "2 < length devs" "devs ! 2 = D_Com1 c"
    and "Run os v (run, h) = (r1, run1, h1)" "RunOnce os v (run, (devs, h)) = Inr (r, (run', (devs', h')))"
  defines "es \<equiv> exit_events run1 c (run_data run' 0)"
  shows "length devs' = length devs \<and> (\<exists>c'. devs' ! 2 = D_Com1 c'
      \<and> rx_buf c @ bytes_in es = bytes_taken es @ rx_buf c')
    \<and> (\<forall>n taken x. Guest_In n taken x \<in> set es \<longrightarrow> length taken \<le> n \<and> (0 < n \<longrightarrow> x = last_of n taken))"
proof (cases "run_exit_reason run1 = KVM_EXIT_IO")
  case io: True
  let ?k = "unat (run_count run1)" and ?d = "run_direction run1" and ?p = "run_port run1"
  obtain r2 data where rep: "io_repeat ?k (pio_access os (vcpu_vm_fd v) machine_pio ?d) ?p (run_data run1) (run_size run1) (devs, h1)
      = Inr (r2, data, (devs', h'))" and run': "run' = run1\<lparr>run_data := data\<rparr>"
    using assms(1,5) io by (auto simp: RunOnce_exit [OF assms(4)])
  consider (other) "?p \<noteq> PIO_PORT_COM1_THR_RBR_DLL \<or> is_dlab_set c \<or> ?d = KVM_EXIT_IO_OUT \<and> \<not> is_loop_set c"
    | (take) "?p = PIO_PORT_COM1_THR_RBR_DLL" "\<not> is_dlab_set c" "?d = KVM_EXIT_IO_IN"
    | (give) "?p = PIO_PORT_COM1_THR_RBR_DLL" "\<not> is_dlab_set c" "?d = KVM_EXIT_IO_OUT" "is_loop_set c"
    by (cases ?d) auto
  then show ?thesis
  proof cases
    case other
    then have "es = []" by (auto simp: es_def exit_events_def)
    with repeat_other [OF rep assms(2,3) other] show ?thesis by auto
  next
    case take
    then have "es = [Guest_In ?k (take ?k (rx_buf c)) (data 0)]"
      using io by (simp add: es_def exit_events_def run')
    with repeat_in [OF rep [unfolded take] assms(2,3) take(2)] show ?thesis
      by (auto simp: bytes_in_def bytes_taken_def last_of_def)
  next
    case give
    then have "es = map From_Loop (replicate ?k (run_data run1 0))"
      using io by (simp add: es_def exit_events_def)
    with repeat_loop [OF rep [unfolded give(1,3)] assms(2,3) give(2,4)] show ?thesis
      by (auto simp: bytes_in_loop simp del: map_replicate)
  qed
next
  case False
  then have "devs' = devs" using assms(5) unfolding RunOnce_exit [OF assms(4)]
    by (cases "run_exit_reason run1") auto
  moreover have "es = []" using False by (simp add: es_def exit_events_def)
  ultimately show ?thesis using assms(3) by auto
qed

section \<open>A boot\<close>

text \<open>What the turn of thread \<open>i\<close> does to the port, with the byte that its thread has in its area then.\<close>

definition turn_events ::
  "'k os \<Rightarrow> nat \<Rightarrow> 'k boot_state \<Rightarrow> 'k boot_state \<Rightarrow> serial_event list" where
  "turn_events os i s s' =
     (let t = bs_threads s ! i;
          (r, run, h) = Run os (th_vcpu t) (th_run t, \<lparr>kern = bs_kern s, errno = th_errno t\<rparr>)
      in case (th_phase t, bs_devs s ! 2) of
           (T_Running, D_Com1 c) \<Rightarrow> exit_events run c (run_data (th_run (bs_threads s' ! i)) 0)
         | _ \<Rightarrow> [])"

text \<open>What an iteration of the reader reads.\<close>

definition reader_events :: "'k os \<Rightarrow> 'k boot_state \<Rightarrow> serial_event list" where
  "reader_events os s = (let ((n, x), k') = os_read os (bs_kern s) in if n = 1 then [From_Host x] else [])"

text \<open>
  The boots with the events of their steps. A turn of a thread and an iteration of the reader are
  taken for what they are; every other step has no event.
\<close>

inductive boots_receiving ::
  "'k os \<Rightarrow> machine \<Rightarrow> vcpu_regs \<Rightarrow> vcpu_sregs \<Rightarrow> (nat \<Rightarrow> kvm_run) \<Rightarrow> 'k boot_state \<Rightarrow> serial_event list
     \<Rightarrow> 'k boot_state \<Rightarrow> bool"
  for os m r0 s0 run0 s where
  start: "boots_receiving os m r0 s0 run0 s [] s"
| turn: "boots_receiving os m r0 s0 run0 s es s1 \<Longrightarrow> running s1 \<Longrightarrow> i < length (bs_threads s1) \<Longrightarrow>
     \<not> thread_done (bs_threads s1 ! i) \<Longrightarrow> s2 = thread_turn os r0 s0 i s1 \<Longrightarrow>
     boots_receiving os m r0 s0 run0 s (es @ turn_events os i s1 s2) s2"
| read: "boots_receiving os m r0 s0 run0 s es s1 \<Longrightarrow> running s1 \<Longrightarrow> bs_reader s1 \<Longrightarrow>
     2 < length (bs_devs s1) \<Longrightarrow> bs_devs s1 ! 2 = D_Com1 c \<Longrightarrow>
     boots_receiving os m r0 s0 run0 s (es @ (if shutting_down c then [] else reader_events os s1))
       (reader_turn os (m_fd m) c s1)"
| spawn: "boots_receiving os m r0 s0 run0 s es s1 \<Longrightarrow> running s1 \<Longrightarrow> \<not> all_spawned m s1 \<Longrightarrow>
     boots_receiving os m r0 s0 run0 s es (boot_spawn m run0 s1)"
| join: "boots_receiving os m r0 s0 run0 s es s1 \<Longrightarrow> running s1 \<Longrightarrow> all_spawned m s1 \<Longrightarrow>
     bs_joined s1 < length (bs_threads s1) \<Longrightarrow> thread_done (bs_threads s1 ! bs_joined s1) \<Longrightarrow>
     boots_receiving os m r0 s0 run0 s es (s1\<lparr>bs_joined := Suc (bs_joined s1)\<rparr>)"
| return: "boots_receiving os m r0 s0 run0 s es s1 \<Longrightarrow> running s1 \<Longrightarrow> all_spawned m s1 \<Longrightarrow>
     bs_joined s1 = length (bs_threads s1) \<Longrightarrow>
     boots_receiving os m r0 s0 run0 s es (s1\<lparr>bs_result := Some 0\<rparr>)"

text \<open>Every boot has such a history, and every history is one of a boot.\<close>

lemma boots_receiving_iff: "boots os m r0 s0 run0 s s' \<longleftrightarrow> (\<exists>es. boots_receiving os m r0 s0 run0 s es s')"
proof
  show "\<exists>es. boots_receiving os m r0 s0 run0 s es s'" if "boots os m r0 s0 run0 s s'"
    using that
  proof (induction rule: rtranclp_induct)
    case (step s1 s2)
    then obtain es where es: "boots_receiving os m r0 s0 run0 s es s1" by blast
    show ?case using step(2) 
      by (cases rule: boot_step.cases)
        (blast intro: boots_receiving.turn [OF es] boots_receiving.read [OF es] boots_receiving.spawn [OF es]
           boots_receiving.join [OF es] boots_receiving.return [OF es])+
  qed (blast intro: boots_receiving.start)
  show "boots os m r0 s0 run0 s s'" if "\<exists>es. boots_receiving os m r0 s0 run0 s es s'"
  proof -
    from that obtain es where "boots_receiving os m r0 s0 run0 s es s'" ..
    then show ?thesis
      by (induction rule: boots_receiving.induct) (auto intro: rtranclp.rtrancl_into_rtrancl boot_step.intros)
  qed
qed

text \<open>The queue of the port of a state, and what its events say of it.\<close>

definition queue_holds :: "'k boot_state \<Rightarrow> u8 list \<Rightarrow> bool" where
  "queue_holds s q \<longleftrightarrow> 2 < length (bs_devs s) \<and> (\<exists>c. bs_devs s ! 2 = D_Com1 c \<and> rx_buf c = q)"

definition events_ok :: "serial_event list \<Rightarrow> bool" where
  "events_ok es \<longleftrightarrow>
     (\<forall>n taken x. Guest_In n taken x \<in> set es \<longrightarrow> length taken \<le> n \<and> (0 < n \<longrightarrow> x = last_of n taken))"

lemma events_ok_simps: "events_ok []" "events_ok (es @ fs) \<longleftrightarrow> events_ok es \<and> events_ok fs"
  by (auto simp: events_ok_def)

lemma thread_turn_events:
  assumes "vcpu_pio (th_vcpu (bs_threads s ! i)) = machine_pio" "devices_inv (bs_devs s)"
    and "i < length (bs_threads s)" "queue_holds s q" "s' = thread_turn os r0 s0 i s"
  shows "events_ok (turn_events os i s s')
    \<and> (\<exists>q'. queue_holds s' q' \<and> q @ bytes_in (turn_events os i s s') = bytes_taken (turn_events os i s s') @ q')"
proof -
  let ?t = "bs_threads s ! i"
  let ?h = "\<lparr>kern = bs_kern s, errno = th_errno ?t\<rparr>"
  obtain c where c: "2 < length (bs_devs s)" "bs_devs s ! 2 = D_Com1 c" "rx_buf c = q"
    using assms(4) by (auto simp: queue_holds_def)
  obtain r1 run1 h1 where run: "Run os (th_vcpu ?t) (th_run ?t, ?h) = (r1, run1, h1)" by (metis prod_cases3)
  have quiet: ?thesis if "turn_events os i s s' = []" "bs_devs s' = bs_devs s"
    using that assms(4) by (simp add: events_ok_def queue_holds_def)
  show ?thesis
  proof (cases "th_phase ?t")
    case T_Running
    have ev: "turn_events os i s s' = exit_events run1 c (run_data (th_run (bs_threads s' ! i)) 0)"
      using T_Running run c(2) by (simp add: turn_events_def)
    show ?thesis
    proof (cases "RunOnce os (th_vcpu ?t) (th_run ?t, (bs_devs s, ?h))")
      case (Inl e)
      have "run_port run1 = 0xFFFF" using RunOnce_fault [OF assms(1,2) Inl] run by auto
      moreover have "bs_devs s' = bs_devs s"
        using T_Running Inl assms(5) by (simp add: thread_turn_def thread_guest_def Let_def)
      ultimately show ?thesis using quiet ev by (simp add: exit_events_def)
    next
      case (Inr x)
      obtain r run' devs' h' where x: "x = (r, (run', (devs', h')))" by (metis prod_cases4)
      have s': "bs_devs s' = devs'" "th_run (bs_threads s' ! i) = run'"
        using T_Running Inr x assms(3,5) by (simp_all add: thread_turn_def thread_guest_def put_guest_def Let_def)
      from RunOnce_events [OF assms(1) c(1,2) run Inr [unfolded x]] show ?thesis
        using c(1,3) by (auto simp: ev s' queue_holds_def events_ok_def)
    qed
  next
    case T_Stopping
    obtain r con g' where stop: "stop_running os (th_vcpu ?t) r0 s0 (bs_out s) (thread_guest s ?t) = (r, con, g')"
      by (metis prod_cases3)
    then have "\<exists>h'. snd g' = (bs_devs s, h')"
      by (auto simp: thread_guest_def stop_running_def dump_and_stop_def split: prod.splits if_splits)
    then have "bs_devs s' = bs_devs s"
      using stop T_Stopping assms(5) by (cases g') (auto simp: thread_turn_def Let_def put_guest_def)
    with T_Stopping run show ?thesis by (intro quiet) (simp_all add: turn_events_def)
  next
    case T_Start
    then show ?thesis using run assms(5)
      by (intro quiet) (simp_all add: turn_events_def thread_turn_def thread_guest_def put_guest_def Let_def)
  next
    case (T_Done r)
    then show ?thesis using run assms(5) by (intro quiet) (simp_all add: turn_events_def thread_turn_def)
  qed
qed

lemma reader_turn_events:
  assumes "queue_holds s q" "bs_devs s ! 2 = D_Com1 c"
  shows "queue_holds (reader_turn os fd c s) (q @ bytes_in (if shutting_down c then [] else reader_events os s))"
proof -
  obtain n x k' where r: "os_read os (bs_kern s) = ((n, x), k')" by (metis prod.collapse)
  obtain g c' h where i: "reader_iter os fd (c, \<lparr>kern = bs_kern s, errno = bs_reader_errno s\<rparr>) = (g, c', h)"
    by (metis prod_cases3)
  then have "rx_buf c' = rx_buf c @ bytes_in (reader_events os s)"
    using r by (auto simp: reader_iter_def reader_events_def rx_push_def bytes_in_def Let_def split: prod.splits if_splits)
  then show ?thesis using assms i by (auto simp: queue_holds_def reader_turn_def)
qed

lemma boots_receiving_queue:
  assumes "machine_ready m" "errno_positive os" "m_devs m = new_devices j"
    and "boots_receiving os m r0 s0 run0 (boot_start m reader out k) es s"
  shows "events_ok es \<and> (\<exists>q. queue_holds s q \<and> bytes_in es = bytes_taken es @ q)"
  using assms(4)
proof (induction rule: boots_receiving.induct)
  case start
  then show ?case using assms(3) by (simp add: events_ok_def queue_holds_def boot_start_def new_devices_def com1_new_def)
next
  case (turn es s1 i s2)
  have "boots os m r0 s0 run0 (boot_start m reader out k) s1" using turn(1) boots_receiving_iff by blast
  then have inv: "boot_inv m s1" by (rule boot_inv_reachable [OF assms(1,2)])
  then have v: "vcpu_pio (th_vcpu (bs_threads s1 ! i)) = machine_pio" "devices_inv (bs_devs s1)"
    using turn(3) by (simp_all add: boot_inv_def thread_inv_def)
  obtain q where q: "events_ok es" "queue_holds s1 q" "bytes_in es = bytes_taken es @ q" using turn.IH by blast
  from thread_turn_events [OF v turn(3) q(2) turn(5)] q show ?case
    by (auto simp: events_ok_simps)
next
  case (read es s1 c)
  then obtain q where q: "events_ok es" "queue_holds s1 q" "bytes_in es = bytes_taken es @ q" by blast
  have "events_ok (reader_events os s1)" "bytes_taken (reader_events os s1) = []"
    by (auto simp: reader_events_def events_ok_def bytes_taken_def split: prod.splits)
  with reader_turn_events [OF q(2) read(5), of os "m_fd m"] q show ?case
    by (auto simp: events_ok_simps)
qed (auto simp: queue_holds_def boot_spawn_def Let_def)

text \<open>Exits of one element deliver what they take.\<close>

lemma delivered_single:
  assumes "events_ok es" "\<And>n taken x. Guest_In n taken x \<in> set es \<Longrightarrow> n = 1"
  shows "bytes_delivered es = bytes_taken es"
proof -
  have "event_delivered e = event_taken e" if "e \<in> set es" for e
  proof (cases e)
    case (Guest_In n taken x)
    then have "length taken \<le> 1" "x = last_of 1 taken"
      using assms that unfolding events_ok_def by fastforce+
    then show ?thesis using Guest_In by (cases taken) (auto simp: last_of_def)
  qed simp_all
  then have "map event_delivered es = map event_taken es" by (intro map_cong) simp_all
  then show ?thesis unfolding bytes_delivered_def bytes_taken_def by (simp only:)
qed

text \<open>A boot in which a byte is typed before the first vCPU runs, which then reads it.\<close>

lemma sample_receive:
  defines "st \<equiv> boot_start sample_machine True empty_console
    (sample_kernel [0x61] [io_exit KVM_EXIT_IO_IN PIO_PORT_COM1_THR_RBR_DLL 1 (\<lambda>_. 0)])"
  shows "\<exists>s. boots_receiving sample_os sample_machine sample_regs sample_sregs idle_run st [From_Host 0x61, Guest_In 1 [0x61] 0x61] s"
proof -
  let ?m = sample_machine
  let ?B = "boots_receiving sample_os ?m sample_regs sample_sregs idle_run st"
  define s1 where "s1 = reader_turn sample_os (m_fd ?m) com1_new st"
  define s2 where "s2 = boot_spawn ?m idle_run s1"
  define s3 where "s3 = thread_turn sample_os sample_regs sample_sregs 0 s2"
  define s4 where "s4 = thread_turn sample_os sample_regs sample_sregs 0 s3"
  let ?c = "rx_push 0x61 com1_new"
  have m: "length (m_vcpus ?m) = 1" "conf_vcpu_num (m_conf ?m) = 1" "m_devs ?m = new_devices 0"
    by (simp_all add: sample_machine_def tiny_vm_def tiny_config_def)
  have s0: "running st" "bs_reader st" "2 < length (bs_devs st)" "bs_devs st ! 2 = D_Com1 com1_new"
    "bs_threads st = []" "reader_events sample_os st = [From_Host 0x61]"
    by (simp_all add: st_def running_def boot_start_def m new_devices_def reader_events_def sample_os_def sample_kernel_def)
  have "\<not> shutting_down com1_new" by (simp add: com1_new_def)
  then have 1: "?B [From_Host 0x61] s1"
    using boots_receiving.read [OF boots_receiving.start s0(1-4), of sample_os ?m sample_regs sample_sregs idle_run] s0(6) by (simp add: s1_def)
  have s1: "running s1" "bs_threads s1 = []" "bs_devs s1 = [D_Post, D_Cmos (cmos_new 0), D_Com1 ?c]"
    "sk_exits (bs_kern s1) = [io_exit KVM_EXIT_IO_IN PIO_PORT_COM1_THR_RBR_DLL 1 (\<lambda>_. 0)]"
    by (simp_all add: s1_def st_def reader_turn_def reader_iter_def com1_new_def rx_push_def reader_should_raise_def
        running_def boot_start_def m new_devices_def sample_os_def sample_kernel_def)
  have "?B [From_Host 0x61] s2"
    unfolding s2_def by (rule boots_receiving.spawn [OF 1 s1(1)]) (simp add: all_spawned_def m s1(2))
  moreover have s2: "running s2" "bs_threads s2 = [\<lparr>th_vcpu = sample_vcpu, th_run = idle_run 0, th_errno = 0, th_phase = T_Start\<rparr>]"
    "bs_devs s2 = bs_devs s1" "bs_kern s2 = bs_kern s1"
    using s1(1,2) by (simp_all add: s2_def boot_spawn_def m sample_vcpu_of running_def)
  ultimately have "?B ([From_Host 0x61] @ turn_events sample_os 0 s2 s3) s3"
    by (intro boots_receiving.turn) (simp_all add: s3_def thread_done_def)
  moreover have "turn_events sample_os 0 s2 s3 = []" by (simp add: turn_events_def s2(2) split: prod.splits)
  ultimately have 3: "?B [From_Host 0x61] s3" by simp
  have s3: "running s3" "bs_threads s3 = [\<lparr>th_vcpu = sample_vcpu, th_run = idle_run 0, th_errno = 0, th_phase = T_Running\<rparr>]"
    "bs_devs s3 = bs_devs s1" "bs_kern s3 = bs_kern s1"
    using s2(1) by (simp_all add: s3_def thread_turn_def s2(2-4) thread_guest_def put_guest_def running_def)
  have 4: "?B ([From_Host 0x61] @ turn_events sample_os 0 s3 s4) s4"
    by (rule boots_receiving.turn [OF 3 s3(1) _ _ s4_def]) (simp_all add: s3(2) thread_done_def)
  have run: "Run sample_os sample_vcpu (idle_run 0, \<lparr>kern = bs_kern s1, errno = 0\<rparr>) = (0,
      io_exit KVM_EXIT_IO_IN PIO_PORT_COM1_THR_RBR_DLL 1 (\<lambda>_. 0), h)"
    if "h = \<lparr>kern = (bs_kern s1)\<lparr>sk_log := sk_log (bs_kern s1) @ [(5, KVM_RUN (idle_run 0))], sk_exits := []\<rparr>, errno = 0\<rparr>" for h
    using s1(4) that by (simp add: Run_def kvmIoctl_def sample_simps sample_vcpu_def)
  have "th_run (bs_threads s4 ! 0) = io_exit KVM_EXIT_IO_IN PIO_PORT_COM1_THR_RBR_DLL 1 ((\<lambda>_. 0)(0 := 0x61))"
    using run by (simp add: s4_def thread_turn_def s3(2-4) thread_guest_def RunOnce_def io_exit_def sample_vcpu_def
        pio_access_owner port_owner_def s1(3) com1_Read_def com1_rbr_def rx_push_def com1_new_def is_dlab_set_def put_guest_def)
  then have "turn_events sample_os 0 s3 s4 = [Guest_In 1 [0x61] 0x61]"
    using run by (simp add: turn_events_def s3(2-4) s1(3) exit_events_def io_exit_def is_dlab_set_def rx_push_def com1_new_def)
  with 4 show ?thesis by auto
qed

section \<open>Properties\<close>

text \<open>C11: The bytes of the serial port along a boot, from one host call and one exit to the next,
  whatever the threads do and however they interleave: what the reader has read from standard input
  and the loopback has put into the port, in the order of the turns, is what the input exits have
  taken out of its queue, in the order of their turns, followed by what still waits there. An exit
  of \<open>n\<close> elements leaves one byte for its guest: the last of the \<open>n\<close> it took, or 0 where there were
  fewer. So as long as the guest reads single elements it gets every byte that comes in, once and in
  order; a string input of several takes \<open>n\<close> bytes and hands over one.\<close>

theorem boot_serial_stream:
  assumes "machine_ready m" "errno_positive os" "m_devs m = new_devices j"
    and "boots_receiving os m r0 s0 run0 (boot_start m reader out k) es s"
  shows "\<exists>c. bs_devs s ! 2 = D_Com1 c \<and> bytes_in es = bytes_taken es @ rx_buf c
    \<and> (\<forall>n taken x. Guest_In n taken x \<in> set es \<longrightarrow>
         length taken \<le> n \<and> (0 < n \<longrightarrow> x = (if length taken = n then last taken else 0)))
    \<and> ((\<forall>n taken x. Guest_In n taken x \<in> set es \<longrightarrow> n = 1) \<longrightarrow> bytes_in es = bytes_delivered es @ rx_buf c)"
proof -
  obtain c where ok: "events_ok es" and c: "bs_devs s ! 2 = D_Com1 c" "bytes_in es = bytes_taken es @ rx_buf c"
    using boots_receiving_queue [OF assms] by (auto simp: queue_holds_def)
  moreover have "length taken \<le> n \<and> (0 < n \<longrightarrow> x = (if length taken = n then last taken else 0))"
    if "Guest_In n taken x \<in> set es" for n taken x
    using ok that by (fastforce simp: events_ok_def last_of_def)
  moreover have "(\<forall>n taken x. Guest_In n taken x \<in> set es \<longrightarrow> n = 1) \<longrightarrow> bytes_delivered es = bytes_taken es"
    using delivered_single [OF ok] by blast
  ultimately show ?thesis by auto
qed

theorem boot_serial_stream_witness:
  "\<exists>s c. boots_receiving sample_os sample_machine sample_regs sample_sregs idle_run
      (boot_start sample_machine True empty_console
        (sample_kernel [0x61] [io_exit KVM_EXIT_IO_IN PIO_PORT_COM1_THR_RBR_DLL 1 (\<lambda>_. 0)]))
      [From_Host 0x61, Guest_In 1 [0x61] 0x61] s
    \<and> bs_devs s ! 2 = D_Com1 c \<and> rx_buf c = []"
proof -
  obtain s where r: "boots_receiving sample_os sample_machine sample_regs sample_sregs idle_run
      (boot_start sample_machine True empty_console
        (sample_kernel [0x61] [io_exit KVM_EXIT_IO_IN PIO_PORT_COM1_THR_RBR_DLL 1 (\<lambda>_. 0)]))
      [From_Host 0x61, Guest_In 1 [0x61] 0x61] s"
    using sample_receive by blast
  have "m_devs sample_machine = new_devices 0" by (simp add: sample_machine_def)
  from boot_serial_stream [OF sample_machine_ready sample_errno_positive this r] r show ?thesis
    by (auto simp: bytes_in_def bytes_delivered_def)
qed

end
