(* ===== verification/SerialOutput.thy ===== *)
theory SerialOutput
  imports SerialHistory
begin

text \<open>
  The console of the guest: what the vCPUs write to the transmitter of the serial port along a boot, and
  what arrives at standard output. A thread sends with the exits of its turns; the operations of the
  port under them (\<^verbatim>\<open>COM1::Write\<close>, the port table, the loop over \<^verbatim>\<open>io.count\<close>) pass it on.
\<close>

section \<open>The kernel\<close>

text \<open>
  A kernel of which \<open>out\<close> reads what has been written to standard output: \<^verbatim>\<open>write\<close> takes the byte,
  no other call writes, and the interrupt line of the virtual machine can be set.
\<close>

definition console_kernel :: "'k os \<Rightarrow> ('k \<Rightarrow> u8 list) \<Rightarrow> bool" where
  "console_kernel os out \<longleftrightarrow>
     (\<forall>x k. fst (fst (os_write os x k)) = 1 \<and> out (snd (os_write os x k)) = out k @ [x])
     \<and> (\<forall>fd req k. out (snd (os_ioctl os fd req k)) = out k)
     \<and> (\<forall>fd irq l k. 0 \<le> fst (fst (os_ioctl os fd (KVM_IRQ_LINE irq l) k)))
     \<and> (\<forall>k. out (snd (os_read os k)) = out k) \<and> (\<forall>k. out (snd (os_localtime os k)) = out k)"

lemma console_ioctl:
  assumes "console_kernel os out"
  shows "out (kern (snd (kvmIoctl os fd req h))) = out (kern h)"
    "out (kern (snd (ioctl_status os fd req h))) = out (kern h)"
proof -
  have "out (snd (os_ioctl os fd req (kern h))) = out (kern h)" using assms by (simp add: console_kernel_def)
  then show "out (kern (snd (kvmIoctl os fd req h))) = out (kern h)"
    "out (kern (snd (ioctl_status os fd req h))) = out (kern h)"
    by (auto simp: kvmIoctl_def ioctl_status_def Let_def split: prod.splits)
qed

lemma console_flap:
  assumes "console_kernel os out" "flapIRQLine os vm_fd irq h = (r, h')"
  shows "r = 0 \<and> out (kern h') = out (kern h)"
proof -
  have line: "\<exists>h1. irqLine os vm_fd irq l h = (0, h1) \<and> out (kern h1) = out (kern h)" for l h
  proof -
    have "0 \<le> fst (fst (os_ioctl os vm_fd (KVM_IRQ_LINE irq l) (kern h)))"
      using assms(1) by (simp add: console_kernel_def)
    then have "fst (irqLine os vm_fd irq l h) = 0"
      by (auto simp: irqLine_def ioctl_status_def kvmIoctl_def split: prod.splits)
    moreover have "out (kern (snd (irqLine os vm_fd irq l h))) = out (kern h)"
      unfolding irqLine_def by (rule console_ioctl [OF assms(1)])
    ultimately show ?thesis by (metis prod.collapse)
  qed
  obtain h1 where 1: "irqLine os vm_fd irq 0 h = (0, h1)" "out (kern h1) = out (kern h)" using line by blast
  obtain h2 where 2: "irqLine os vm_fd irq 1 h1 = (0, h2)" "out (kern h2) = out (kern h1)" using line by blast
  show ?thesis using assms(2) 1 2 by (simp add: flapIRQLine_def)
qed

section \<open>A write to the port\<close>

text \<open>The transmitter takes a byte when neither the divisor latch nor the loopback is selected.\<close>

definition transmits :: "com1 \<Rightarrow> bool" where
  "transmits c \<longleftrightarrow> \<not> is_dlab_set c \<and> \<not> is_loop_set c"

fun device_sends :: "device \<Rightarrow> u16 \<Rightarrow> buf \<Rightarrow> u8 list" where
  "device_sends (D_Com1 c) p b = (if p = PIO_PORT_COM1_THR_RBR_DLL \<and> transmits c then [b 0] else [])"
| "device_sends d p b = []"

lemma com1_transmit_out:
  assumes "console_kernel os out" "com1_transmit os fd x (c, h) = (r, (c', h'))"
  shows "r = 0 \<and> c' = c \<and> out (kern h') = out (kern h) @ [x]"
proof -
  obtain e k where w: "os_write os x (kern h) = ((1, e), k)" "out k = out (kern h) @ [x]"
    using assms(1) by (metis console_kernel_def prod.collapse)
  show ?thesis
    using assms(2) w(1) w(2) console_flap [OF assms(1), of fd COM1_IRQ "h\<lparr>kern := k\<rparr>"]
    by (auto simp: com1_transmit_def Let_def split: prod.splits if_splits)
qed

lemma dev_Write_out:
  assumes "console_kernel os out" "dev_Write os fd p b n (d, h) = Inr (r, b', (d', h'))"
  shows "out (kern h') = out (kern h) @ device_sends d p b \<and> b' = b
    \<and> (p = PIO_PORT_COM1_THR_RBR_DLL \<longrightarrow> device_sends d' p b = device_sends d p b
         \<and> (device_sends d p b \<noteq> [] \<longrightarrow> r = 0))"
proof (cases d)
  case D_Post
  then show ?thesis using assms(2) by (auto simp: post_Write_def)
next
  case (D_Cmos c)
  then show ?thesis using assms(2) by (auto simp: cmos_Write_def split: if_splits prod.splits)
next
  case (D_Com1 c)
  with assms(2) obtain c' where w: "com1_Write os fd p b n (c, h) = Inr (r, b', (c', h'))" and d': "d' = D_Com1 c'" by auto
  show ?thesis
  proof (cases "p = PIO_PORT_COM1_THR_RBR_DLL \<and> transmits c")
    case True
    obtain r1 c1 h1 where t: "com1_transmit os fd (b 0) (c, h) = (r1, (c1, h1))" by (metis prod_cases3)
    then have "(r, b', c', h') = (r1, b, c1, h1)" using True w by (simp add: com1_Write_def transmits_def)
    then show ?thesis using com1_transmit_out [OF assms(1) t] D_Com1 d' True by simp
  next
    case False
    then show ?thesis
      using w D_Com1 d' console_flap [OF assms(1), of fd COM1_IRQ h]
      by (auto simp: com1_Write_def transmits_def is_dlab_set_def is_loop_set_def rx_push_def Let_def
          split: if_splits prod.splits)
  qed
qed

lemma dev_Read_out:
  assumes "console_kernel os out" "dev_Read os p b n (d, h) = Inr (r, b', (d', h'))"
  shows "out (kern h') = out (kern h)"
proof (cases d)
  case D_Post
  then show ?thesis using assms(2) by (auto simp: post_Read_def)
next
  case (D_Cmos c)
  have "out (snd (os_localtime os (kern h))) = out (kern h)" using assms(1) by (simp add: console_kernel_def)
  then show ?thesis using assms(2) D_Cmos by (auto simp: cmos_Read_def cmos_reg_def Let_def split: if_splits prod.splits)
next
  case (D_Com1 c)
  then obtain c' where "com1_Read p b n (c, h) = Inr (r, b', (c', h'))" using assms(2) by auto
  from com1_Read_keeps [OF this] show ?thesis by simp
qed

section \<open>An exit\<close>

definition bus_sends :: "io_dir \<Rightarrow> u16 \<Rightarrow> buf \<Rightarrow> device list \<Rightarrow> u8 list" where
  "bus_sends d p b devs =
     (if d = KVM_EXIT_IO_OUT \<and> p = PIO_PORT_COM1_THR_RBR_DLL then device_sends (devs ! 2) p b else [])"

lemma device_sends_other: "p \<noteq> PIO_PORT_COM1_THR_RBR_DLL \<Longrightarrow> device_sends d p b = []"
  by (cases d) simp_all

lemma pio_access_out:
  assumes "console_kernel os out" "pio_access os fd machine_pio d p b n (devs, h) = Inr (r, b', (devs', h'))"
    and "2 < length devs"
  shows "out (kern h') = out (kern h) @ bus_sends d p b devs \<and> bus_sends d p b' devs' = bus_sends d p b devs
    \<and> (bus_sends d p b devs \<noteq> [] \<longrightarrow> r = 0) \<and> length devs' = length devs"
proof (cases d)
  case KVM_EXIT_IO_IN
  then show ?thesis
    using pio_read_shape [OF assms(2) [unfolded KVM_EXIT_IO_IN]] dev_Read_out [OF assms(1)]
    by (auto simp: bus_sends_def)
next
  case KVM_EXIT_IO_OUT
  have owner: "port_owner PIO_PORT_COM1_THR_RBR_DLL = Owned_By 2" by (simp add: port_owner_def)
  show ?thesis
  proof (cases "p = PIO_PORT_COM1_THR_RBR_DLL")
    case True
    then have "pio_call os fd (H_dev_write 2) p b n (devs, h) = Inr (r, b', (devs', h'))"
      using assms(2) KVM_EXIT_IO_OUT owner by (simp add: pio_access_owner)
    then obtain d1 where d1: "dev_Write os fd p b n (devs ! 2, h) = Inr (r, b', (d1, h'))" "devs' = devs[2 := d1]"
      using assms(3) by auto
    from dev_Write_out [OF assms(1) d1(1)] show ?thesis
      using True KVM_EXIT_IO_OUT d1(2) assms(3) by (simp add: bus_sends_def)
  next
    case False
    then show ?thesis
      using pio_write_shape [OF assms(2) [unfolded KVM_EXIT_IO_OUT]] dev_Write_out [OF assms(1)]
      by (auto simp: bus_sends_def device_sends_other)
  qed
qed

lemma io_repeat_out:
  assumes "console_kernel os out"
    and "io_repeat c (pio_access os fd machine_pio d) p b n (devs, h) = Inr (r, b', (devs', h'))" "2 < length devs"
  shows "out (kern h') = out (kern h) @ concat (replicate c (bus_sends d p b devs))"
  using assms(2,3)
proof (induction c arbitrary: b devs h)
  case (Suc c)
  from Suc.prems(1) obtain r1 b1 devs1 h1 where
    x: "pio_access os fd machine_pio d p b n (devs, h) = Inr (r1, b1, (devs1, h1))"
    and y: "(if r1 \<noteq> 0 then Inr (1, b1, (devs1, h1))
             else io_repeat c (pio_access os fd machine_pio d) p b1 n (devs1, h1)) = Inr (r, b', (devs', h'))"
    by auto
  note out = pio_access_out [OF assms(1) x Suc.prems(2)]
  show ?case
  proof (cases "r1 = 0")
    case True
    then show ?thesis using Suc.IH [of b1 devs1 h1] y out Suc.prems(2) by simp
  next
    case False
    then have "bus_sends d p b devs = []" using out by blast
    moreover have "concat (replicate c []) = ([] :: u8 list)" by (induction c) simp_all
    ultimately show ?thesis using False y out by simp
  qed
qed simp

lemma Run_out:
  assumes "console_kernel os out" "Run os v (run, h) = (r, run', h')"
  shows "out (kern h') = out (kern h)"
proof -
  have "out (kern (snd (kvmIoctl os (vcpu_fd v) (KVM_RUN run) h))) = out (kern h)" by (rule console_ioctl [OF assms(1)])
  then show ?thesis using assms(2) by (auto simp: Run_def Let_def split: prod.splits if_splits)
qed

text \<open>What the exit in the area \<open>run\<close> sends: the first byte of its data, as often as its count says.\<close>

definition exit_sends :: "kvm_run \<Rightarrow> device list \<Rightarrow> u8 list" where
  "exit_sends run devs =
     (if run_exit_reason run = KVM_EXIT_IO
      then concat (replicate (unat (run_count run)) (bus_sends (run_direction run) (run_port run) (run_data run) devs))
      else [])"

lemma RunOnce_out:
  assumes "console_kernel os out" "vcpu_pio v = machine_pio" "2 < length devs"
    and "Run os v (run, h) = (r1, run1, h1)" "RunOnce os v (run, (devs, h)) = Inr (r, (run', (devs', h')))"
  shows "out (kern h') = out (kern h) @ exit_sends run1 devs"
proof (cases "run_exit_reason run1 = KVM_EXIT_IO")
  case True
  then obtain r2 data where
    "io_repeat (unat (run_count run1)) (pio_access os (vcpu_vm_fd v) machine_pio (run_direction run1))
       (run_port run1) (run_data run1) (run_size run1) (devs, h1) = Inr (r2, data, (devs', h'))"
    using assms(2,5) by (auto simp: RunOnce_exit [OF assms(4)])
  from io_repeat_out [OF assms(1) this assms(3)] show ?thesis
    using Run_out [OF assms(1,4)] True by (simp add: exit_sends_def)
next
  case False
  then have "h' = h1" using assms(5) unfolding RunOnce_exit [OF assms(4)]
    by (cases "run_exit_reason run1") auto
  then show ?thesis using Run_out [OF assms(1,4)] False by (simp add: exit_sends_def)
qed

section \<open>A boot\<close>

definition turn_sends :: "'k os \<Rightarrow> 'k boot_state \<Rightarrow> nat \<Rightarrow> u8 list" where
  "turn_sends os s i =
     (let t = bs_threads s ! i;
          (r, run, h) = Run os (th_vcpu t) (th_run t, \<lparr>kern = bs_kern s, errno = th_errno t\<rparr>)
      in if th_phase t = T_Running then exit_sends run (bs_devs s) else [])"

lemma stop_running_out:
  assumes "console_kernel os out" "stop_running os v r0 s0 con (run, (devs, h)) = (r, con', (run', (devs', h')))"
  shows "out (kern h') = out (kern h)"
proof -
  have "out (kern h2) = out (kern h1)" if "GetRegs os fd r0 h1 = (x, h2)" for fd h1 h2 x
    using that console_ioctl(1) [OF assms(1), of fd "KVM_GET_REGS r0" h1]
    by (auto simp: GetRegs_def Let_def split: prod.splits if_splits)
  moreover have "out (kern h2) = out (kern h1)" if "GetSregs os fd s0 h1 = (x, h2)" for fd h1 h2 x
    using that console_ioctl(1) [OF assms(1), of fd "KVM_GET_SREGS s0" h1]
    by (auto simp: GetSregs_def Let_def split: prod.splits if_splits)
  ultimately show ?thesis using assms(2)
    by (fastforce simp: stop_running_def dump_and_stop_def DumpRegs_def DumpSregs_def Let_def split: prod.splits if_splits)
qed

lemma thread_turn_out:
  assumes "console_kernel os out" "boot_inv m s" "i < length (bs_threads s)"
  shows "out (bs_kern (thread_turn os r0 s0 i s)) = out (bs_kern s) @ turn_sends os s i"
proof -
  let ?t = "bs_threads s ! i"
  let ?h = "\<lparr>kern = bs_kern s, errno = th_errno ?t\<rparr>"
  have pio: "vcpu_pio (th_vcpu ?t) = machine_pio" and devs: "devices_inv (bs_devs s)"
    using assms(2,3) by (simp_all add: boot_inv_def thread_inv_def)
  obtain r1 run1 h1 where run: "Run os (th_vcpu ?t) (th_run ?t, ?h) = (r1, run1, h1)" by (metis prod_cases3)
  show ?thesis
  proof (cases "th_phase ?t")
    case T_Running
    show ?thesis
    proof (cases "RunOnce os (th_vcpu ?t) (th_run ?t, (bs_devs s, ?h))")
      case (Inl e)
      have "run_port run1 = 0xFFFF" using RunOnce_fault [OF pio devs Inl] run by auto
      then have "exit_sends run1 (bs_devs s) = []"
        by (simp add: exit_sends_def bus_sends_def)
      then show ?thesis using T_Running Inl run by (simp add: thread_turn_def turn_sends_def thread_guest_def Let_def)
    next
      case (Inr x)
      obtain r run' devs' h' where x: "x = (r, (run', (devs', h')))" by (metis prod_cases4)
      have "out (kern h') = out (bs_kern s) @ exit_sends run1 (bs_devs s)"
        using RunOnce_out [OF assms(1) pio _ run Inr [unfolded x]] devs by (simp add: devices_inv_def)
      then show ?thesis
        using T_Running Inr x run by (simp add: thread_turn_def turn_sends_def thread_guest_def put_guest_def Let_def)
    qed
  next
    case T_Stopping
    obtain r con run' devs' h' where stop: "stop_running os (th_vcpu ?t) r0 s0 (bs_out s) (th_run ?t, (bs_devs s, ?h))
        = (r, con, (run', (devs', h')))" by (metis prod_cases5)
    from stop_running_out [OF assms(1) stop] show ?thesis
      using T_Stopping stop run by (simp add: thread_turn_def turn_sends_def thread_guest_def put_guest_def Let_def)
  qed (simp_all add: thread_turn_def turn_sends_def thread_guest_def put_guest_def Let_def run)
qed

text \<open>The boots with the bytes their turns send, in the order of the turns.\<close>

inductive boots_sending ::
  "'k os \<Rightarrow> machine \<Rightarrow> vcpu_regs \<Rightarrow> vcpu_sregs \<Rightarrow> (nat \<Rightarrow> kvm_run) \<Rightarrow> 'k boot_state \<Rightarrow> u8 list \<Rightarrow> 'k boot_state \<Rightarrow> bool"
  for os m r0 s0 run0 s where
  start: "boots_sending os m r0 s0 run0 s [] s"
| turn: "boots_sending os m r0 s0 run0 s bs s1 \<Longrightarrow> running s1 \<Longrightarrow> i < length (bs_threads s1) \<Longrightarrow>
     \<not> thread_done (bs_threads s1 ! i) \<Longrightarrow>
     boots_sending os m r0 s0 run0 s (bs @ turn_sends os s1 i) (thread_turn os r0 s0 i s1)"
| other: "boots_sending os m r0 s0 run0 s bs s1 \<Longrightarrow> boot_step os m r0 s0 run0 s1 s2 \<Longrightarrow>
     (\<And>i. i < length (bs_threads s1) \<Longrightarrow> s2 \<noteq> thread_turn os r0 s0 i s1) \<Longrightarrow>
     boots_sending os m r0 s0 run0 s bs s2"

lemma thread_turn_done: "thread_done (bs_threads s ! i) \<Longrightarrow> thread_turn os r0 s0 i s = s"
  by (simp add: thread_turn_def thread_done_def Let_def split: thread_phase.splits)

lemma boots_sending_iff: "boots os m r0 s0 run0 s s' \<longleftrightarrow> (\<exists>bs. boots_sending os m r0 s0 run0 s bs s')"
proof
  show "\<exists>bs. boots_sending os m r0 s0 run0 s bs s'" if "boots os m r0 s0 run0 s s'"
    using that
  proof (induction rule: rtranclp_induct)
    case (step s1 s2)
    then obtain bs where bs: "boots_sending os m r0 s0 run0 s bs s1" by blast
    show ?case
    proof (cases "\<exists>i < length (bs_threads s1). \<not> thread_done (bs_threads s1 ! i) \<and> s2 = thread_turn os r0 s0 i s1")
      case True
      then show ?thesis using boots_sending.turn [OF bs boot_step_running [OF step(2)]] by blast
    next
      case False
      show ?thesis
      proof (cases "s2 = s1")
        case True
        then show ?thesis using bs by blast
      next
        case changed: False
        have "s2 \<noteq> thread_turn os r0 s0 i s1" if "i < length (bs_threads s1)" for i
          using False that changed thread_turn_done [of s1 i] by metis
        then show ?thesis using boots_sending.other [OF bs step(2)] by blast
      qed
    qed
  qed (blast intro: boots_sending.start)
  show "boots os m r0 s0 run0 s s'" if "\<exists>bs. boots_sending os m r0 s0 run0 s bs s'"
  proof -
    from that obtain bs where "boots_sending os m r0 s0 run0 s bs s'" ..
    then show ?thesis
      by (induction rule: boots_sending.induct) (auto intro: rtranclp.rtrancl_into_rtrancl boot_step.thread)
  qed
qed

text \<open>The steps of the main thread and the reader write nothing.\<close>

lemma boot_step_silent:
  assumes "console_kernel os out" "boot_step os m r0 s0 run0 s s'"
    and "\<And>i. i < length (bs_threads s) \<Longrightarrow> s' \<noteq> thread_turn os r0 s0 i s"
  shows "out (bs_kern s') = out (bs_kern s)"
  using assms(2)
proof (cases rule: boot_step.cases)
  case spawn
  then show ?thesis by (simp add: boot_spawn_def Let_def)
next
  case (thread i)
  then show ?thesis using assms(3) by blast
next
  case (reader c)
  have read: "out (snd (os_read os (bs_kern s))) = out (bs_kern s)" using assms(1) by (simp add: console_kernel_def)
  have "out (kern h') = out (bs_kern s)"
    if "reader_iter os (m_fd m) (c, \<lparr>kern = bs_kern s, errno = e\<rparr>) = (g, c', h')" for e g c' h'
    using that read console_flap [OF assms(1)]
    by (fastforce simp: reader_iter_def Let_def split: prod.splits if_splits)
  then show ?thesis using reader by (simp add: reader_turn_def split: prod.splits)
qed simp_all

text \<open>The kernel of the examples is of this kind.\<close>

lemma sample_console: "console_kernel sample_os sk_stdout"
proof -
  have "sk_stdout (snd (sample_answer req k)) = sk_stdout k" for req k
    by (induction req k rule: sample_answer.induct) (auto split: list.splits)
  then show ?thesis by (auto simp: console_kernel_def sample_os_def split: list.splits)
qed

section \<open>Properties\<close>

text \<open>C12: What the guest prints arrives, if \<^verbatim>\<open>write\<close> takes every byte and the interrupt line can be set
  (\<open>console_kernel\<close>): along every boot of a machine in good order, whatever the threads do and however they
  interleave, standard output is what it was with the bytes added that the turns of the vCPUs have
  sent, in the order of the turns, and nothing else; a turn sends when its exit writes to the
  transmitter of the serial port and neither the divisor latch nor the loopback is selected, and it
  sends the first byte of the exit's data, as often as the exit's count says.\<close>

theorem boot_console_output:
  assumes "machine_ready m" "errno_positive os" "console_kernel os out"
    and "boots_sending os m r0 s0 run0 (boot_start m reader con k) bs s"
  shows "out (bs_kern s) = out k @ bs"
  using assms(4)
proof (induction rule: boots_sending.induct)
  case start
  then show ?case by (simp add: boot_start_def)
next
  case (turn bs s1 i)
  have "boots os m r0 s0 run0 (boot_start m reader con k) s1" using turn(1) boots_sending_iff by blast
  from thread_turn_out [OF assms(3) boot_inv_reachable [OF assms(1,2) this] turn(3)] turn.IH
  show ?case by simp
next
  case (other bs s1 s2)
  then show ?case using boot_step_silent [OF assms(3)] by simp
qed

theorem boot_console_output_witness:
  defines "st \<equiv> boot_start sample_machine False empty_console
    (sample_kernel [] [io_exit KVM_EXIT_IO_OUT PIO_PORT_COM1_THR_RBR_DLL 1 (\<lambda>_. 0x41)])"
  shows "\<exists>s. boots_sending sample_os sample_machine sample_regs sample_sregs idle_run st [0x41] s
    \<and> sk_stdout (bs_kern s) = [0x41]"
proof -
  have m: "length (m_vcpus sample_machine) = 1" "conf_vcpu_num (m_conf sample_machine) = 1"
    by (simp_all add: sample_machine_def tiny_vm_def tiny_config_def)
  let ?k = "sample_kernel [] [io_exit KVM_EXIT_IO_OUT PIO_PORT_COM1_THR_RBR_DLL 1 (\<lambda>_. 0x41)]"
  let ?s = "single sample_machine 0 T_Running (single_out sample_machine empty_console)
     (single_guest sample_machine idle_run ?k)"
  have "boots sample_os sample_machine sample_regs sample_sregs idle_run st ?s"
    unfolding st_def by (rule single_boots_to_loop [OF m])
  then obtain bs where bs: "boots_sending sample_os sample_machine sample_regs sample_sregs idle_run st bs ?s"
    unfolding boots_sending_iff by blast
  have out: "sk_stdout (bs_kern s) = b" if "boots_sending sample_os sample_machine sample_regs sample_sregs idle_run st b s" for b s
    using boot_console_output [OF sample_machine_ready sample_errno_positive sample_console that [unfolded st_def]]
    by (simp add: sample_kernel_def)
  have "bs = []" using out [OF bs] by (simp add: single_def single_guest_def sample_kernel_def)
  moreover have "turn_sends sample_os ?s 0 = [0x41]"
    by (simp add: turn_sends_def single_def single_guest_def sample_machine_def exit_sends_def bus_sends_def
       Run_def kvmIoctl_def sample_simps sample_kernel_def io_exit_def transmits_def new_devices_def com1_new_def is_dlab_set_def is_loop_set_def)
  ultimately have "boots_sending sample_os sample_machine sample_regs sample_sregs idle_run st [0x41]
      (thread_turn sample_os sample_regs sample_sregs 0 ?s)"
    using boots_sending.turn [OF bs, of 0] by (simp add: thread_done_def)
  then show ?thesis using out by blast
qed

end
