(* ===== verification/SerialInterrupt.thy ===== *)
theory SerialInterrupt
  imports SerialHistory
begin

text \<open>
  The received-data interrupt in the whole machine: when a turn of a thread makes data available to a
  guest that has enabled the interrupt, the turn itself has put an edge on IRQ 4. The edges are
  those a kernel counts that keeps the level of the line (\<^verbatim>\<open>KVM_IRQ_LINE\<close>): the line is lowered first,
  or there is none. (Theory \<open>SerialRace\<close> looks inside the turns.)
\<close>

section \<open>The kernel\<close>

text \<open>
  A kernel with an interrupt controller: no call takes an edge back, the line of the serial port can
  be lowered and raised, it is low when it has been lowered, and raising a low line is an edge.
\<close>

definition edge_kernel :: "'k os \<Rightarrow> ('k \<Rightarrow> nat) \<Rightarrow> ('k \<Rightarrow> bool) \<Rightarrow> bool" where
  "edge_kernel os edges low \<longleftrightarrow>
     (\<forall>fd req k. edges k \<le> edges (snd (os_ioctl os fd req k)))
     \<and> (\<forall>fd k. 0 \<le> fst (fst (os_ioctl os fd (KVM_IRQ_LINE COM1_IRQ 0) k))
             \<and> low (snd (os_ioctl os fd (KVM_IRQ_LINE COM1_IRQ 0) k)))
     \<and> (\<forall>fd k. 0 \<le> fst (fst (os_ioctl os fd (KVM_IRQ_LINE COM1_IRQ 1) k))
             \<and> (low k \<longrightarrow> edges k < edges (snd (os_ioctl os fd (KVM_IRQ_LINE COM1_IRQ 1) k))))
     \<and> (\<forall>x k. edges k \<le> edges (snd (os_write os x k))) \<and> (\<forall>k. edges k \<le> edges (snd (os_read os k)))
     \<and> (\<forall>k. edges k \<le> edges (snd (os_localtime os k)))"

lemma edge_calls:
  assumes "edge_kernel os edges low"
  shows "os_ioctl os fd req k = (y, k') \<Longrightarrow> edges k \<le> edges k'"
    "os_write os x k = (w, k') \<Longrightarrow> edges k \<le> edges k'"
    "os_read os k = (rx, k') \<Longrightarrow> edges k \<le> edges k'"
    "os_localtime os k = (now, k') \<Longrightarrow> edges k \<le> edges k'"
  using assms unfolding edge_kernel_def by (metis snd_conv)+

lemma edge_ioctl: "edge_kernel os edges low \<Longrightarrow> kvmIoctl os fd req h = (y, h') \<Longrightarrow> edges (kern h) \<le> edges (kern h')"
  by (auto simp: kvmIoctl_def Let_def dest: edge_calls(1) split: prod.splits)

text \<open>Flapping the line is an edge.\<close>

lemma edge_flap:
  assumes "edge_kernel os edges low" "flapIRQLine os fd COM1_IRQ h = (r, h')"
  shows "r = 0 \<and> edges (kern h) < edges (kern h')"
proof -
  note e = assms(1) [unfolded edge_kernel_def]
  obtain q0 e0 a0 k0 where 0: "os_ioctl os fd (KVM_IRQ_LINE COM1_IRQ 0) (kern h) = ((q0, e0, a0), k0)"
    by (metis prod_cases3 surj_pair)
  obtain q1 e1 a1 k1 where 1: "os_ioctl os fd (KVM_IRQ_LINE COM1_IRQ 1) k0 = ((q1, e1, a1), k1)"
    by (metis prod_cases3 surj_pair)
  have "0 \<le> q0" "low k0" "0 \<le> q1" using e 0 1 by (metis fst_conv snd_conv)+
  moreover from this have "edges k0 < edges k1" "edges (kern h) \<le> edges k0" using e 0 1 by (metis snd_conv)+
  ultimately show ?thesis
    using assms(2) flapIRQLine_edge [OF 0 \<open>0 \<le> q0\<close> 1 \<open>0 \<le> q1\<close>] by auto
qed

section \<open>One access\<close>

text \<open>Data waits, and the guest has asked to be told.\<close>

definition pending :: "com1 \<Rightarrow> bool" where
  "pending c \<longleftrightarrow> rx_buf c \<noteq> [] \<and> com_IER c AND COM1_REG_IER_DATA_AVL_MASK \<noteq> 0"

text \<open>From \<open>c\<close> to \<open>c'\<close> there is news for the guest.\<close>

definition news :: "com1 \<Rightarrow> com1 \<Rightarrow> bool" where
  "news c c' \<longleftrightarrow> pending c' \<and> (\<not> pending c \<or> length (rx_buf c) < length (rx_buf c'))"

definition noticed :: "('k \<Rightarrow> nat) \<Rightarrow> com1 \<Rightarrow> 'k \<Rightarrow> com1 \<Rightarrow> 'k \<Rightarrow> bool" where
  "noticed edges c k c' k' \<longleftrightarrow> edges k \<le> edges k' \<and> (news c c' \<longrightarrow> edges k < edges k')"

lemma noticed_refl: "edges k \<le> edges k' \<Longrightarrow> noticed edges c k c k'"
  by (simp add: noticed_def news_def)

lemma noticed_same:
  "rx_buf c' = rx_buf c \<Longrightarrow> com_IER c' = com_IER c \<Longrightarrow> edges k \<le> edges k' \<Longrightarrow> noticed edges c k c' k'"
  by (auto simp: noticed_def news_def pending_def)

lemma noticed_trans:
  "noticed edges c k c1 k1 \<Longrightarrow> noticed edges c1 k1 c2 k2 \<Longrightarrow> noticed edges c k c2 k2"
  by (auto simp: noticed_def news_def)

lemma com1_Read_noticed:
  assumes "com1_Read p b n (c, h) = Inr (r, b', (c', h'))"
  shows "noticed edges c (kern h) c' (kern h')"
  using com1_Read_keeps [OF assms]
  by (auto simp: noticed_def news_def pending_def com1_rbr_def split: list.splits)

lemma edge_transmit:
  assumes "edge_kernel os edges low" "com1_transmit os fd x (c, h) = (r, (c', h'))"
  shows "c' = c \<and> edges (kern h) \<le> edges (kern h')"
proof -
  obtain q e k where w: "os_write os x (kern h) = ((q, e), k)" by (metis prod_cases3 surj_pair)
  have "edges (kern h) \<le> edges k" by (rule edge_calls(2) [OF assms(1) w])
  then show ?thesis
    using assms(2) w edge_flap [OF assms(1), of fd "h\<lparr>kern := k\<rparr>"]
    by (fastforce simp: com1_transmit_def Let_def split: prod.splits if_splits)
qed

lemma com1_Write_noticed:
  assumes "edge_kernel os edges low" "com1_Write os fd p b n (c, h) = Inr (r, b', (c', h'))"
    and "p = PIO_PORT_COM1_THR_RBR_DLL \<Longrightarrow> is_dlab_set c \<or> \<not> is_loop_set c"
  shows "noticed edges c (kern h) c' (kern h')"
proof (cases "p = PIO_PORT_COM1_THR_RBR_DLL")
  case True
  show ?thesis
  proof (cases "is_dlab_set c")
    case False
    then obtain q where "com1_transmit os fd (b 0) (c, h) = (q, (c', h'))"
      using assms True by (auto simp: com1_Write_def split: prod.splits)
    from edge_transmit [OF assms(1) this] show ?thesis by (simp add: noticed_refl)
  qed (use assms True in \<open>auto simp: com1_Write_def intro: noticed_same\<close>)
next
  case other: False
  show ?thesis
  proof (cases "p = PIO_PORT_COM1_IER_DLH \<and> \<not> is_dlab_set c")
    case True
    let ?c = "ier_store (b 0) c"
    show ?thesis
    proof (cases "ier_should_raise ?c")
      case raise: True
      then have "c' = ?c" "\<exists>q. flapIRQLine os fd COM1_IRQ h = (q, h')"
        using assms(2) True by (auto simp: com1_Write_def Let_def split: prod.splits if_splits)
      then show ?thesis using edge_flap [OF assms(1), of fd h _ h'] by (auto simp: noticed_def)
    next
      case False
      then have "c' = ?c" "h' = h" using assms(2) True by (auto simp: com1_Write_def Let_def)
      moreover have "\<not> pending ?c" using False by (auto simp: ier_should_raise_def pending_def)
      ultimately show ?thesis by (simp add: noticed_def news_def)
    qed
  next
    case False
    with other assms(2) show ?thesis
      by (auto simp: com1_Write_def Let_def intro: noticed_same split: if_splits)
  qed
qed

text \<open>No device takes an edge back.\<close>

lemma edge_com1_Write:
  assumes "edge_kernel os edges low" "com1_Write os fd p b n (c, h) = Inr (r, b', (c', h'))"
  shows "edges (kern h) \<le> edges (kern h')"
proof (cases "p = PIO_PORT_COM1_THR_RBR_DLL \<and> \<not> is_dlab_set c \<and> is_loop_set c")
  case True
  then have "h' = h" using assms(2) by (simp add: com1_Write_def)
  then show ?thesis by simp
next
  case False
  then show ?thesis using com1_Write_noticed [OF assms] by (simp add: noticed_def)
qed

lemma edge_devices:
  assumes "edge_kernel os edges low"
  shows "dev_Read os p b n (d, h) = Inr (r, b', (d', h')) \<Longrightarrow> edges (kern h) \<le> edges (kern h')"
    "dev_Write os fd p b n (d, h) = Inr (r, b', (d', h')) \<Longrightarrow> edges (kern h) \<le> edges (kern h')"
proof -
  show "edges (kern h) \<le> edges (kern h')" if x: "dev_Read os p b n (d, h) = Inr (r, b', (d', h'))"
  proof (cases d)
    case (D_Com1 c)
    then show ?thesis using x by (auto dest: com1_Read_keeps)
  qed (use x in \<open>auto simp: post_Read_def cmos_Read_def Let_def dest: edge_calls(4) [OF assms] split: prod.splits if_splits\<close>)
  show "edges (kern h) \<le> edges (kern h')" if x: "dev_Write os fd p b n (d, h) = Inr (r, b', (d', h'))"
  proof (cases d)
    case (D_Com1 c)
    then show ?thesis using x by (auto dest: edge_com1_Write [OF assms])
  qed (use x in \<open>auto simp: post_Write_def cmos_Write_def Let_def split: if_splits\<close>)
qed

lemma access_noticed:
  assumes "edge_kernel os edges low" "pio_access os fd machine_pio d p b n (devs, h) = Inr (r, b', (devs', h'))"
    and "2 < length devs" "devs ! 2 = D_Com1 c" "p = PIO_PORT_COM1_THR_RBR_DLL \<Longrightarrow> is_dlab_set c \<or> \<not> is_loop_set c"
  shows "length devs' = length devs \<and> (\<exists>c'. devs' ! 2 = D_Com1 c' \<and> noticed edges c (kern h) c' (kern h')
    \<and> (p = PIO_PORT_COM1_THR_RBR_DLL \<longrightarrow> same_mode c c'))"
proof (cases "port_owner p = Owned_By 2")
  case True
  then have p: "p \<noteq> 0xFFFF" by (auto simp: port_owner_def)
  show ?thesis
  proof (cases d)
    case KVM_EXIT_IO_IN
    then obtain c' where c': "com1_Read p b n (c, h) = Inr (r, b', (c', h'))" "devs' = devs[2 := D_Com1 c']"
      using assms(2-4) p True by (auto simp: pio_access_owner)
    with com1_Read_noticed [OF c'(1)] com1_Read_queue [OF c'(1)] show ?thesis using assms(3) by simp
  next
    case KVM_EXIT_IO_OUT
    then obtain c' where c': "com1_Write os fd p b n (c, h) = Inr (r, b', (c', h'))" "devs' = devs[2 := D_Com1 c']"
      using assms(2-4) p True by (auto simp: pio_access_owner)
    with com1_Write_noticed [OF assms(1) c'(1) assms(5)] com1_Write_queue [OF c'(1)] show ?thesis
      using assms(3) by simp
  qed
next
  case False
  then have other: "p \<noteq> PIO_PORT_COM1_THR_RBR_DLL" by (auto simp: port_owner_def)
  have "length devs' = length devs \<and> devs' ! 2 = devs ! 2 \<and> edges (kern h) \<le> edges (kern h')"
    using False pio_read_shape [of os fd p b n devs h r b' devs' h'] pio_write_shape [of os fd p b n devs h r b' devs' h']
      edge_devices [OF assms(1)] assms(2) by (cases d) (auto simp: nth_list_update)
  then show ?thesis using other assms(4) by (simp add: noticed_refl)
qed

section \<open>A turn\<close>

lemma repeat_noticed:
  assumes "edge_kernel os edges low"
    and "io_repeat k (pio_access os fd machine_pio d) p b n (devs, h) = Inr (r, b', (devs', h'))"
    and "2 < length devs" "devs ! 2 = D_Com1 c" "p = PIO_PORT_COM1_THR_RBR_DLL \<Longrightarrow> is_dlab_set c \<or> \<not> is_loop_set c"
  shows "length devs' = length devs \<and> (\<exists>c'. devs' ! 2 = D_Com1 c' \<and> noticed edges c (kern h) c' (kern h'))"
  using assms(2-5)
proof (induction k arbitrary: b devs h c)
  case 0
  then show ?case by (auto intro: noticed_refl)
next
  case (Suc k)
  from Suc.prems(1) obtain r1 b1 devs1 h1 where
    x: "pio_access os fd machine_pio d p b n (devs, h) = Inr (r1, b1, (devs1, h1))"
    and y: "(if r1 \<noteq> 0 then Inr (1, b1, (devs1, h1))
             else io_repeat k (pio_access os fd machine_pio d) p b1 n (devs1, h1)) = Inr (r, b', (devs', h'))"
    by auto
  obtain c1 where c1: "length devs1 = length devs" "devs1 ! 2 = D_Com1 c1" "noticed edges c (kern h) c1 (kern h1)"
    "p = PIO_PORT_COM1_THR_RBR_DLL \<longrightarrow> same_mode c c1"
    using access_noticed [OF assms(1) x Suc.prems(2-4)] by blast
  show ?case
  proof (cases "r1 = 0")
    case True
    have "p = PIO_PORT_COM1_THR_RBR_DLL \<Longrightarrow> is_dlab_set c1 \<or> \<not> is_loop_set c1"
      using Suc.prems(4) c1(4) same_mode_tests by metis
    then obtain c' where "length devs' = length devs1" "devs' ! 2 = D_Com1 c'" "noticed edges c1 (kern h1) c' (kern h')"
      using Suc.IH [of b1 devs1 h1 c1] y True c1 Suc.prems(2) by auto
    then show ?thesis using c1 noticed_trans [OF c1(3)] by auto
  next
    case False
    then show ?thesis using y c1 by simp
  qed
qed

lemma Run_edges:
  assumes "edge_kernel os edges low" "Run os v (run, h) = (r, run', h')"
  shows "edges (kern h) \<le> edges (kern h')"
proof -
  obtain q req h1 where "kvmIoctl os (vcpu_fd v) (KVM_RUN run) h = ((q, req), h1)" by (metis surj_pair)
  with edge_ioctl [OF assms(1) this] assms(2) show ?thesis by (auto simp: Run_def Let_def split: if_splits)
qed

lemma RunOnce_noticed:
  assumes "edge_kernel os edges low" "vcpu_pio v = machine_pio" "2 < length devs" "devs ! 2 = D_Com1 c" "\<not> is_loop_set c"
    and "RunOnce os v (run, (devs, h)) = Inr (r, (run', (devs', h')))"
  shows "\<exists>c'. devs' ! 2 = D_Com1 c' \<and> noticed edges c (kern h) c' (kern h')"
proof -
  obtain r1 run1 h1 where run: "Run os v (run, h) = (r1, run1, h1)" by (metis prod_cases3)
  have e: "edges (kern h) \<le> edges (kern h1)" by (rule Run_edges [OF assms(1) run])
  show ?thesis
  proof (cases "run_exit_reason run1 = KVM_EXIT_IO")
    case True
    then obtain r2 data where
      "io_repeat (unat (run_count run1)) (pio_access os (vcpu_vm_fd v) machine_pio (run_direction run1))
         (run_port run1) (run_data run1) (run_size run1) (devs, h1) = Inr (r2, data, (devs', h'))"
      using assms(2,6) by (auto simp: RunOnce_exit [OF run])
    from repeat_noticed [OF assms(1) this assms(3,4)] assms(5) obtain c' where
      "devs' ! 2 = D_Com1 c'" "noticed edges c (kern h1) c' (kern h')" by auto
    then show ?thesis using noticed_trans [OF noticed_refl [of edges "kern h" "kern h1" c, OF e]] by blast
  next
    case False
    then have "devs' = devs \<and> h' = h1" using assms(6) unfolding RunOnce_exit [OF run]
      by (cases "run_exit_reason run1") auto
    then show ?thesis using e assms(4) by (auto intro: noticed_refl)
  qed
qed

lemma stop_running_edges:
  assumes "edge_kernel os edges low" "stop_running os v r0 s0 con (run, (devs, h)) = (r, con', (run', (devs', h')))"
  shows "devs' = devs \<and> edges (kern h) \<le> edges (kern h')"
proof -
  have "edges (kern h1) \<le> edges (kern h2)" if "GetRegs os fd r0 h1 = (x, h2)" for fd h1 h2 x
    using that edge_ioctl [OF assms(1), of fd "KVM_GET_REGS r0" h1]
    by (auto simp: GetRegs_def Let_def split: prod.splits if_splits)
  moreover have "edges (kern h1) \<le> edges (kern h2)" if "GetSregs os fd s0 h1 = (x, h2)" for fd h1 h2 x
    using that edge_ioctl [OF assms(1), of fd "KVM_GET_SREGS s0" h1]
    by (auto simp: GetSregs_def Let_def split: prod.splits if_splits)
  ultimately show ?thesis using assms(2)
    by (fastforce simp: stop_running_def dump_and_stop_def DumpRegs_def DumpSregs_def Let_def
        split: prod.splits if_splits intro: order_trans)
qed

lemma thread_turn_noticed:
  assumes "edge_kernel os edges low" "vcpu_pio (th_vcpu (bs_threads s ! i)) = machine_pio"
    and "2 < length (bs_devs s)" "bs_devs s ! 2 = D_Com1 c" "\<not> is_loop_set c"
  shows "\<exists>c'. bs_devs (thread_turn os r0 s0 i s) ! 2 = D_Com1 c'
    \<and> noticed edges c (bs_kern s) c' (bs_kern (thread_turn os r0 s0 i s))"
proof -
  let ?t = "bs_threads s ! i"
  let ?h = "\<lparr>kern = bs_kern s, errno = th_errno ?t\<rparr>"
  show ?thesis
  proof (cases "th_phase ?t")
    case T_Running
    show ?thesis
    proof (cases "RunOnce os (th_vcpu ?t) (th_run ?t, (bs_devs s, ?h))")
      case (Inr x)
      obtain r run' devs' h' where x: "x = (r, (run', (devs', h')))" by (metis prod_cases4)
      from RunOnce_noticed [OF assms(1,2,3,4,5) Inr [unfolded x]] show ?thesis
        using T_Running Inr x by (simp add: thread_turn_def thread_guest_def put_guest_def Let_def)
    qed (use T_Running assms(4) in \<open>simp add: thread_turn_def thread_guest_def Let_def noticed_refl\<close>)
  next
    case T_Stopping
    obtain r con run' devs' h' where stop: "stop_running os (th_vcpu ?t) r0 s0 (bs_out s) (th_run ?t, (bs_devs s, ?h))
        = (r, con, (run', (devs', h')))" by (metis prod_cases5)
    from stop_running_edges [OF assms(1) stop] show ?thesis
      using T_Stopping stop assms(4)
      by (simp add: thread_turn_def thread_guest_def put_guest_def Let_def noticed_refl)
  qed (use assms(4) in \<open>simp_all add: thread_turn_def thread_guest_def put_guest_def Let_def noticed_refl\<close>)
qed

lemma reader_iter_noticed:
  assumes "edge_kernel os edges low" "reader_iter os fd (c, h) = (g, c', h')"
  shows "noticed edges c (kern h) c' (kern h')"
proof -
  obtain n x k where r: "os_read os (kern h) = ((n, x), k)" by (metis prod.collapse)
  have e: "edges (kern h) \<le> edges k" by (rule edge_calls(3) [OF assms(1) r])
  show ?thesis
  proof (cases "n = 1")
    case False
    then show ?thesis using assms(2) r e by (auto simp: reader_iter_def Let_def intro: noticed_refl split: if_splits)
  next
    case read: True
    show ?thesis
    proof (cases "reader_should_raise (rx_push x c)")
      case True
      then obtain q where "c' = rx_push x c" "flapIRQLine os fd COM1_IRQ (h\<lparr>kern := k\<rparr>) = (q, h')"
        using assms(2) r read by (auto simp: reader_iter_def Let_def split: prod.splits)
      with edge_flap [OF assms(1) this(2)] e show ?thesis by (simp add: noticed_def)
    next
      case False
      then have "c' = rx_push x c" "h' = h\<lparr>kern := k\<rparr>" using assms(2) r read by (auto simp: reader_iter_def Let_def)
      moreover have "\<not> pending (rx_push x c)" using False by (simp add: pending_def reader_should_raise_def)
      ultimately show ?thesis using e by (simp add: noticed_def news_def)
    qed
  qed
qed

lemma step_noticed:
  assumes "edge_kernel os edges low" "boot_inv m s" "boot_step os m r0 s0 run0 s s'"
    and "bs_devs s ! 2 = D_Com1 c" "\<not> is_loop_set c"
  shows "\<exists>c'. bs_devs s' ! 2 = D_Com1 c' \<and> noticed edges c (bs_kern s) c' (bs_kern s')"
proof -
  have len: "2 < length (bs_devs s)" using assms(2) by (simp add: boot_inv_def devices_inv_def)
  show ?thesis
    using assms(3)
  proof (cases rule: boot_step.cases)
    case (thread i)
    then have "vcpu_pio (th_vcpu (bs_threads s ! i)) = machine_pio"
      using assms(2) by (simp add: boot_inv_def thread_inv_def)
    from thread_turn_noticed [OF assms(1) this len assms(4,5)] thread show ?thesis by simp
  next
    case (reader c1)
    obtain g c' h where r: "reader_iter os (m_fd m) (c, \<lparr>kern = bs_kern s, errno = bs_reader_errno s\<rparr>) = (g, c', h)"
      by (metis prod_cases3)
    from reader_iter_noticed [OF assms(1) r] reader r len assms(4) show ?thesis
      by (auto simp: reader_turn_def noticed_refl)
  qed (use assms(4) in \<open>simp_all add: boot_spawn_def Let_def noticed_refl\<close>)
qed

section \<open>Properties\<close>

text \<open>C17: No received byte goes unannounced in the machine: on a kernel with an interrupt controller,
  in every state a boot reaches and for every step from it, whoever makes it, if the loopback is off
  and the step brings news for the guest (data waits with the received-data interrupt enabled, and
  it did not before, or there is more of it), the step itself has put at least one edge on IRQ 4, the
  line having been lowered before it was raised.\<close>

theorem boot_raises_interrupt:
  assumes "machine_ready m" "errno_positive os" "edge_kernel os edges low"
    and "boots os m r0 s0 run0 (boot_start m reader out k) s" "boot_step os m r0 s0 run0 s s'"
    and "bs_devs s ! 2 = D_Com1 c" "\<not> is_loop_set c"
  shows "\<exists>c'. bs_devs s' ! 2 = D_Com1 c' \<and> edges (bs_kern s) \<le> edges (bs_kern s')
    \<and> (rx_buf c' \<noteq> [] \<and> com_IER c' AND COM1_REG_IER_DATA_AVL_MASK \<noteq> 0
         \<and> (\<not> pending c \<or> length (rx_buf c) < length (rx_buf c')) \<longrightarrow>
       edges (bs_kern s) < edges (bs_kern s'))"
proof -
  obtain c' where "bs_devs s' ! 2 = D_Com1 c'" "noticed edges c (bs_kern s) c' (bs_kern s')"
    using step_noticed [OF assms(3) boot_inv_reachable [OF assms(1,2,4)] assms(5-7)] by blast
  then show ?thesis by (auto simp: noticed_def news_def pending_def)
qed

text \<open>The kernel of the examples: the edges are read off the log of its requests.\<close>

fun line_after :: "nat \<times> bool \<Rightarrow> int \<times> kvm_req \<Rightarrow> nat \<times> bool" where
  "line_after (n, high) (fd, KVM_IRQ_LINE irq l) =
     (if irq \<noteq> COM1_IRQ then (n, high) else if l = 0 then (n, False)
      else if high then (n, True) else (Suc n, True))"
| "line_after x _ = x"

definition line_state :: "sample_kernel \<Rightarrow> nat \<times> bool" where
  "line_state k = foldl line_after (0, False) (sk_log k)"

lemma line_after_mono: "fst x \<le> fst (line_after x y)"
  by (induction x y rule: line_after.induct) auto

lemma sample_answer_log: "sk_log (snd (sample_answer req k)) = sk_log k"
  by (induction req k rule: sample_answer.induct) (auto split: list.splits)

lemma sample_edge_kernel: "edge_kernel sample_os (fst \<circ> line_state) (Not \<circ> snd \<circ> line_state)"
proof -
  have line: "line_state (snd (os_ioctl sample_os fd req k)) = line_after (line_state k) (fd, req)" for fd req k
    by (simp add: line_state_def sample_simps(1) sample_answer_log)
  have ok: "0 \<le> fst (fst (os_ioctl sample_os fd req k))" for fd req k
    using sample_answer_ok by (metis prod.collapse sample_simps(1))
  have "line_state (snd (os_write sample_os x k)) = line_state k" "line_state (snd (os_read sample_os k)) = line_state k"
    "line_state (snd (os_localtime sample_os k)) = line_state k" for x k
    by (simp_all add: sample_os_def line_state_def split: list.splits)
  moreover have "\<not> snd (line_after (line_state k) (fd, KVM_IRQ_LINE 4 0))"
    "\<not> snd (line_state k) \<longrightarrow> fst (line_state k) < fst (line_after (line_state k) (fd, KVM_IRQ_LINE 4 1))" for fd k
    by (cases "line_state k"; simp)+
  ultimately show ?thesis
    unfolding edge_kernel_def comp_def line using ok line_after_mono by simp
qed

text \<open>A byte is typed for a guest that has enabled the interrupt.\<close>

theorem boot_raises_interrupt_witness:
  defines "m \<equiv> sample_machine\<lparr>m_devs := [D_Post, D_Cmos (cmos_new 0), D_Com1 (com1_new\<lparr>com_IER := 1\<rparr>)]\<rparr>"
  shows "\<exists>s'. boot_step sample_os m sample_regs sample_sregs idle_run
      (boot_start m True empty_console (sample_kernel [0x61] [])) s'
    \<and> 0 < fst (line_state (bs_kern s'))"
proof -
  let ?c = "com1_new\<lparr>com_IER := 1\<rparr>"
  let ?s = "boot_start m True empty_console (sample_kernel [0x61] [])"
  let ?s' = "reader_turn sample_os (m_fd m) ?c ?s"
  have m: "machine_ready m"
    using sample_machine_ready by (simp add: machine_ready_def m_def cmos_inv_new com1_inv_def com1_new_def)
  have s: "running ?s" "bs_reader ?s" "2 < length (bs_devs ?s)" "bs_devs ?s ! 2 = D_Com1 ?c"
    by (simp_all add: running_def boot_start_def m_def)
  have step: "boot_step sample_os m sample_regs sample_sregs idle_run ?s ?s'" by (rule boot_step.reader [OF s])
  have "\<not> is_loop_set ?c" by (simp add: is_loop_set_def com1_new_def)
  from boot_raises_interrupt [OF m sample_errno_positive sample_edge_kernel rtranclp.rtrancl_refl step s(4) this]
  obtain c' where c': "bs_devs ?s' ! 2 = D_Com1 c'"
    "rx_buf c' \<noteq> [] \<and> com_IER c' AND COM1_REG_IER_DATA_AVL_MASK \<noteq> 0 \<and> (\<not> pending ?c \<or> length (rx_buf ?c) < length (rx_buf c'))
       \<longrightarrow> fst (line_state (bs_kern ?s)) < fst (line_state (bs_kern ?s'))" by auto
  have "c' = rx_push 0x61 ?c"
    using c'(1) s(3) by (simp add: reader_turn_def reader_iter_def Let_def com1_new_def boot_start_def sample_os_def
        sample_kernel_def split: prod.splits if_splits)
  with c'(2) have "0 < fst (line_state (bs_kern ?s'))" by (simp add: rx_push_def com1_new_def)
  with step show ?thesis by blast
qed

end
