(* ===== verification/ByteChannel.thy ===== *)
theory ByteChannel
  imports LvmmPrelude "HOL-Library.Sublist"
begin

text \<open>
  The interface between a queue of bytes and the two sides that share it: each event of a
  machine may take bytes off the front and may give bytes to the back, and what it takes
  followed by what it leaves is what was there followed by what it gave. From this one law
  about a single event follow, for every run, that no byte is lost, duplicated or reordered.
  Theory \<open>SerialChannel\<close> interprets it on the receive path of COM1.
\<close>

fun run_events :: "('e \<Rightarrow> 's \<Rightarrow> 's) \<Rightarrow> 'e list \<Rightarrow> 's \<Rightarrow> 's" where
  "run_events step [] s = s"
| "run_events step (e # es) s = run_events step es (step e s)"

text \<open>The bytes an observation of single events yields over a run.\<close>

fun run_bytes ::
  "('e \<Rightarrow> 's \<Rightarrow> 's) \<Rightarrow> ('e \<Rightarrow> 's \<Rightarrow> u8 list) \<Rightarrow> 'e list \<Rightarrow> 's \<Rightarrow> u8 list" where
  "run_bytes step obs [] s = []"
| "run_bytes step obs (e # es) s = obs e s @ run_bytes step obs es (step e s)"

locale byte_channel =
  fixes step :: "'e \<Rightarrow> 's \<Rightarrow> 's"
    and taken :: "'e \<Rightarrow> 's \<Rightarrow> u8 list"
    and given :: "'e \<Rightarrow> 's \<Rightarrow> u8 list"
    and queue :: "'s \<Rightarrow> u8 list"
  assumes conserve: "taken e s @ queue (step e s) = queue s @ given e s"
begin

lemma run_conserve:
  "run_bytes step taken es s @ queue (run_events step es s)
     = queue s @ run_bytes step given es s"
proof (induction es arbitrary: s)
  case Nil
  then show ?case by simp
next
  case (Cons e es)
  have "run_bytes step taken (e # es) s @ queue (run_events step (e # es) s)
      = taken e s @ queue (step e s) @ run_bytes step given es (step e s)"
    by (simp add: Cons.IH)
  also have "\<dots> = (taken e s @ queue (step e s)) @ run_bytes step given es (step e s)"
    by simp
  also have "\<dots> = queue s @ run_bytes step given (e # es) s"
    by (simp add: conserve)
  finally show ?case .
qed

lemma taken_prefix: "prefix (run_bytes step taken es s) (queue s @ run_bytes step given es s)"
  unfolding run_conserve [symmetric] by simp

lemma taken_length:
  "length (run_bytes step taken es s) + length (queue (run_events step es s))
     = length (queue s) + length (run_bytes step given es s)"
  using arg_cong [OF run_conserve, of length es s] by simp

end

end
