(* ===== verification/SerialChannel.thy ===== *)
theory SerialChannel
  imports Serial ByteChannel SampleHost
begin

text \<open>
  The two paths of the serial port: what a guest reads from the status registers, the receive
  queue as a channel from the host's standard input (and the loopback) to the guest, and the
  reader thread's loop on a finite input.
\<close>

section \<open>The receive path as a channel\<close>

text \<open>
  What can happen to the serial port: a guest access to one of its ports, or one iteration of
  the reader thread.
\<close>

datatype com1_event = Guest_Read u16 buf u8 | Guest_Write u16 buf u8 | Reader

fun com1_step :: "'k os \<Rightarrow> int \<Rightarrow> com1_event \<Rightarrow> com1 \<times> 'k host \<Rightarrow> com1 \<times> 'k host" where
  "com1_step os vm_fd (Guest_Read p b n) s =
     (case com1_Read p b n s of Inl e \<Rightarrow> s | Inr (r, b', s') \<Rightarrow> s')"
| "com1_step os vm_fd (Guest_Write p b n) s =
     (case com1_Write os vm_fd p b n s of Inl e \<Rightarrow> s | Inr (r, b', s') \<Rightarrow> s')"
| "com1_step os vm_fd Reader s = snd (reader_iter os vm_fd s)"

text \<open>The byte a guest gets from the receive buffer register, where it holds one.\<close>

fun com1_taken :: "com1_event \<Rightarrow> com1 \<times> 'k host \<Rightarrow> u8 list" where
  "com1_taken (Guest_Read p b n) s =
     (if p = PIO_PORT_COM1_THR_RBR_DLL \<and> \<not> is_dlab_set (fst s) \<and> rx_buf (fst s) \<noteq> []
      then (case com1_Read p b n s of Inl e \<Rightarrow> [] | Inr (r, b', s') \<Rightarrow> [b' 0]) else [])"
| "com1_taken _ s = []"

text \<open>
  The byte an event puts in the queue: one the reader got from standard input, or one the
  guest sent in loopback mode.
\<close>

fun com1_given :: "'k os \<Rightarrow> com1_event \<Rightarrow> com1 \<times> 'k host \<Rightarrow> u8 list" where
  "com1_given os (Guest_Write p b n) s =
     (if p = PIO_PORT_COM1_THR_RBR_DLL \<and> \<not> is_dlab_set (fst s) \<and> is_loop_set (fst s)
      then [b 0] else [])"
| "com1_given os Reader s =
     (let ((n, x), k') = os_read os (kern (snd s)) in if n = 1 then [x] else [])"
| "com1_given os (Guest_Read p b n) s = []"

lemma rx_buf_push [simp]: "rx_buf (rx_push x c) = rx_buf c @ [x]"
  by (simp add: rx_push_def)

lemma rx_buf_ier_store [simp]: "rx_buf (ier_store v c) = rx_buf c"
  by (simp add: ier_store_def)

lemma reader_iter_rx:
  "rx_buf (fst (snd (reader_iter os vm_fd s))) = rx_buf (fst s) @ com1_given os Reader s"
  by (simp add: reader_iter_def Let_def split: prod.splits)

lemma com1_Read_rx:
  "com1_taken (Guest_Read p b n) s @ rx_buf (fst (com1_step os vm_fd (Guest_Read p b n) s))
     = rx_buf (fst s)"
  by (cases s) (auto simp: com1_Read_def com1_rbr_def Let_def split: list.splits)

lemma com1_Write_rx:
  "rx_buf (fst (com1_step os vm_fd (Guest_Write p b n) s))
     = rx_buf (fst s) @ com1_given os (Guest_Write p b n) s"
  using com1_transmit_com [of os vm_fd "b 0" "fst s" "snd s"]
  by (cases s) (auto simp: com1_Write_def Let_def split: prod.splits)

interpretation rx: byte_channel "com1_step os vm_fd" com1_taken "com1_given os"
  "\<lambda>s. rx_buf (fst s)"
  for os :: "'k os" and vm_fd :: int
proof
  fix e and s :: "com1 \<times> 'k host"
  show "com1_taken e s @ rx_buf (fst (com1_step os vm_fd e s))
      = rx_buf (fst s) @ com1_given os e s"
  proof (cases e)
    case (Guest_Read p b n)
    then show ?thesis using com1_Read_rx [of p b n s os vm_fd] by simp
  next
    case (Guest_Write p b n)
    then show ?thesis using com1_Write_rx [of os vm_fd p b n s] by simp
  next
    case Reader
    then show ?thesis using reader_iter_rx [of os vm_fd s] by simp
  qed
qed

section \<open>Standard input\<close>

text \<open>
  What \<^verbatim>\<open>read(2)\<close> documents of a standard input that holds the bytes \<open>inp k\<close>: it yields them
  one by one and 0 at their end; ioctls on the VM leave it alone.
\<close>

definition stdin_holds :: "'k os \<Rightarrow> ('k \<Rightarrow> u8 list) \<Rightarrow> bool" where
  "stdin_holds os inp \<longleftrightarrow>
     (\<forall>k. case inp k of
            [] \<Rightarrow> fst (fst (os_read os k)) = 0 \<and> inp (snd (os_read os k)) = []
          | x # xs \<Rightarrow> fst (os_read os k) = (1, x) \<and> inp (snd (os_read os k)) = xs)
     \<and> (\<forall>fd irq level k. inp (snd (os_ioctl os fd (KVM_IRQ_LINE irq level) k)) = inp k)"

lemma stdin_ioctl:
  "stdin_holds os inp \<Longrightarrow> os_ioctl os fd (KVM_IRQ_LINE irq level) k = (x, k') \<Longrightarrow> inp k' = inp k"
  unfolding stdin_holds_def by (metis snd_conv)

lemma stdin_read_end:
  assumes "stdin_holds os inp" "inp k = []"
  obtains x k' where "os_read os k = ((0, x), k')"
proof -
  have "fst (fst (os_read os k)) = 0" using assms by (auto simp: stdin_holds_def dest: spec [of _ k])
  then show thesis using that by (cases "os_read os k") auto
qed

lemma stdin_read_byte:
  assumes "stdin_holds os inp" "inp k = x # xs"
  obtains k' where "os_read os k = ((1, x), k')" "inp k' = xs"
proof -
  have "fst (os_read os k) = (1, x) \<and> inp (snd (os_read os k)) = xs"
    using assms by (auto simp: stdin_holds_def dest: spec [of _ k])
  then show thesis using that by (cases "os_read os k") auto
qed

lemma stdin_irqLine:
  assumes "stdin_holds os inp"
  shows "inp (kern (snd (irqLine os vm_fd irq level h))) = inp (kern h)"
  using stdin_ioctl [OF assms]
  by (auto simp: irqLine_def ioctl_status_def kvmIoctl_def Let_def split: prod.splits)

lemma stdin_flapIRQLine:
  assumes "stdin_holds os inp"
  shows "inp (kern (snd (flapIRQLine os vm_fd irq h))) = inp (kern h)"
proof -
  obtain r1 h1 where 1: "irqLine os vm_fd irq 0 h = (r1, h1)" by fastforce
  obtain r2 h2 where 2: "irqLine os vm_fd irq 1 h1 = (r2, h2)" by fastforce
  have "inp (kern h1) = inp (kern h)" "inp (kern h2) = inp (kern h1)"
    using stdin_irqLine [OF assms, of vm_fd irq 0 h] stdin_irqLine [OF assms, of vm_fd irq 1 h1] 1 2
    by simp_all
  then show ?thesis by (simp add: flapIRQLine_def 1 2)
qed

lemma reader_iter_end:
  assumes "stdin_holds os inp" "inp (kern h) = []"
  shows "\<exists>h'. reader_iter os vm_fd (c, h) = (False, c, h')"
  by (rule stdin_read_end [OF assms]) (simp add: reader_iter_def)

lemma reader_iter_byte:
  assumes "stdin_holds os inp" "inp (kern h) = x # xs"
  shows "\<exists>h'. reader_iter os vm_fd (c, h) = (True, rx_push x c, h') \<and> inp (kern h') = xs"
proof -
  obtain k' where "os_read os (kern h) = ((1, x), k')" "inp k' = xs"
    by (rule stdin_read_byte [OF assms])
  then show ?thesis
    using stdin_flapIRQLine [OF assms(1), of vm_fd COM1_IRQ "h\<lparr>kern := k'\<rparr>"]
    by (auto simp: reader_iter_def Let_def split: prod.splits)
qed

section \<open>A loopback session\<close>

text \<open>The guest sends bytes through the transmit register, then reads as many back.\<close>

fun com1_send ::
  "'k os \<Rightarrow> int \<Rightarrow> u8 list \<Rightarrow> com1 \<times> 'k host \<Rightarrow> fault + com1 \<times> 'k host" where
  "com1_send os vm_fd [] s = Inr s"
| "com1_send os vm_fd (x # xs) s =
     chain (com1_Write os vm_fd PIO_PORT_COM1_THR_RBR_DLL (\<lambda>_. x) 1 s)
       (\<lambda>(r, b, s'). com1_send os vm_fd xs s')"

fun com1_receive :: "nat \<Rightarrow> com1 \<times> 'k host \<Rightarrow> fault + u8 list \<times> com1 \<times> 'k host" where
  "com1_receive 0 s = Inr ([], s)"
| "com1_receive (Suc n) s =
     chain (com1_Read PIO_PORT_COM1_THR_RBR_DLL (\<lambda>_. 0) 1 s) (\<lambda>(r, b, s1).
       chain (com1_receive n s1) (\<lambda>(xs, s2). Inr (b 0 # xs, s2)))"

lemma com1_send_loop:
  "is_loop_set c \<Longrightarrow> \<not> is_dlab_set c \<Longrightarrow>
     com1_send os vm_fd xs (c, h) = Inr (c\<lparr>rx_buf := rx_buf c @ xs\<rparr>, h)"
proof (induction xs arbitrary: c)
  case Nil
  then show ?case by simp
next
  case (Cons x xs)
  let ?c = "c\<lparr>rx_buf := rx_buf c @ [x]\<rparr>"
  have "is_loop_set ?c" "\<not> is_dlab_set ?c"
    using Cons.prems by (simp_all add: is_loop_set_def is_dlab_set_def)
  with Cons.IH [of ?c] Cons.prems show ?case by (simp add: com1_Write_def rx_push_def)
qed

lemma com1_receive_queue:
  "\<not> is_dlab_set c \<Longrightarrow> rx_buf c = xs @ ys \<Longrightarrow>
     com1_receive (length xs) (c, h) = Inr (xs, (c\<lparr>rx_buf := ys\<rparr>, h))"
proof (induction xs arbitrary: c)
  case Nil
  then show ?case by simp
next
  case (Cons x xs)
  let ?c = "c\<lparr>rx_buf := xs @ ys\<rparr>"
  have "\<not> is_dlab_set ?c" using Cons.prems by (simp add: is_dlab_set_def)
  with Cons.IH [of ?c] Cons.prems show ?case by (simp add: com1_Read_def com1_rbr_def)
qed

section \<open>Properties\<close>

text \<open>C18: Nothing typed on the host is lost, duplicated or reordered on its way to the guest: over
  any sequence of guest accesses and reader iterations starting from a new COM1, the bytes the
  guest took from the receive register, followed by those still queued, are exactly the bytes the
  reader got from standard input and the guest sent in loopback, in the order they came.\<close>

theorem com1_receive_in_order:
  "run_bytes (com1_step os vm_fd) com1_taken es (com1_new, h)
     @ rx_buf (fst (run_events (com1_step os vm_fd) es (com1_new, h)))
   = run_bytes (com1_step os vm_fd) (com1_given os) es (com1_new, h)"
  using rx.run_conserve [of os vm_fd es "(com1_new, h)"] by (simp add: com1_new_def)

text \<open>C32: The reader thread on its own delivers a finite standard input and stops: if standard
  input holds some bytes and then ends, the loop returns with exactly those bytes appended to the
  receive queue in order, and no register of the port changed.\<close>

theorem readerLoop_drains_stdin:
  assumes "stdin_holds os inp" "\<not> shutting_down c"
  shows "\<exists>h'. readerLoop os vm_fd (c, h)
               = Some (c\<lparr>rx_buf := rx_buf c @ inp (kern h)\<rparr>, h')"
  using assms(2)
proof (induction "inp (kern h)" arbitrary: c h)
  case Nil
  then obtain h' where "reader_iter os vm_fd (c, h) = (False, c, h')"
    using reader_iter_end [OF assms(1)] by metis
  with Nil show ?case by (subst readerLoop.simps) simp
next
  case (Cons x xs)
  obtain h1 where i: "reader_iter os vm_fd (c, h) = (True, rx_push x c, h1)"
    and h1: "inp (kern h1) = xs"
    using reader_iter_byte [OF assms(1) Cons.hyps(2) [symmetric]] by blast
  have "\<not> shutting_down (rx_push x c)" using Cons.prems by (simp add: rx_push_def)
  from Cons.hyps(1) [OF h1 [symmetric] this] h1 i Cons.prems Cons.hyps(2) [symmetric]
  show ?case by (subst readerLoop.simps) (simp add: rx_push_def)
qed

theorem readerLoop_drains_stdin_witness:
  "\<exists>h'. readerLoop sample_os 4 (com1_new, sample_host [0x6C, 0x73, 0x0D] [])
         = Some (com1_new\<lparr>rx_buf := [0x6C, 0x73, 0x0D]\<rparr>, h')"
proof -
  have "stdin_holds sample_os sk_stdin"
    by (auto simp: stdin_holds_def sample_os_def split: list.splits)
  moreover have "\<not> shutting_down com1_new" by (simp add: com1_new_def)
  ultimately show ?thesis
    using readerLoop_drains_stdin [of sample_os sk_stdin com1_new 4
        "sample_host [0x6C, 0x73, 0x0D] []"]
    by (simp add: com1_new_def sample_host_def sample_kernel_def)
qed



text \<open>The line status register tells the truth about the receive queue: its data-ready bit is
  set exactly when a read of the receive register will take a byte, the transmitter always reports
  empty, and no error bit is ever set. The read changes nothing.\<close>

lemma com1_lsr_data_ready:
  "\<exists>v. com1_Read PIO_PORT_COM1_LSR b n (c, h) = Inr (0, b(0 := v), (c, h))
     \<and> (bit v 0 \<longleftrightarrow> rx_buf c \<noteq> []) \<and> bit v 5 \<and> bit v 6 \<and> v AND 0x9E = 0"
  by (simp add: com1_Read_def com1_lsr_def)

text \<open>The interrupt identification register reports the highest pending source: received data
  (4) exactly when that interrupt is enabled and a byte is queued, transmitter empty (2) exactly
  when it is enabled and received data is not reported, else bit 0 for no interrupt; the two top
  bits show whether the FIFO is on. The read changes nothing.\<close>

lemma com1_iir_priority:
  "\<exists>v. com1_Read PIO_PORT_COM1_IIR_FCR b n (c, h) = Inr (0, b(0 := v), (c, h))
     \<and> (v AND 0x0F = 4 \<longleftrightarrow> bit (com_IER c) 0 \<and> rx_buf c \<noteq> [])
     \<and> (v AND 0x0F = 2 \<longleftrightarrow> bit (com_IER c) 1 \<and> (rx_buf c = [] \<or> bit (com_IER c) 0 = False))
     \<and> (bit v 0 \<longleftrightarrow> bit (com_IER c) 1 = False \<and> (rx_buf c = [] \<or> bit (com_IER c) 0 = False))
     \<and> (v AND 0xC0 = (if bit (com_FCR c) 0 then 0xC0 else 0))"
  by (auto simp: com1_Read_def com1_iir_def u8_mask_bits)

text \<open>In loopback mode the modem status register reflects the modem control outputs crossed
  over as on a real 16550 (RTS to CTS, DTR to DSR, OUT1 to RI, OUT2 to DCD) with no delta bits;
  outside loopback it reports CTS, DSR and DCD asserted.\<close>

lemma com1_msr_loopback:
  "\<exists>v. com1_Read PIO_PORT_COM1_MSR b n (c, h) = Inr (0, b(0 := v), (c, h))
     \<and> (if bit (com_MCR c) 4
        then (bit v 4 \<longleftrightarrow> bit (com_MCR c) 1) \<and> (bit v 5 \<longleftrightarrow> bit (com_MCR c) 0)
           \<and> (bit v 6 \<longleftrightarrow> bit (com_MCR c) 2) \<and> (bit v 7 \<longleftrightarrow> bit (com_MCR c) 3)
           \<and> v AND 0x0F = 0
        else v = 0xB0)"
  by (auto simp: com1_Read_def com1_msr_def is_loop_set_def u8_mask_bits)

text \<open>A transmit that the host's \<^verbatim>\<open>write\<close> refuses is reported as the negated \<^verbatim>\<open>errno\<close> and changes
  no register; one it accepts hands exactly that byte to standard output and, where the
  transmitter-empty interrupt is enabled, ends with an edge on IRQ 4.\<close>

lemma com1_transmit_result:
  assumes "\<not> is_dlab_set c" "\<not> is_loop_set c" "os_write os (b 0) (kern h) = ((r, e), k')"
  shows "com1_Write os vm_fd PIO_PORT_COM1_THR_RBR_DLL b n (c, h) =
     (if r = - 1 then Inr (- e, b, (c, h\<lparr>kern := k', errno := e\<rparr>))
      else if bit (com_IER c) 1 then
        Inr (fst (flapIRQLine os vm_fd COM1_IRQ (h\<lparr>kern := k'\<rparr>)), b,
             (c, snd (flapIRQLine os vm_fd COM1_IRQ (h\<lparr>kern := k'\<rparr>))))
      else Inr (0, b, (c, h\<lparr>kern := k'\<rparr>)))"
  using assms by (auto simp: com1_Write_def com1_transmit_def u8_mask_bits split: prod.splits)

end
