(* ===== verification/SerialRace.thy ===== *)
theory SerialRace
  imports SerialChannel
begin

text \<open>
  The reader thread and the vCPU thread on COM1, interleaved at the granularity of the source:
  the reader's push (one critical section of \<^verbatim>\<open>rx_mutex\<close>) and its test of \<^verbatim>\<open>IER\<close> are two
  steps; the vCPU's store to \<^verbatim>\<open>IER\<close>, its look at the queue (a critical section of its own) and
  the interrupt it raises are three. Every other access of the guest is one step.

  Between the push and the test the guest may enable the interrupt, and between the store and
  the look the reader may push: theory \<open>SerialRace\<close> shows that one of the two threads always
  notices. Memory is taken to be sequentially consistent; \<^verbatim>\<open>IER\<close> itself is read by the reader
  without the lock.
\<close>

datatype reader_pc = R_Wait | R_Pushed

datatype cpu_pc = C_Idle | C_Stored | C_Sampled bool

text \<open>
  \<open>u_notified\<close> says that an edge on IRQ 4 was started since the last byte came in or the
  interrupt enable register was last written; \<open>u_looped\<close> that the guest has pushed bytes itself
  through the loopback, which the code queues without an interrupt.
\<close>

record uart =
  u_port :: com1
  u_reader :: reader_pc
  u_cpu :: cpu_pc
  u_notified :: bool
  u_looped :: bool

definition uart_init :: uart where
  "uart_init = \<lparr>u_port = com1_new, u_reader = R_Wait, u_cpu = C_Idle, u_notified = False,
     u_looped = False\<rparr>"

inductive uart_step :: "'k os \<Rightarrow> int \<Rightarrow> uart \<Rightarrow> uart \<Rightarrow> bool" for os vm_fd where
  reader_push: "u_reader u = R_Wait \<Longrightarrow>
     uart_step os vm_fd u (u\<lparr>u_port := rx_push x (u_port u), u_reader := R_Pushed,
       u_notified := False\<rparr>)"
| reader_check: "u_reader u = R_Pushed \<Longrightarrow>
     uart_step os vm_fd u (u\<lparr>u_reader := R_Wait,
       u_notified := (u_notified u \<or> reader_should_raise (u_port u))\<rparr>)"
| cpu_store: "u_cpu u = C_Idle \<Longrightarrow> \<not> is_dlab_set (u_port u) \<Longrightarrow>
     uart_step os vm_fd u (u\<lparr>u_port := ier_store v (u_port u), u_cpu := C_Stored,
       u_notified := False\<rparr>)"
| cpu_sample: "u_cpu u = C_Stored \<Longrightarrow>
     uart_step os vm_fd u (u\<lparr>u_cpu := C_Sampled (ier_should_raise (u_port u))\<rparr>)"
| cpu_raise: "u_cpu u = C_Sampled r \<Longrightarrow>
     uart_step os vm_fd u (u\<lparr>u_cpu := C_Idle, u_notified := (u_notified u \<or> r)\<rparr>)"
| cpu_read: "u_cpu u = C_Idle \<Longrightarrow> com1_Read p b n (u_port u, h :: 'k host) = Inr (r, b', (c', h')) \<Longrightarrow>
     uart_step os vm_fd u (u\<lparr>u_port := c'\<rparr>)"
| cpu_write: "u_cpu u = C_Idle \<Longrightarrow> p \<noteq> PIO_PORT_COM1_IER_DLH \<or> is_dlab_set (u_port u) \<Longrightarrow>
     com1_Write os vm_fd p b n (u_port u, h) = Inr (r, b', (c', h')) \<Longrightarrow>
     uart_step os vm_fd u (u\<lparr>u_port := c',
       u_looped := (u_looped u \<or> com1_given os (Guest_Write p b n) (u_port u, h) \<noteq> [])\<rparr>)"

abbreviation uart_reachable :: "'k os \<Rightarrow> int \<Rightarrow> uart \<Rightarrow> bool" where
  "uart_reachable os vm_fd \<equiv> (uart_step os vm_fd)\<^sup>*\<^sup>* uart_init"

section \<open>The invariant\<close>

text \<open>
  A byte waits, the guest wants the interrupt and the reader has nothing left to do: then the
  edge has been started, or the vCPU is about to start it.
\<close>

definition uart_inv :: "uart \<Rightarrow> bool" where
  "uart_inv u \<longleftrightarrow>
     (\<not> u_looped u \<and> rx_buf (u_port u) \<noteq> [] \<and> reader_should_raise (u_port u)
        \<and> u_reader u = R_Wait
      \<longrightarrow> u_notified u \<or> u_cpu u = C_Stored \<or> u_cpu u = C_Sampled True)"

lemma uart_inv_init: "uart_inv uart_init"
  by (simp add: uart_inv_def uart_init_def com1_new_def)

lemma pending_enabled_raises:
  "rx_buf c \<noteq> [] \<Longrightarrow> reader_should_raise c \<Longrightarrow> ier_should_raise c"
  by (simp add: reader_should_raise_def ier_should_raise_def)

lemma com1_Read_interrupts:
  assumes "com1_Read p b n (c, h) = Inr (r, b', (c', h'))"
  shows "reader_should_raise c' = reader_should_raise c" "rx_buf c = [] \<Longrightarrow> rx_buf c' = []"
  using com1_Read_keeps [OF assms]
  by (auto simp: reader_should_raise_def com1_rbr_def split: list.splits)

lemma com1_Write_interrupts:
  assumes "com1_Write os vm_fd p b n (c, h) = Inr (r, b', (c', h'))"
    and "p \<noteq> PIO_PORT_COM1_IER_DLH \<or> is_dlab_set c"
  shows "reader_should_raise c' = reader_should_raise c"
  using assms com1_transmit_com [of os vm_fd "b 0" c h]
  by (auto simp: com1_Write_def reader_should_raise_def rx_push_def Let_def
      split: if_splits prod.splits)

lemma uart_step_inv: "uart_step os vm_fd u u' \<Longrightarrow> uart_inv u \<Longrightarrow> uart_inv u'"
proof (induction rule: uart_step.induct)
  case (reader_push u x)
  then show ?case by (simp add: uart_inv_def)
next
  case (reader_check u)
  then show ?case by (simp add: uart_inv_def)
next
  case (cpu_store u v)
  then show ?case by (simp add: uart_inv_def)
next
  case (cpu_sample u)
  then show ?case by (simp add: uart_inv_def pending_enabled_raises)
next
  case (cpu_raise u r)
  then show ?case by (auto simp: uart_inv_def)
next
  case (cpu_read u p b n h r b' c' h')
  then show ?case using com1_Read_interrupts [OF cpu_read(2)] by (auto simp: uart_inv_def)
next
  case (cpu_write u p b n h r b' c' h')
  have "reader_should_raise c' = reader_should_raise (u_port u)"
    using com1_Write_interrupts [OF cpu_write(3)] cpu_write(2) by blast
  moreover have "rx_buf c' = rx_buf (u_port u) @ com1_given os (Guest_Write p b n) (u_port u, h)"
    using com1_Write_rx [of os vm_fd p b n "(u_port u, h)"] cpu_write(3) by simp
  ultimately show ?case using cpu_write(1,4) by (auto simp: uart_inv_def)
qed

interpretation uart: step_invariant "uart_step os vm_fd" uart_inv
  for os :: "'k os" and vm_fd :: int
  by unfold_locales (rule uart_step_inv)

lemma uart_reachable_inv: "uart_reachable os vm_fd u \<Longrightarrow> uart_inv u"
  by (rule uart.path_inv [OF _ uart_inv_init])

section \<open>Properties\<close>

text \<open>C15: No receive interrupt is lost to the race between the reader thread and the guest:
  however their steps interleave, whenever both threads are between operations, a byte is waiting,
  the guest has the received-data interrupt enabled and no byte came through the loopback, an edge
  on IRQ 4 was started after the last byte arrived and after the last write to the interrupt
  enable register.\<close>

theorem com1_no_lost_interrupt:
  assumes "uart_reachable os vm_fd u" "u_reader u = R_Wait" "u_cpu u = C_Idle"
    and "\<not> u_looped u" "rx_buf (u_port u) \<noteq> []" "bit (com_IER (u_port u)) 0"
  shows "u_notified u"
  using uart_reachable_inv [OF assms(1)] assms(2-6)
  by (simp add: uart_inv_def reader_should_raise_def u8_mask_bits)

text \<open>A run where the guest enables the interrupt on an empty queue and a byte comes in after.\<close>

lemma uart_sample_run:
  "uart_reachable sample_os 4 (uart_init\<lparr>u_port := rx_push 0x61 (ier_store 1 com1_new),
     u_notified := True\<rparr>)"
proof -
  let ?c = "ier_store 1 com1_new"
  let ?u1 = "uart_init\<lparr>u_port := ?c, u_cpu := C_Stored\<rparr>"
  let ?u2 = "uart_init\<lparr>u_port := ?c, u_cpu := C_Sampled False\<rparr>"
  let ?u3 = "uart_init\<lparr>u_port := ?c\<rparr>"
  let ?u4 = "uart_init\<lparr>u_port := rx_push 0x61 ?c, u_reader := R_Pushed\<rparr>"
  have s1: "uart_step sample_os 4 uart_init ?u1"
    using uart_step.cpu_store [of uart_init sample_os 4 1]
    by (simp add: uart_init_def com1_new_def is_dlab_set_def)
  have s2: "uart_step sample_os 4 ?u1 ?u2"
    using uart_step.cpu_sample [of ?u1 sample_os 4]
    by (simp add: ier_should_raise_def ier_store_def com1_new_def)
  have s3: "uart_step sample_os 4 ?u2 ?u3"
    using uart_step.cpu_raise [of ?u2 False sample_os 4] by (simp add: uart_init_def)
  have s4: "uart_step sample_os 4 ?u3 ?u4"
    using uart_step.reader_push [of ?u3 sample_os 4 "0x61"] by (simp add: uart_init_def)
  have s5: "uart_step sample_os 4 ?u4
      (uart_init\<lparr>u_port := rx_push 0x61 ?c, u_notified := True\<rparr>)"
    using uart_step.reader_check [of ?u4 sample_os 4]
    by (simp add: uart_init_def reader_should_raise_def rx_push_def ier_store_def)
  note r = rtranclp.rtrancl_into_rtrancl [of "uart_step sample_os 4" uart_init]
  show ?thesis by (rule r [OF r [OF r [OF r [OF r [OF rtranclp.rtrancl_refl s1] s2] s3] s4] s5])
qed

theorem com1_no_lost_interrupt_witness:
  "u_notified (uart_init\<lparr>u_port := rx_push 0x61 (ier_store 1 com1_new), u_notified := True\<rparr>)"
  by (rule com1_no_lost_interrupt [OF uart_sample_run])
    (simp_all add: uart_init_def rx_push_def ier_store_def)

end
