(* ===== verification/SerialSystem.thy ===== *)
theory SerialSystem
  imports SerialRace
begin

text \<open>
  The two views of the serial port put together. Every operation of \<^verbatim>\<open>COM1\<close> as the other theories
  have it, in one step, is a sequence of the interleaved steps of theory \<open>SerialRace\<close> between states
  in which neither thread is inside an operation.
\<close>

section \<open>Operations as sequences of steps\<close>

definition uart_idle :: "uart \<Rightarrow> bool" where
  "uart_idle u \<longleftrightarrow> u_reader u = R_Wait \<and> u_cpu u = C_Idle"

text \<open>
  What an operation says of the received-data interrupt: \<open>Some r\<close> where it takes in a byte or writes
  the interrupt enable register, \<open>r\<close> telling whether it starts an edge on IRQ 4.
\<close>

fun com1_notifies :: "'k os \<Rightarrow> com1_event \<Rightarrow> com1 \<times> 'k host \<Rightarrow> bool option" where
  "com1_notifies os (Guest_Read p b n) s = None"
| "com1_notifies os (Guest_Write p b n) s =
     (if p = PIO_PORT_COM1_IER_DLH \<and> \<not> is_dlab_set (fst s)
      then Some (ier_should_raise (ier_store (b 0) (fst s))) else None)"
| "com1_notifies os Reader s =
     (let ((n, x), k') = os_read os (kern (snd s))
      in if n = 1 then Some (reader_should_raise (rx_push x (fst s))) else None)"

definition uart_after :: "'k os \<Rightarrow> int \<Rightarrow> com1_event \<Rightarrow> 'k host \<Rightarrow> uart \<Rightarrow> uart" where
  "uart_after os vm_fd e h u =
     u\<lparr>u_port := fst (com1_step os vm_fd e (u_port u, h)),
       u_notified := (case com1_notifies os e (u_port u, h) of None \<Rightarrow> u_notified u | Some r \<Rightarrow> r),
       u_looped := (u_looped u \<or> (case e of Reader \<Rightarrow> False | _ \<Rightarrow> com1_given os e (u_port u, h) \<noteq> []))\<rparr>"

lemma com1_Write_Inr: "\<exists>r b' c' h'. com1_Write os vm_fd p b n (c, h) = Inr (r, b', (c', h'))"
  by (auto simp: com1_Write_def Let_def split: prod.splits)

lemma com1_Read_Inr: "\<exists>r b' c' h'. com1_Read p b n (c, h) = Inr (r, b', (c', h'))"
  by (auto simp: com1_Read_def Let_def split: prod.splits)


lemma uart_after_idle: "uart_idle u \<Longrightarrow> uart_idle (uart_after os vm_fd e h u)"
  by (simp add: uart_idle_def uart_after_def)

lemma uart_read_steps:
  assumes "uart_idle u"
  shows "(uart_step os vm_fd)\<^sup>*\<^sup>* u (uart_after os vm_fd (Guest_Read p b n) h u)"
proof -
  obtain r b' c' h' where x: "com1_Read p b n (u_port u, h) = Inr (r, b', (c', h'))"
    using com1_Read_Inr by metis
  then have "uart_after os vm_fd (Guest_Read p b n) h u = u\<lparr>u_port := c'\<rparr>" by (simp add: uart_after_def)
  then show ?thesis using uart_step.cpu_read [OF _ x, of os vm_fd] assms by (auto simp: uart_idle_def)
qed

lemma uart_write_steps:
  assumes "uart_idle u" "p \<noteq> PIO_PORT_COM1_IER_DLH \<or> is_dlab_set (u_port u)"
  shows "(uart_step os vm_fd)\<^sup>*\<^sup>* u (uart_after os vm_fd (Guest_Write p b n) h u)"
proof -
  obtain r b' c' h' where x: "com1_Write os vm_fd p b n (u_port u, h) = Inr (r, b', (c', h'))"
    using com1_Write_Inr by metis
  then have "uart_after os vm_fd (Guest_Write p b n) h u = u\<lparr>u_port := c',
      u_looped := (u_looped u \<or> com1_given os (Guest_Write p b n) (u_port u, h) \<noteq> [])\<rparr>"
    using assms(2) by (auto simp: uart_after_def)
  then show ?thesis using uart_step.cpu_write [OF _ assms(2) x] assms(1) by (auto simp: uart_idle_def)
qed

lemma uart_ier_steps:
  assumes "uart_idle u" "\<not> is_dlab_set (u_port u)"
  shows "(uart_step os vm_fd)\<^sup>*\<^sup>* u (uart_after os vm_fd (Guest_Write PIO_PORT_COM1_IER_DLH b n) h u)"
proof -
  let ?c = "ier_store (b 0) (u_port u)"
  let ?u1 = "u\<lparr>u_port := ?c, u_cpu := C_Stored, u_notified := False\<rparr>"
  let ?u2 = "?u1\<lparr>u_cpu := C_Sampled (ier_should_raise ?c)\<rparr>"
  obtain r b' c' h' where x: "com1_Write os vm_fd PIO_PORT_COM1_IER_DLH b n (u_port u, h) = Inr (r, b', (c', h'))"
    using com1_Write_Inr by metis
  then have "c' = ?c" using assms(2) by (auto simp: com1_Write_def Let_def split: if_splits prod.splits)
  then have "uart_after os vm_fd (Guest_Write PIO_PORT_COM1_IER_DLH b n) h u
      = ?u2\<lparr>u_cpu := C_Idle, u_notified := (u_notified ?u2 \<or> ier_should_raise ?c)\<rparr>"
    using assms x by (simp add: uart_after_def uart_idle_def)
  moreover have "uart_step os vm_fd u ?u1"
    using uart_step.cpu_store [of u os vm_fd "b 0"] assms by (simp add: uart_idle_def)
  moreover have "uart_step os vm_fd ?u1 ?u2" using uart_step.cpu_sample [of ?u1 os vm_fd] by simp
  moreover have "uart_step os vm_fd ?u2 (?u2\<lparr>u_cpu := C_Idle, u_notified := (u_notified ?u2 \<or> ier_should_raise ?c)\<rparr>)"
    by (rule uart_step.cpu_raise) simp
  ultimately show ?thesis by (metis (no_types, lifting) converse_rtranclp_into_rtranclp rtranclp.rtrancl_refl)
qed

lemma uart_reader_steps:
  assumes "uart_idle u"
  shows "(uart_step os vm_fd)\<^sup>*\<^sup>* u (uart_after os vm_fd Reader h u)"
proof -
  obtain n x k' where read: "os_read os (kern h) = ((n, x), k')" by (metis surj_pair)
  show ?thesis
  proof (cases "n = 1")
    case True
    let ?u1 = "u\<lparr>u_port := rx_push x (u_port u), u_reader := R_Pushed, u_notified := False\<rparr>"
    have "uart_after os vm_fd Reader h u
        = ?u1\<lparr>u_reader := R_Wait, u_notified := (u_notified ?u1 \<or> reader_should_raise (u_port ?u1))\<rparr>"
      using assms True by (simp add: uart_after_def uart_idle_def read reader_iter_def Let_def split: prod.splits)
    moreover have "uart_step os vm_fd u ?u1" using uart_step.reader_push [of u os vm_fd x] assms by (simp add: uart_idle_def)
    moreover have "uart_step os vm_fd ?u1
        (?u1\<lparr>u_reader := R_Wait, u_notified := (u_notified ?u1 \<or> reader_should_raise (u_port ?u1))\<rparr>)"
      by (rule uart_step.reader_check) simp
    ultimately show ?thesis by (metis (no_types, lifting) converse_rtranclp_into_rtranclp rtranclp.rtrancl_refl)
  next
    case False
    then have "uart_after os vm_fd Reader h u = u"
      by (simp add: uart_after_def read reader_iter_def Let_def)
    then show ?thesis by simp
  qed
qed

lemma uart_operation_steps:
  assumes "uart_idle u"
  shows "(uart_step os vm_fd)\<^sup>*\<^sup>* u (uart_after os vm_fd e h u)"
proof (cases e)
  case (Guest_Write p b n)
  show ?thesis
  proof (cases "p \<noteq> PIO_PORT_COM1_IER_DLH \<or> is_dlab_set (u_port u)")
    case True
    then show ?thesis unfolding Guest_Write by (rule uart_write_steps [OF assms])
  next
    case False
    then have p: "p = PIO_PORT_COM1_IER_DLH" "\<not> is_dlab_set (u_port u)" by simp_all
    show ?thesis unfolding Guest_Write p(1) by (rule uart_ier_steps [OF assms p(2)])
  qed
qed (simp_all only: uart_read_steps [OF assms] uart_reader_steps [OF assms])

text \<open>The edge of the model is the call of \<^verbatim>\<open>flapIRQLine\<close>, in the host the operation has come to.\<close>

lemma com1_notifies_edge:
  assumes "com1_notifies os e (c, h) = Some r"
  shows "snd (com1_step os vm_fd e (c, h)) =
    (let h1 = (if e = Reader then h\<lparr>kern := snd (os_read os (kern h))\<rparr> else h)
     in if r then snd (flapIRQLine os vm_fd COM1_IRQ h1) else h1)"
proof (cases e)
  case (Guest_Write p b n)
  then show ?thesis using assms
    by (auto simp: com1_Write_def Let_def split: if_splits prod.splits)
next
  case Reader
  then show ?thesis using assms
    by (auto simp: reader_iter_def Let_def split: if_splits prod.splits)
qed (use assms in simp)


section \<open>Properties\<close>

text \<open>C16: The race model refines nothing away: every operation on the serial port (a guest access or an
  iteration of the reader, on any state of the kernel) is, run without interruption, a sequence of
  the interleaved steps, between states in which both threads are between operations, that leaves
  the port as the operation does; and the model counts an edge of the received-data interrupt
  exactly where the operation takes in a byte, or writes the interrupt enable register, and calls
  \<^verbatim>\<open>flapIRQLine\<close>.\<close>

theorem com1_refines_race:
  assumes "u_reader u = R_Wait" "u_cpu u = C_Idle"
  shows "\<exists>u'. (uart_step os vm_fd)\<^sup>*\<^sup>* u u' \<and> u_reader u' = R_Wait \<and> u_cpu u' = C_Idle
    \<and> u_port u' = fst (com1_step os vm_fd e (u_port u, h))
    \<and> (case com1_notifies os e (u_port u, h) of
         None \<Rightarrow> u_notified u' = u_notified u
       | Some r \<Rightarrow> u_notified u' = r \<and> snd (com1_step os vm_fd e (u_port u, h)) =
           (let h1 = (if e = Reader then h\<lparr>kern := snd (os_read os (kern h))\<rparr> else h)
            in if r then snd (flapIRQLine os vm_fd COM1_IRQ h1) else h1))"
proof -
  have u: "uart_idle u" using assms by (simp add: uart_idle_def)
  show ?thesis
    using uart_operation_steps [OF u, of os vm_fd e h] uart_after_idle [OF u, of os vm_fd e h]
      com1_notifies_edge [of os e "u_port u" h _ vm_fd]
    by (intro exI [of _ "uart_after os vm_fd e h u"])
      (auto simp: uart_idle_def uart_after_def split: option.split)
qed

theorem com1_refines_race_witness:
  "\<exists>u'. (uart_step sample_os 4)\<^sup>*\<^sup>* uart_init u' \<and> u_reader u' = R_Wait \<and> u_cpu u' = C_Idle
    \<and> u_port u' = fst (com1_step sample_os 4 Reader (com1_new, sample_host [0x61] []))"
  using com1_refines_race [of uart_init sample_os 4 Reader "sample_host [0x61] []"]
  by (auto simp: uart_init_def)

end
