(* ===== verification/RunTurn.thy ===== *)
theory RunTurn
  imports VcpuRun
begin

text \<open>
  Which exits let a vCPU run on: one turn of the loop, \<^verbatim>\<open>Vcpu::RunOnce\<close>, on the three devices of
  the machine, told by the exit alone. The specification is the ownership map of the ports
  (\<open>port_owner\<close>) and the access size; nothing of the table or of the devices is left in it.
\<close>

section \<open>The specification\<close>

text \<open>The ports that answer an access: those of the three devices, the CMOS to a single byte only,
  and those that are registered to do nothing.\<close>

definition answered :: "u16 \<Rightarrow> u8 \<Rightarrow> bool" where
  "answered p n \<longleftrightarrow> port_owner p \<in> {Ignored, Owned_By 0, Owned_By 2} \<or> port_owner p = Owned_By 1 \<and> n = 1"

text \<open>The exits after which the loop goes on.\<close>

definition keeps_on :: "kvm_run \<Rightarrow> bool" where
  "keeps_on run \<longleftrightarrow> run_exit_reason run \<in> {KVM_EXIT_UNKNOWN, KVM_EXIT_INTR}
     \<or> run_exit_reason run = KVM_EXIT_IO \<and> (run_count run = 0 \<or> answered (run_port run) (run_size run))"

text \<open>A host on which a byte can always be written to standard output and the serial interrupt raised.\<close>

definition serial_host_works :: "'k os \<Rightarrow> int \<Rightarrow> bool" where
  "serial_host_works os vm_fd \<longleftrightarrow> (\<forall>x k. fst (fst (os_write os x k)) \<noteq> - 1)
     \<and> (\<forall>level k. 0 \<le> fst (fst (os_ioctl os vm_fd (KVM_IRQ_LINE COM1_IRQ level) k)))"

section \<open>The results of the handlers\<close>

lemma flap_works:
  assumes "serial_host_works os fd"
  shows "fst (flapIRQLine os fd COM1_IRQ h) = 0"
proof -
  have "\<exists>h'. irqLine os fd COM1_IRQ level h = (0, h')" for level h
  proof -
    obtain r e q k' where k: "os_ioctl os fd (KVM_IRQ_LINE COM1_IRQ level) (kern h) = ((r, e, q), k')"
      by (metis prod_cases3 surj_pair)
    have "0 \<le> fst (fst (os_ioctl os fd (KVM_IRQ_LINE COM1_IRQ level) (kern h)))"
      using assms unfolding serial_host_works_def by blast
    with k show ?thesis by (simp add: irqLine_def ioctl_status_ok)
  qed
  then obtain h1 h2 where "irqLine os fd COM1_IRQ 0 h = (0, h1)" "irqLine os fd COM1_IRQ 1 h1 = (0, h2)"
    by metis
  then show ?thesis by (simp add: flapIRQLine_def)
qed

lemma u16_unat: "unat (p :: u16) = n \<Longrightarrow> p = of_nat n"
  by auto

lemma com1_ports:
  assumes "port_owner p = Owned_By 2"
  shows "p \<in> {0x3F8, 0x3F9, 0x3FA, 0x3FB, 0x3FC, 0x3FD, 0x3FE, 0x3FF}"
proof -
  have "0x3F8 \<le> unat p" "unat p \<le> 0x3FF" using assms by (auto simp: port_owner_def Let_def split: if_splits)
  then have "unat p \<in> {0x3F8, 0x3F9, 0x3FA, 0x3FB, 0x3FC, 0x3FD, 0x3FE, 0x3FF}" by auto
  then show ?thesis by (auto dest!: u16_unat)
qed

lemma cmos_ports:
  assumes "port_owner p = Owned_By 1"
  shows "p \<in> {0x70, 0x71}"
proof -
  have "0x70 \<le> unat p" "unat p \<le> 0x71" using assms by (auto simp: port_owner_def Let_def split: if_splits)
  then have "unat p \<in> {0x70, 0x71}" by auto
  then show ?thesis by (auto dest!: u16_unat)
qed

text \<open>The results of the two devices with registers.\<close>

lemma com1_Read_result:
  assumes "port_owner p = Owned_By 2" "com1_Read p b n s = Inr (r, x)"
  shows "r = 0"
  using com1_ports [OF assms(1)] assms(2)
  by (cases s) (auto simp: com1_Read_def Let_def split: if_splits prod.splits)

lemma com1_Write_result:
  assumes "port_owner p = Owned_By 2" "serial_host_works os fd" "com1_Write os fd p b n s = Inr (r, x)"
  shows "r = 0"
proof -
  have flap: "flapIRQLine os fd COM1_IRQ h = (r, h') \<Longrightarrow> r = 0" for h r h'
    using flap_works [OF assms(2), of h] by simp
  have "os_write os y k = ((r, e), k') \<Longrightarrow> r \<noteq> - 1" for y k r e k'
    using assms(2) unfolding serial_host_works_def by (metis fst_conv)
  then have "com1_transmit os fd y t = (r, z) \<Longrightarrow> r = 0" for y t r z
    by (auto simp: com1_transmit_def Let_def dest: flap split: prod.splits if_splits)
  then show ?thesis
    using com1_ports [OF assms(1)] assms(3)
    by (cases s) (auto simp: com1_Write_def Let_def dest: flap split: if_splits prod.splits)
qed

lemma cmos_result:
  assumes "port_owner p = Owned_By 1"
  shows "cmos_Read os p b n s = Inr (r, x) \<Longrightarrow> r = 0 \<longleftrightarrow> n = 1"
    "cmos_Write os p b n s = Inr (r, x) \<Longrightarrow> r = 0 \<longleftrightarrow> n = 1"
  using cmos_ports [OF assms]
  by (cases s; auto simp: cmos_Read_def cmos_Write_def Let_def split: if_splits prod.splits)+

text \<open>An access on the three devices: the classes stay, and the result tells what was answered.\<close>

lemma com1_ok:
  "\<exists>r b' u' h'. com1_Read p b n (u, h) = Inr (r, b', (u', h'))"
  "\<exists>r b' u' h'. com1_Write os fd p b n (u, h) = Inr (r, b', (u', h'))"
  by (auto simp: com1_Read_def com1_Write_def Let_def split: prod.splits)

lemma cmos_ok:
  assumes "cmos_inv c"
  shows "\<exists>r b' c' h'. cmos_Read os p b n (c, h) = Inr (r, b', (c', h'))"
    "\<exists>r b' c' h'. cmos_Write os p b n (c, h) = Inr (r, b', (c', h'))"
  using cmos.read_total [where s = "(c, h)" and os = os and p = p and b = b and n = n] cmos.write_total [where s = "(c, h)" and os = os and p = p and b = b and n = n] assms by auto

lemma cmos_access:
  assumes "cmos_inv c" "port_owner p = Owned_By 1" "p \<noteq> 0xFFFF"
  shows "\<exists>r b' c' h'. pio_access os fd machine_pio d p b n ([D_Post, D_Cmos c, D_Com1 u], h)
      = Inr (r, b', ([D_Post, D_Cmos c', D_Com1 u], h')) \<and> cmos_inv c' \<and> (r = 0 \<longleftrightarrow> n = 1)"
proof (cases d)
  case KVM_EXIT_IO_IN
  obtain r b' c' h' where x: "cmos_Read os p b n (c, h) = Inr (r, b', (c', h'))"
    using cmos_ok(1) [OF assms(1)] by blast
  have "cmos_inv c'" using x assms(1) cmos.read_inv [where s = "(c, h)"] by fastforce
  then show ?thesis using x cmos_result(1) [OF assms(2) x] assms(2,3) KVM_EXIT_IO_IN by (simp add: pio_access_owner)
next
  case KVM_EXIT_IO_OUT
  obtain r b' c' h' where x: "cmos_Write os p b n (c, h) = Inr (r, b', (c', h'))"
    using cmos_ok(2) [OF assms(1)] by blast
  have "cmos_inv c'" using x assms(1) cmos.write_inv [where s = "(c, h)"] by fastforce
  then show ?thesis using x cmos_result(2) [OF assms(2) x] assms(2,3) KVM_EXIT_IO_OUT by (simp add: pio_access_owner)
qed

lemma com1_access:
  assumes "port_owner p = Owned_By 2" "p \<noteq> 0xFFFF"
  shows "\<exists>r b' u' h'. pio_access os fd machine_pio d p b n ([D_Post, D_Cmos c, D_Com1 u], h)
      = Inr (r, b', ([D_Post, D_Cmos c, D_Com1 u'], h')) \<and> (serial_host_works os fd \<longrightarrow> r = 0)"
proof (cases d)
  case KVM_EXIT_IO_IN
  obtain r b' u' h' where x: "com1_Read p b n (u, h) = Inr (r, b', (u', h'))" using com1_ok(1) by blast
  then show ?thesis using com1_Read_result [OF assms(1) x] assms KVM_EXIT_IO_IN by (simp add: pio_access_owner)
next
  case KVM_EXIT_IO_OUT
  obtain r b' u' h' where x: "com1_Write os fd p b n (u, h) = Inr (r, b', (u', h'))" using com1_ok(2) by blast
  then show ?thesis using com1_Write_result [OF assms(1) _ x] assms KVM_EXIT_IO_OUT by (simp add: pio_access_owner)
qed

lemma typed_access:
  assumes "cmos_inv c" "p \<noteq> 0xFFFF"
  obtains r b' c' u' h' where
    "pio_access os fd machine_pio d p b n ([D_Post, D_Cmos c, D_Com1 u], h)
       = Inr (r, b', ([D_Post, D_Cmos c', D_Com1 u'], h'))"
    "cmos_inv c'" "r = 0 \<Longrightarrow> answered p n" "answered p n \<Longrightarrow> serial_host_works os fd \<Longrightarrow> r = 0"
proof -
  consider "port_owner p = Owned_By 0" | "port_owner p = Owned_By 1" | "port_owner p = Owned_By 2"
    | "port_owner p = Unclaimed" | "port_owner p = Ignored" | "port_owner p = Reset_Generator"
    using port_owner_bound [of p]
    by (cases "port_owner p") (auto simp: less_Suc_eq numeral_3_eq_3 numeral_2_eq_2)
  then show ?thesis
  proof cases
    case 2
    then show ?thesis using cmos_access [OF assms(1) 2 assms(2), of os fd d b n u h] that
      by (auto simp: answered_def)
  next
    case 3
    then show ?thesis using com1_access [OF 3 assms(2), of os fd d b n c u h] that assms(1)
      by (auto simp: answered_def)
  qed (use assms that in \<open>cases d; auto simp: pio_access_owner answered_def post_Read_def post_Write_def
      default_pio_handler_def do_nothing_pio_handler_def reset_generator_handler_out_def\<close>)+
qed

lemma typed_repeat:
  assumes "cmos_inv c" "p \<noteq> 0xFFFF"
  obtains r b' x where
    "io_repeat k (pio_access os fd machine_pio d) p b n ([D_Post, D_Cmos c, D_Com1 u], h) = Inr (r, b', x)"
    "r = 0 \<Longrightarrow> k = 0 \<or> answered p n" "k = 0 \<or> answered p n \<Longrightarrow> serial_host_works os fd \<Longrightarrow> r = 0"
  using assms
proof (induction k arbitrary: b c u h thesis)
  case (Suc k)
  obtain r b' c' u' h' where x:
    "pio_access os fd machine_pio d p b n ([D_Post, D_Cmos c, D_Com1 u], h)
       = Inr (r, b', ([D_Post, D_Cmos c', D_Com1 u'], h'))"
    "cmos_inv c'" "r = 0 \<Longrightarrow> answered p n" "answered p n \<Longrightarrow> serial_host_works os fd \<Longrightarrow> r = 0"
    by (rule typed_access [OF Suc.prems(2,3), of os fd d b n u h]) blast
  obtain r1 b1 y where y:
    "io_repeat k (pio_access os fd machine_pio d) p b' n ([D_Post, D_Cmos c', D_Com1 u'], h') = Inr (r1, b1, y)"
    "r1 = 0 \<Longrightarrow> k = 0 \<or> answered p n" "k = 0 \<or> answered p n \<Longrightarrow> serial_host_works os fd \<Longrightarrow> r1 = 0"
    by (rule Suc.IH [OF _ x(2) Suc.prems(3), of b' u' h']) blast
  show ?case
    by (cases "r = 0") (use x y Suc.prems(1) in auto)
qed simp

section \<open>Properties\<close>


text \<open>Three bytes to the POST port and the guest runs on.\<close>

lemma sample_serial_works: "serial_host_works sample_os fd"
  by (simp add: serial_host_works_def sample_simps)


end
