(* ===== verification/ZeroPage.thy ===== *)
theory ZeroPage
  imports VmLoad
begin

text \<open>
  The zero page of the guest, byte by byte: what \<^verbatim>\<open>VM::initRAM\<close> leaves at the offsets that the Linux
  boot protocol gives its fields (\<^verbatim>\<open>Documentation/arch/x86/boot.rst\<close> and \<^verbatim>\<open>zero-page.rst\<close>), from the
  bytes of the kernel file. The specification knows no structure: the order of the members of
  \<^verbatim>\<open>setup_header\<close> and \<^verbatim>\<open>boot_params\<close>, which the code takes as the layout, is compared with the offsets
  of the documents here.
\<close>

section \<open>The header as bytes\<close>

lemma slice_merge: "k + m = j \<Longrightarrow> take m (drop k bs) @ take n (drop j bs) @ r = take (m + n) (drop k bs) @ r"
  by (simp add: take_add add.commute)

text \<open>A header that was read, with the members replaced that the code assigns: the rest is as it was.\<close>

lemma setup_header_bytes_patched:
  assumes "length bs = 123"
  shows "setup_header_bytes ((setup_header_of bs)\<lparr>hd_setup_sects := n, hd_vid_mode := a, hd_type_of_loader := b,
      hd_loadflags := c, hd_ramdisk_image := d, hd_ramdisk_size := e, hd_heap_end_ptr := f, hd_cmd_line_ptr := g\<rparr>)
    = [n] @ take 8 (drop 1 bs) @ le_bytes 2 a @ take 20 (drop 11 bs) @ [b, c] @ take 6 (drop 33 bs)
      @ le_bytes 4 d @ le_bytes 4 e @ take 4 (drop 47 bs) @ le_bytes 2 f @ take 2 (drop 53 bs)
      @ le_bytes 4 g @ drop 59 bs"
proof -
  have "le_bytes 4 (of_le (drop 119 bs) :: u32) = drop 119 bs"
    using assms by (intro le_bytes_of_le) simp_all
  moreover have "le_bytes (Suc 0) n = [n]" "le_bytes (Suc 0) b = [b]" "le_bytes (Suc 0) c = [c]" by simp_all
  ultimately show ?thesis
    using assms
    by (simp add: setup_header_of_def setup_header_bytes_def take_le_def le_bytes_fields
        take_drop_fold slice_merge del: le_bytes_u8 flip: numeral_2_eq_2)
qed

text \<open>The number of setup sectors of a kernel file: the byte at 0x1F1, with 0 for 4.\<close>

definition file_sects :: "u8 list \<Rightarrow> u8" where
  "file_sects kf = (if kf ! 0x1F1 = 0 then 4 else kf ! 0x1F1)"

lemma header_bytes_of_file:
  assumes "0x26C \<le> length kf"
  shows "hd_setup_sects (kernel_header kf) = kf ! 0x1F1"
    "hd_header (kernel_header kf) = of_le (take 4 (drop 0x202 kf))"
proof -
  have "take 1 (drop 0x1F1 kf) = [kf ! 0x1F1]"
    using assms by (simp add: take_Suc_conv_app_nth)
  then show "hd_setup_sects (kernel_header kf) = kf ! 0x1F1"
    by (simp add: kernel_header_def setup_header_of_def take_le_def min_def)
  show "hd_header (kernel_header kf) = of_le (take 4 (drop 0x202 kf))"
    by (simp add: kernel_header_def setup_header_of_def take_le_def drop_take min_def)
qed

lemma magic_bytes:
  assumes "length bs = 4"
  shows "(of_le bs :: u32) = 0x53726448 \<longleftrightarrow> bs = [0x48, 0x64, 0x72, 0x53]"
proof -
  have "le_bytes 4 (0x53726448 :: u32) = [0x48, 0x64, 0x72, 0x53]" by code_simp
  then show ?thesis
    using le_bytes_of_le [of bs 4, where 'a = 32] of_le_le_bytes [of 4 "0x53726448 :: u32"] assms by auto
qed

lemma bootable_bytes:
  "bootable kf \<longleftrightarrow> 0x26C \<le> length kf \<and> take 4 (drop 0x202 kf) = [0x48, 0x64, 0x72, 0x53]"
  using header_bytes_of_file(2) [of kf] magic_bytes [of "take 4 (drop 0x202 kf)"]
  by (auto simp: bootable_def)

lemma setup_sects_bytes: "0x26C \<le> length kf \<Longrightarrow> kernel_setup_sects kf = file_sects kf"
  by (simp add: kernel_setup_sects_def header_bytes_of_file file_sects_def Let_def)

lemma kernel_offset_bytes: "0x26C \<le> length kf \<Longrightarrow> kernel_offset kf = (unat (file_sects kf) + 1) * 512"
  by (simp add: kernel_offset_def setup_sects_bytes)

lemma guest_header_bytes:
  assumes "0x26C \<le> length kf"
  shows "setup_header_bytes (guest_header initrd kf) =
    [file_sects kf] @ take 8 (drop 0x1F2 kf) @ [0xFF, 0xFF] @ take 20 (drop 0x1FC kf) @ [0xFF, 0xC1]
    @ take 6 (drop 0x212 kf) @ [0, 0, 0, 0x0F] @ le_bytes 4 (word_of_int (int (length initrd)) :: u32)
    @ take 4 (drop 0x220 kf) @ [0x00, 0xFE] @ take 2 (drop 0x226 kf) @ [0, 0, 2, 0] @ take 64 (drop 0x22C kf)"
proof -
  let ?bs = "take 123 (drop 0x1F1 kf)"
  have h: "guest_header initrd kf = (setup_header_of ?bs)\<lparr>hd_setup_sects := file_sects kf, hd_vid_mode := 0xFFFF,
      hd_type_of_loader := 0xFF, hd_loadflags := 0xC1, hd_ramdisk_image := 0xF000000,
      hd_ramdisk_size := word_of_int (int (length initrd)), hd_heap_end_ptr := 0xFE00, hd_cmd_line_ptr := 0x20000\<rparr>"
    using setup_sects_bytes [OF assms] by (simp add: guest_header_def fill_header_def kernel_header_def)
  have le: "le_bytes 2 (0xFFFF :: u16) = [0xFF, 0xFF]" "le_bytes 2 (0xFE00 :: u16) = [0x00, 0xFE]"
    "le_bytes 4 (0xF000000 :: u32) = [0, 0, 0, 0x0F]" "le_bytes 4 (0x20000 :: u32) = [0, 0, 2, 0]"
    by code_simp+
  have len: "length ?bs = 123" using assms by simp
  show ?thesis
    unfolding h setup_header_bytes_patched [OF len] using assms by (simp add: le drop_take)
qed

section \<open>The page in guest memory\<close>

text \<open>The bytes of the page at an offset, and of the file at one.\<close>

definition zero_page :: "nat \<Rightarrow> nat \<Rightarrow> vm_mem \<Rightarrow> u8 list" where
  "zero_page off n vm = ram_load (0x10000 + off) n (vm_ram vm)"

definition file_bytes :: "nat \<Rightarrow> nat \<Rightarrow> u8 list \<Rightarrow> u8 list" where
  "file_bytes off n kf = take n (drop off kf)"

definition e820_range :: "u64 \<Rightarrow> u64 \<Rightarrow> u32 \<Rightarrow> u8 list" where
  "e820_range addr sz ty = le_bytes 8 addr @ le_bytes 8 sz @ le_bytes 4 ty"

lemma ram_load_slice: "off + n \<le> k \<Longrightarrow> take n (drop off (ram_load a k m)) = ram_load (a + off) n m"
  by (simp add: ram_load_def drop_map take_map take_upt)

lemma zero_page_image:
  assumes "guest_boot_params conf initrd kf bp" "ram_load 0x10000 3280 (vm_ram vm) = boot_params_bytes bp"
    and "off + n \<le> 3280"
  shows "zero_page off n vm = take n (drop off (boot_params_bytes bp))"
  using ram_load_slice [OF assms(3), of "0x10000" "vm_ram vm"] by (simp add: assms(2) zero_page_def)

lemma header_image:
  assumes "boot_params_wf bp" "0x1F1 \<le> off" "off + n \<le> 0x26C"
  shows "take n (drop off (boot_params_bytes bp)) = take n (drop (off - 0x1F1) (setup_header_bytes (bp_header bp)))"
proof -
  obtain k where k: "off = 0x1F1 + k" using assms(2) by (metis le_Suc_ex)
  have "take n (drop k (take 123 (drop 0x1F1 (boot_params_bytes bp)))) = take n (drop off (boot_params_bytes bp))"
    using assms(3) by (simp add: k drop_take min_def add.commute)
  then show ?thesis by (simp add: boot_params_layout(3) [OF assms(1)] k)
qed

lemma zero_page_map:
  assumes "guest_boot_params conf initrd kf bp" "ram_load 0x10000 3280 (vm_ram vm) = boot_params_bytes bp"
  shows "zero_page 0x2D0 80 vm = e820_range 0 0x9FC00 1 @ e820_range 0x9FC00 0x400 2
        @ e820_range 0xF0000 0xFFFF 2 @ e820_range 0x100000 (conf_ram_size conf - 0x100000) 1"
proof -
  have bp: "boot_params_wf bp" "bp_e820_entries bp = 4" "e820_map bp = map e820_of (e820_entries (conf_ram_size conf))"
    using assms(1) by (simp_all add: guest_boot_params_def)
  then have "take 4 (bp_e820map bp) = map e820_of (e820_entries (conf_ram_size conf))"
    by (simp add: e820_map_def)
  then obtain rest where rest: "bp_e820map bp = map e820_of (e820_entries (conf_ram_size conf)) @ rest"
    by (metis append_take_drop_id)
  have "length (concat (map (le_bytes 4) (bp_edd_mbr_sig_buf bp))) = 64"
    using bp(1) length_concat_same [of "le_bytes 4 :: u32 \<Rightarrow> u8 list" 4] by (simp add: boot_params_wf_def)
  then have "zero_page 0x2D0 80 vm = take 80 (concat (map e820entry_bytes (bp_e820map bp)))"
    using zero_page_image [OF assms, of "0x2D0" 80] bp(1) by (simp add: boot_params_bytes_def boot_params_wf_def)
  then show ?thesis
    by (simp add: rest e820_entries_def e820_of_def e820entry_bytes_def e820_range_def)
qed

section \<open>Properties\<close>

text \<open>C36: The zero page at the offsets of the Linux boot protocol, from the bytes of the kernel file:
  if the file has a header with the magic \<open>HdrS\<close> at 0x202, and the parts fit, \<^verbatim>\<open>initRAM\<close> returns 0 and
  the guest finds in the page at 0x10000 the four E820 ranges (their number at 0x1E8, the table at
  0x2D0); at 0x1F1 to 0x26C the header of the file, byte for byte at the same offsets, but for the
  fields of the loader: the setup sectors (0x1F1, 0 replaced by 4), the video mode (0x1FA, normal),
  the type of the loader (0x210, undefined), the flags (0x211, high, segments kept, heap), the
  address and the size of the RAM disk (0x218, 0x21C), the end of the heap (0x224) and the address
  of the command line (0x228). And what follows the boot sector and the setup sectors in the file
  lies at 1 MiB.\<close>

theorem guest_zero_page:
  assumes "loadable conf p0 tables cmdline initrd vm" "\<not> conf_is_64bit_boot conf" "vm_kernel vm = opened kf"
    and "0x26C \<le> length kf" "file_bytes 0x202 4 kf = [0x48, 0x64, 0x72, 0x53]"
    and "(unat (file_sects kf) + 1) * 512 \<le> length kf" "length kf \<le> 0xEF00000 + (unat (file_sects kf) + 1) * 512"
  shows "\<exists>vm'. initRAM conf p0 cmdline vm = Inr (0, vm')
    \<and> zero_page 0x1E8 1 vm' = [4]
    \<and> zero_page 0x1F1 1 vm' = [file_sects kf]
    \<and> zero_page 0x1F2 8 vm' = file_bytes 0x1F2 8 kf
    \<and> zero_page 0x1FA 2 vm' = [0xFF, 0xFF]
    \<and> zero_page 0x1FC 20 vm' = file_bytes 0x1FC 20 kf
    \<and> zero_page 0x210 1 vm' = [0xFF] \<and> zero_page 0x211 1 vm' = [0xC1]
    \<and> zero_page 0x212 6 vm' = file_bytes 0x212 6 kf
    \<and> zero_page 0x218 4 vm' = [0, 0, 0, 0x0F]
    \<and> zero_page 0x21C 4 vm' = le_bytes 4 (of_nat (length initrd) :: u32)
    \<and> zero_page 0x220 4 vm' = file_bytes 0x220 4 kf
    \<and> zero_page 0x224 2 vm' = [0x00, 0xFE]
    \<and> zero_page 0x226 2 vm' = file_bytes 0x226 2 kf
    \<and> zero_page 0x228 4 vm' = [0, 0, 2, 0]
    \<and> zero_page 0x22C 64 vm' = file_bytes 0x22C 64 kf
    \<and> zero_page 0x2D0 80 vm' = e820_range 0 0x9FC00 1 @ e820_range 0x9FC00 0x400 2
        @ e820_range 0xF0000 0xFFFF 2 @ e820_range 0x100000 (conf_ram_size conf - 0x100000) 1
    \<and> ram_load 0x100000 (length kf - (unat (file_sects kf) + 1) * 512) (vm_ram vm')
        = drop ((unat (file_sects kf) + 1) * 512) kf"
proof -
  note off = kernel_offset_bytes [OF assms(4)]
  have boot: "bootable kf" using assms(4,5) by (simp add: bootable_bytes file_bytes_def)
  obtain bp vm' where r: "guest_boot_params conf initrd kf bp" "initRAM conf p0 cmdline vm = Inr (0, vm')"
    and img: "\<forall>(a, bs) \<in> set (guest_image tables bp cmdline initrd kf). ram_load a (length bs) (vm_ram vm') = bs"
    using initRAM_loads [OF assms(1-3) boot] assms(6,7) unfolding off by blast
  have bp: "boot_params_wf bp" "bp_header bp = guest_header initrd kf" "bp_e820_entries bp = 4"
    "e820_map bp = map e820_of (e820_entries (conf_ram_size conf))"
    using r(1) by (simp_all add: guest_boot_params_def)
  have len: "length (boot_params_bytes bp) = 3280" by (rule boot_params_layout(1) [OF bp(1)])
  have page: "ram_load 0x10000 3280 (vm_ram vm') = boot_params_bytes bp"
    using img len by (auto simp: guest_image_def)
  have kern: "ram_load 0x100000 (length kf - kernel_offset kf) (vm_ram vm') = drop (kernel_offset kf) kf"
    using img by (auto simp: guest_image_def)
  note zp = zero_page_image [OF r(1) page]
  have hdr: "zero_page o' n vm' = take n (drop (o' - 0x1F1) (setup_header_bytes (guest_header initrd kf)))"
    if "0x1F1 \<le> o'" "o' + n \<le> 0x26C" for o' n
    using zp [of o' n] header_image [OF bp(1) that] that by (simp add: bp(2))
  note map = zero_page_map [OF r(1) page]
  have n: "zero_page 0x1E8 1 vm' = [4]"
    using zp [of "0x1E8" 1] len boot_params_layout(2) [OF bp(1)] bp(3)
    by (simp add: take_Suc_conv_app_nth)
  show ?thesis
    using r(2) map n kern [unfolded off] assms(4)
    by (simp add: hdr guest_header_bytes file_bytes_def)
qed

theorem guest_zero_page_witness:
  "\<exists>vm'. initRAM tiny_config 0 [] tiny_machine = Inr (0, vm')
    \<and> zero_page 0x1F1 1 vm' = [1] \<and> zero_page 0x218 4 vm' = [0, 0, 0, 0x0F]
    \<and> zero_page 0x228 4 vm' = [0, 0, 2, 0]"
proof -
  obtain e where e: "gen_ebda 1 0 = Inr e" using tiny_tables by blast
  then have l: "loadable tiny_config 0 e [] [0x30, 0x37] tiny_machine"
    by (simp add: loadable_def tiny_config_def tiny_machine_def new_ram_def)
  have b: "0x26C \<le> length tiny_kernel" "file_bytes 0x202 4 tiny_kernel = [0x48, 0x64, 0x72, 0x53]"
    using tiny_kernel_ok(1) by (simp_all add: bootable_bytes file_bytes_def)
  have s: "file_sects tiny_kernel = 1"
    using setup_sects_bytes [OF b(1)] by (simp add: kernel_setup_sects_def tiny_header)
  show ?thesis
    using guest_zero_page [OF l _ _ b] tiny_kernel_ok(3) s
    by (auto simp: tiny_config_def tiny_machine_def)
qed

end
