(* ===== verification/Terminal.thy ===== *)
theory Terminal
  imports LvmmPrelude
begin

text \<open>
  The terminal of the host (\<^verbatim>\<open>src/com1.cpp\<close>): the constructor of \<^verbatim>\<open>COM1\<close> saves the mode of standard
  input and makes it raw, the destructor and a handler run by \<^verbatim>\<open>exit\<close> put it back. The functions
  of \<^verbatim>\<open>termios.h\<close> are modelled as POSIX and the manual page of \<^verbatim>\<open>cfmakeraw\<close> describe them.
\<close>

section \<open>The terminal\<close>

record termios =
  c_iflag :: u32
  c_oflag :: u32
  c_cflag :: u32
  c_lflag :: u32
  c_cc :: "nat \<Rightarrow> u8"

abbreviation (input) IFLAGS_RAW_OFF :: u32 where "IFLAGS_RAW_OFF \<equiv> 0x5EB"

abbreviation (input) OPOST :: u32 where "OPOST \<equiv> 0x1"

abbreviation (input) ONLCR :: u32 where "ONLCR \<equiv> 0x4"

abbreviation (input) LFLAGS_RAW_OFF :: u32 where "LFLAGS_RAW_OFF \<equiv> 0x804B"

abbreviation (input) CSIZE_PARENB :: u32 where "CSIZE_PARENB \<equiv> 0x130"

abbreviation (input) CS8 :: u32 where "CS8 \<equiv> 0x30"

abbreviation (input) VTIME :: nat where "VTIME \<equiv> 5"

abbreviation (input) VMIN :: nat where "VMIN \<equiv> 6"

text \<open>
  \<open>IFLAGS_RAW_OFF\<close> is IGNBRK, BRKINT, PARMRK, ISTRIP, INLCR, IGNCR, ICRNL and IXON;
  \<open>LFLAGS_RAW_OFF\<close> is ISIG, ICANON, ECHO, ECHONL and IEXTEN.
\<close>

definition cfmakeraw :: "termios \<Rightarrow> termios" where
  "cfmakeraw t = t\<lparr>
     c_iflag := c_iflag t AND NOT IFLAGS_RAW_OFF,
     c_oflag := c_oflag t AND NOT OPOST,
     c_lflag := c_lflag t AND NOT LFLAGS_RAW_OFF,
     c_cflag := c_cflag t AND NOT CSIZE_PARENB OR CS8,
     c_cc := (c_cc t)(VMIN := 1, VTIME := 0)\<rparr>"

text \<open>
  The process as far as the terminal goes: whether standard input is one (\<^verbatim>\<open>isatty\<close>), whether its
  attributes can be read, the attributes; the serial port objects that exist, each with its two
  members; the pointer \<^verbatim>\<open>g_termios_to_restore\<close> as the object it points into; and how often the
  handler has been registered.
\<close>

record com1_term =
  termios_saved :: bool
  saved_termios :: termios

record term_state =
  tt_isatty :: bool
  tt_readable :: bool
  tt_attr :: termios
  tt_objs :: "nat \<Rightarrow> com1_term option"
  g_termios_to_restore :: "nat option"
  tt_handlers :: nat

definition tcsetattr :: "termios \<Rightarrow> term_state \<Rightarrow> term_state" where
  "tcsetattr t s = (if tt_isatty s then s\<lparr>tt_attr := t\<rparr> else s)"

section \<open>The code\<close>

text \<open>The terminal part of the constructor; \<open>t0\<close> is the uninitialised \<^verbatim>\<open>saved_termios\<close>.\<close>

definition com1_raw_mode :: "termios \<Rightarrow> termios" where
  "com1_raw_mode saved =
     (let raw = cfmakeraw saved;
          raw = raw\<lparr>c_oflag := c_oflag raw OR (OPOST OR ONLCR)\<rparr>
      in raw\<lparr>c_cc := (c_cc raw)(VMIN := 1, VTIME := 0)\<rparr>)"

definition com1_open_terminal :: "nat \<Rightarrow> termios \<Rightarrow> term_state \<Rightarrow> term_state" where
  "com1_open_terminal i t0 s =
     (let s1 = s\<lparr>tt_objs := (tt_objs s)(i \<mapsto> \<lparr>termios_saved = False, saved_termios = t0\<rparr>)\<rparr> in
      if tt_isatty s1 then
        if tt_readable s1 then
          let saved = tt_attr s1;
              s2 = s1\<lparr>tt_objs := (tt_objs s1)(i \<mapsto> \<lparr>termios_saved = True, saved_termios = saved\<rparr>),
                      g_termios_to_restore := Some i, tt_handlers := tt_handlers s1 + 1\<rparr>
          in tcsetattr (com1_raw_mode saved) s2
        else s1
      else s1)"

text \<open>The terminal part of the destructor, after which the object is gone.\<close>

definition com1_close_terminal :: "nat \<Rightarrow> term_state \<Rightarrow> term_state" where
  "com1_close_terminal i s =
     (case tt_objs s i of
        None \<Rightarrow> s
      | Some c \<Rightarrow>
          let s1 = (if termios_saved c then tcsetattr (saved_termios c) s else s)
          in s1\<lparr>tt_objs := (tt_objs s1)(i := None)\<rparr>)"

text \<open>Following the pointer into an object that is gone is undefined behaviour.\<close>

definition restore_termios_atexit :: "term_state \<Rightarrow> fault + term_state" where
  "restore_termios_atexit s =
     (case g_termios_to_restore s of
        None \<Rightarrow> Inr s
      | Some i \<Rightarrow>
          (case tt_objs s i of
             None \<Rightarrow> Inl Out_Of_Bounds
           | Some c \<Rightarrow> Inr (tcsetattr (saved_termios c) s)))"

text \<open>\<^verbatim>\<open>exit\<close> runs the handler as often as it has been registered.\<close>

fun run_handlers :: "nat \<Rightarrow> term_state \<Rightarrow> fault + term_state" where
  "run_handlers 0 s = Inr s"
| "run_handlers (Suc n) s = chain (restore_termios_atexit s) (run_handlers n)"

definition term_exit :: "term_state \<Rightarrow> fault + term_state" where
  "term_exit s = run_handlers (tt_handlers s) s"

section \<open>What the code does\<close>

text \<open>A process before it has made a serial port.\<close>

definition term_start :: "bool \<Rightarrow> bool \<Rightarrow> termios \<Rightarrow> term_state" where
  "term_start is_tty readable t = \<lparr>tt_isatty = is_tty, tt_readable = readable, tt_attr = t,
     tt_objs = (\<lambda>_. None), g_termios_to_restore = None, tt_handlers = 0\<rparr>"

text \<open>Raw mode: no echo, no lines, no signals, no flow control, eight bits, and yet newlines are
  expanded on output; everything else is as before.\<close>

lemma com1_raw_mode_bits:
  "\<not> bit (c_lflag (com1_raw_mode t)) 0" "\<not> bit (c_lflag (com1_raw_mode t)) 1"
  "\<not> bit (c_lflag (com1_raw_mode t)) 3" "\<not> bit (c_iflag (com1_raw_mode t)) 10"
  "c_cflag (com1_raw_mode t) AND CSIZE_PARENB = CS8"
  "bit (c_oflag (com1_raw_mode t)) 0" "bit (c_oflag (com1_raw_mode t)) 2"
  "\<forall>i. i \<noteq> 0 \<longrightarrow> i \<noteq> 2 \<longrightarrow> bit (c_oflag (com1_raw_mode t)) i = bit (c_oflag t) i"
  "c_cc (com1_raw_mode t) VMIN = 1" "c_cc (com1_raw_mode t) VTIME = 0"
proof -
  have off: "bit (0x804B :: u32) 0" "bit (0x804B :: u32) 1" "bit (0x804B :: u32) 3" "bit (0x5EB :: u32) 10"
    by code_simp+
  have on: "bit (0x5 :: u32) i \<longleftrightarrow> i = 0 \<or> i = 2" for i
  proof -
    have five: "(0x5 :: u32) = 1 OR push_bit 2 1" by code_simp
    show ?thesis
      by (simp only: five bit_or_iff bit_push_bit_iff bit_1_iff possible_bit_word) auto
  qed
  have o: "bit (x AND NOT 0x1 OR 0x5) i \<longleftrightarrow> i = 0 \<or> i = 2 \<or> bit x i" for x :: u32 and i
  proof (cases "i < 32")
    case True
    then show ?thesis
      by (simp only: bit_or_iff bit_and_iff bit_not_iff on bit_1_iff possible_bit_word len_of_numeral_defs) auto
  next
    case False
    then show ?thesis using bit_imp_le_length [of _ i, where 'a = 32] by auto
  qed
  have oflag: "c_oflag (com1_raw_mode t) = c_oflag t AND NOT 0x1 OR 0x5"
    by (simp add: com1_raw_mode_def cfmakeraw_def Let_def)
  show "\<not> bit (c_lflag (com1_raw_mode t)) 0" "\<not> bit (c_lflag (com1_raw_mode t)) 1"
    "\<not> bit (c_lflag (com1_raw_mode t)) 3" "\<not> bit (c_iflag (com1_raw_mode t)) 10"
    using off by (simp_all add: com1_raw_mode_def cfmakeraw_def Let_def bit_and_iff bit_not_iff)
  show "c_cc (com1_raw_mode t) VMIN = 1" "c_cc (com1_raw_mode t) VTIME = 0"
    by (simp_all add: com1_raw_mode_def Let_def)
  show "bit (c_oflag (com1_raw_mode t)) 0" "bit (c_oflag (com1_raw_mode t)) 2"
    "\<forall>i. i \<noteq> 0 \<longrightarrow> i \<noteq> 2 \<longrightarrow> bit (c_oflag (com1_raw_mode t)) i = bit (c_oflag t) i"
    unfolding oflag o by simp_all
  have "(x AND NOT 0x130 OR 0x30) AND 0x130 = 0x30" for x :: u32
    unfolding word_ao_dist and.assoc by simp
  then show "c_cflag (com1_raw_mode t) AND CSIZE_PARENB = CS8"
    by (simp add: com1_raw_mode_def cfmakeraw_def Let_def)
qed

text \<open>Destroying the object puts the terminal back, but leaves the pointer of the handler behind.\<close>

lemma com1_close_then_exit:
  assumes "s = com1_close_terminal i (com1_open_terminal i t0 (term_start True True t))"
  shows "tt_attr s = t \<and> term_exit s = Inl Out_Of_Bounds"
  using assms
  by (simp add: com1_open_terminal_def com1_close_terminal_def term_start_def tcsetattr_def
      term_exit_def restore_termios_atexit_def)

section \<open>Properties\<close>

text \<open>C35: The user gets the terminal back: making the serial port puts standard input into raw mode
  if it is a terminal whose mode could be saved, and does nothing to it otherwise; and whatever mode
  it is in when the process exits, the handler finds its object and leaves the terminal in the mode
  it had at first.\<close>

theorem terminal_restored_at_exit:
  "let s1 = com1_open_terminal i t0 (term_start is_tty readable t) in
   tt_attr s1 = (if is_tty \<and> readable then com1_raw_mode t else t)
   \<and> (\<exists>s. term_exit (s1\<lparr>tt_attr := x\<rparr>) = Inr s \<and> tt_attr s = (if is_tty \<and> readable then t else x))"
  by (cases "is_tty \<and> readable")
    (auto simp: com1_open_terminal_def term_start_def tcsetattr_def term_exit_def
      restore_termios_atexit_def Let_def)

end
