(* ===== verification/Teardown.thy ===== *)
theory Teardown
  imports Terminal SerialChannel OStream
begin

text \<open>
  The destructors with a body: \<^verbatim>\<open>BaseClass::~BaseClass\<close> (\<^verbatim>\<open>src/baseclass.cpp\<close>), which those of \<^verbatim>\<open>KVM\<close>,
  \<^verbatim>\<open>VM\<close> and \<^verbatim>\<open>Vcpu\<close> come to, and \<^verbatim>\<open>COM1::~COM1\<close> (\<^verbatim>\<open>src/com1.cpp\<close>). The program deletes none of its
  objects, so that they are not part of a boot; the theory says what they would do.
\<close>

section \<open>The objects with a file descriptor\<close>

text \<open>\<open>close_fd\<close> is the system call \<^verbatim>\<open>close\<close>, whose result is dropped; the descriptor is -1 by default.\<close>

definition BaseClass_dtor :: "(int \<Rightarrow> 'k \<Rightarrow> 'k) \<Rightarrow> int \<Rightarrow> ostream \<times> 'k \<Rightarrow> ostream \<times> 'k" where
  "BaseClass_dtor close_fd fd s =
     (let (out, k) = s in
      if fd \<ge> 0 then (out_all [Str ''closed: '', Num (nat fd), Str [NL]] out, close_fd fd k) else s)"

lemma BaseClass_dtor_default: "BaseClass_dtor close_fd (- 1) s = s"
  by (simp add: BaseClass_dtor_def split: prod.splits)

text \<open>The object does not own its descriptor: two objects made with the same one close it twice.\<close>

lemma BaseClass_dtor_twice:
  assumes "0 \<le> fd"
  shows "snd (BaseClass_dtor close_fd fd (BaseClass_dtor close_fd fd s)) = close_fd fd (close_fd fd (snd s))"
  using assms by (simp add: BaseClass_dtor_def split: prod.splits)

section \<open>The serial port\<close>

text \<open>The port, whether \<^verbatim>\<open>reader_thread\<close> is joinable, and the terminal, in which the object is number \<open>i\<close>.\<close>

definition COM1_dtor :: "nat \<Rightarrow> com1 \<times> bool \<times> term_state \<Rightarrow> com1 \<times> bool \<times> term_state" where
  "COM1_dtor i s =
     (let (c, joinable, ts) = s
      in (c\<lparr>shutting_down := True\<rparr>, (if joinable then False else joinable), com1_close_terminal i ts))"

text \<open>A reader thread at the head of its loop ends without another read.\<close>

lemma COM1_dtor_reader_ends:
  assumes "COM1_dtor i (c, joinable, ts) = (c', joinable', ts')"
  shows "readerLoop os vm_fd (c', h) = Some (c', h)"
  using assms by (subst readerLoop.simps) (auto simp: COM1_dtor_def)

text \<open>But the thread is detached, not joined: one that waits in \<^verbatim>\<open>read\<close> is past the test of the flag. It takes
  one more byte, at any later time, into the queue of the object that is gone, and ends only then.\<close>

lemma COM1_dtor_late_byte:
  assumes "COM1_dtor i (c, joinable, ts) = (c', joinable', ts')" "os_read os (kern h) = ((1, x), k)"
  shows "\<not> joinable' \<and> (\<exists>c1 h1. reader_iter os vm_fd (c', h) = (True, (c1, h1))
    \<and> rx_buf c1 = rx_buf c @ [x] \<and> readerLoop os vm_fd (c1, h1) = Some (c1, h1))"
proof -
  have c': "c' = c\<lparr>shutting_down := True\<rparr>" "\<not> joinable'" using assms(1) by (auto simp: COM1_dtor_def split: if_splits)
  have "\<exists>h1. reader_iter os vm_fd (c', h) = (True, (rx_push x c', h1))"
    using assms(2) by (simp add: reader_iter_def Let_def split: prod.splits)
  then obtain c1 h1 where iter: "reader_iter os vm_fd (c', h) = (True, (c1, h1))" "c1 = rx_push x c'" by blast
  then have "shutting_down c1" "rx_buf c1 = rx_buf c @ [x]" by (simp_all add: c'(1) rx_push_def)
  moreover from this have "readerLoop os vm_fd (c1, h1) = Some (c1, h1)" by (subst readerLoop.simps) simp
  ultimately show ?thesis using iter(1) c'(2) by blast
qed

text \<open>The user has the terminal mode back then, if the object had saved it.\<close>

lemma COM1_dtor_terminal:
  assumes "COM1_dtor i (c, joinable, ts) = (c', joinable', ts')"
    and "tt_objs ts i = Some ob" "termios_saved ob" "tt_isatty ts"
  shows "tt_attr ts' = saved_termios ob \<and> tt_objs ts' i = None"
  using assms by (auto simp: COM1_dtor_def com1_close_terminal_def tcsetattr_def)

end
