(* ===== verification/Pci.thy ===== *)
theory Pci
  imports IODevice
begin

text \<open>
  The PCI configuration address register (\<^verbatim>\<open>include/pci.hpp\<close>, \<^verbatim>\<open>src/pci.cpp\<close>): its fields and
  the two handlers of the address port. The configuration data handlers are commented out in
  the source, and \<^verbatim>\<open>VM::initPIOHandler\<close> registers neither of the handlers below.
\<close>

abbreviation (input) PCI_ADDR_SIZE :: u8 where "PCI_ADDR_SIZE \<equiv> 4"

abbreviation (input) PCI_ADDR_OFFSET_MASK :: u32 where "PCI_ADDR_OFFSET_MASK \<equiv> 0x000000FC"

abbreviation (input) PCI_ADDR_FUNC_MASK :: u32 where "PCI_ADDR_FUNC_MASK \<equiv> 0x00000700"

abbreviation (input) PCI_ADDR_DEV_MASK :: u32 where "PCI_ADDR_DEV_MASK \<equiv> 0x0000F800"

abbreviation (input) PCI_ADDR_BUS_MASK :: u32 where "PCI_ADDR_BUS_MASK \<equiv> 0x00FF0000"

abbreviation (input) PCI_ADDR_FUNC_BIT :: nat where "PCI_ADDR_FUNC_BIT \<equiv> 8"

abbreviation (input) PCI_ADDR_DEV_BIT :: nat where "PCI_ADDR_DEV_BIT \<equiv> 11"

abbreviation (input) PCI_ADDR_BUS_BIT :: nat where "PCI_ADDR_BUS_BIT \<equiv> 16"

abbreviation (input) PCI_ADDR_ENABLE_BIT :: nat where "PCI_ADDR_ENABLE_BIT \<equiv> 31"

record pci =
  pci_addr :: u32

definition is_addr_enable :: "pci \<Rightarrow> bool" where
  "is_addr_enable p \<longleftrightarrow> drop_bit PCI_ADDR_ENABLE_BIT (pci_addr p) AND 1 = 1"

definition get_offset :: "pci \<Rightarrow> u32" where
  "get_offset p = pci_addr p AND PCI_ADDR_OFFSET_MASK"

definition get_func :: "pci \<Rightarrow> u32" where
  "get_func p = drop_bit PCI_ADDR_FUNC_BIT (pci_addr p AND PCI_ADDR_FUNC_MASK)"

definition get_dev :: "pci \<Rightarrow> u32" where
  "get_dev p = drop_bit PCI_ADDR_DEV_BIT (pci_addr p AND PCI_ADDR_DEV_MASK)"

definition get_bus :: "pci \<Rightarrow> u32" where
  "get_bus p = drop_bit PCI_ADDR_BUS_BIT (pci_addr p AND PCI_ADDR_BUS_MASK)"

text \<open>\<^verbatim>\<open>*reinterpret_cast<uint32_t*>(data_ptr)\<close>.\<close>

definition load32 :: "buf \<Rightarrow> u32" where
  "load32 b = of_le [b 0, b 1, b 2, b 3]"

text \<open>
  \<^verbatim>\<open>*data_ptr = *addr_ptr\<close>: \<^verbatim>\<open>addr_ptr\<close> is \<^verbatim>\<open>data_ptr\<close> itself, so the low byte of what the buffer
  holds is stored over the buffer's first byte.
\<close>

definition config_addr_in :: "pci dev_op" where
  "config_addr_in port b sz p =
     (if sz \<noteq> PCI_ADDR_SIZE then Inr (1, b, p)
      else Inr (0, b(0 := ucast (load32 b)), p))"

definition config_addr_out :: "pci dev_op" where
  "config_addr_out port b sz p =
     (if sz \<noteq> PCI_ADDR_SIZE then Inr (1, b, p)
      else Inr (0, b, p\<lparr>pci_addr := load32 b\<rparr>))"

section \<open>The fields\<close>

lemma get_func_eq: "get_func p = take_bit 3 (drop_bit 8 (pci_addr p))"
  using masked_field [of 8 "pci_addr p" 3] by (simp add: get_func_def mask_eq_exp_minus_1)

lemma get_dev_eq: "get_dev p = take_bit 5 (drop_bit 11 (pci_addr p))"
  using masked_field [of 11 "pci_addr p" 5] by (simp add: get_dev_def mask_eq_exp_minus_1)

lemma get_bus_eq: "get_bus p = take_bit 8 (drop_bit 16 (pci_addr p))"
  using masked_field [of 16 "pci_addr p" 8] by (simp add: get_bus_def mask_eq_exp_minus_1)

lemma get_offset_eq: "get_offset p = push_bit 2 (take_bit 6 (drop_bit 2 (pci_addr p)))"
  using masked_field_in_place [of "pci_addr p" 2 6]
  by (simp add: get_offset_def mask_eq_exp_minus_1)

lemma is_addr_enable_eq: "is_addr_enable p \<longleftrightarrow> bit (pci_addr p) 31"
  by (simp add: is_addr_enable_def and_one_eq bit_iff_odd_drop_bit mod_2_eq_odd)

text \<open>The load of a little-endian word is the inverse of its byte image.\<close>

lemma load32_bytes: "load32 (\<lambda>i. if i < 4 then le_bytes 4 w ! i else z i) = w"
proof -
  have "[le_bytes 4 w ! 0, le_bytes 4 w ! 1, le_bytes 4 w ! 2, le_bytes 4 w ! 3] = le_bytes 4 w"
    by (simp add: le_bytes_def upt_rec)
  then show ?thesis using of_le_le_bytes [of 4 w] by (simp add: load32_def)
qed

lemma load32_low_byte: "ucast (load32 b) = b 0"
  unfolding load32_def by (rule bit_word_eqI) (simp add: bit_simps bit_of_le)

section \<open>Properties\<close>

text \<open>C38: A guest that writes the address of a configuration register in four bytes to the address
  port selects exactly that register: enable flag, bus, device, function and dword offset read
  back from the stored address are the ones it encoded.\<close>

theorem pci_config_address_roundtrip:
  fixes bus dev func off :: u32
  assumes "bus < 256" "dev < 32" "func < 8" "off < 64"
    and w: "w = push_bit 31 (of_bool en) OR push_bit 16 bus OR push_bit 11 dev
             OR push_bit 8 func OR push_bit 2 off"
  shows "\<exists>p'. config_addr_out port (\<lambda>i. if i < 4 then le_bytes 4 w ! i else z i) 4 p
                = Inr (0, \<lambda>i. if i < 4 then le_bytes 4 w ! i else z i, p')
            \<and> (is_addr_enable p' \<longleftrightarrow> en) \<and> get_bus p' = bus \<and> get_dev p' = dev
            \<and> get_func p' = func \<and> get_offset p' = push_bit 2 off"
proof -
  have small: "bit bus i \<Longrightarrow> i < 8" "bit dev i \<Longrightarrow> i < 5" "bit func i \<Longrightarrow> i < 3" "bit off i \<Longrightarrow> i < 6"
    for i
    using bit_less_exp [of bus 8 i] bit_less_exp [of dev 5 i] bit_less_exp [of func 3 i]
      bit_less_exp [of off 6 i] assms(1-4) by simp_all
  let ?p = "p\<lparr>pci_addr := w\<rparr>"
  have "get_bus ?p = bus"
    unfolding get_bus_eq w by (rule bit_word_eqI) (auto simp: bit_simps dest: small)
  moreover have "get_dev ?p = dev"
    unfolding get_dev_eq w by (rule bit_word_eqI) (auto simp: bit_simps dest: small)
  moreover have "get_func ?p = func"
    unfolding get_func_eq w by (rule bit_word_eqI) (auto simp: bit_simps dest: small)
  moreover have "get_offset ?p = push_bit 2 off"
    unfolding get_offset_eq w by (rule bit_word_eqI) (auto simp: bit_simps dest: small)
  moreover have "is_addr_enable ?p \<longleftrightarrow> en"
    unfolding is_addr_enable_eq w by (auto simp: bit_simps dest: small)
  ultimately show ?thesis by (simp add: config_addr_out_def load32_bytes)
qed

theorem pci_config_address_roundtrip_witness:
  "\<exists>p'. config_addr_out 0xCF8 (\<lambda>i. if i < 4 then le_bytes 4 (0x80011310 :: u32) ! i else 0) 4 \<lparr>pci_addr = 0\<rparr>
        = Inr (0, \<lambda>i. if i < 4 then le_bytes 4 (0x80011310 :: u32) ! i else 0, p')
    \<and> is_addr_enable p' \<and> get_bus p' = 1 \<and> get_dev p' = 2 \<and> get_func p' = 3 \<and> get_offset p' = push_bit 2 4"
proof -
  have w: "(0x80011310 :: u32) = push_bit 31 (of_bool True) OR push_bit 16 1 OR push_bit 11 2 OR push_bit 8 3 OR push_bit 2 4"
    by code_simp
  show ?thesis
    using pci_config_address_roundtrip [OF _ _ _ _ w, of "0xCF8" "\<lambda>_. 0" "\<lparr>pci_addr = 0\<rparr>"] by simp
qed

text \<open>The handler for reading the address port never returns the address register: for every
  access size, register value and buffer the guest's data is left as it was.\<close>

lemma pci_config_address_read_is_stale:
  "\<exists>r. config_addr_in port b sz p = Inr (r, b, p)"
  by (simp add: config_addr_in_def load32_low_byte)

end
