(* ===== verification/Paging.thy ===== *)
theory Paging
  imports GuestRam BootConsts
begin

text \<open>
  The boot page table (\<^verbatim>\<open>include/paging.hpp\<close>, \<^verbatim>\<open>VM::createPageTable\<close> of \<^verbatim>\<open>src/vm.cpp\<close>) and,
  as the specification it is measured against, the translation of a linear address by 4-level
  paging as the processor manual defines it.
\<close>

section \<open>Constants\<close>

abbreviation (input) PAGE_FLAG_P :: u64 where "PAGE_FLAG_P \<equiv> 1"

abbreviation (input) PAGE_FLAG_RW :: u64 where "PAGE_FLAG_RW \<equiv> 2"

abbreviation (input) PAGE_FLAG_US :: u64 where "PAGE_FLAG_US \<equiv> 4"

abbreviation (input) PAGE_FLAG_PWT :: u64 where "PAGE_FLAG_PWT \<equiv> 8"

abbreviation (input) PAGE_FLAG_PCD :: u64 where "PAGE_FLAG_PCD \<equiv> 0x10"

abbreviation (input) PAGE_FLAG_A :: u64 where "PAGE_FLAG_A \<equiv> 0x20"

abbreviation (input) PAGE_FLAG_D :: u64 where "PAGE_FLAG_D \<equiv> 0x40"

abbreviation (input) PAGE_FLAG_PS :: u64 where "PAGE_FLAG_PS \<equiv> 0x80"

abbreviation (input) PAGE_FLAG_G :: u64 where "PAGE_FLAG_G \<equiv> 0x100"

abbreviation (input) PAGE_FLAG_R :: u64 where "PAGE_FLAG_R \<equiv> 0x800"

abbreviation (input) PAGE_FLAG_PAT :: u64 where "PAGE_FLAG_PAT \<equiv> 0x1000"

abbreviation (input) PAGE_SIZE_4KB :: u64 where "PAGE_SIZE_4KB \<equiv> 0x1000"

abbreviation (input) PAGE_SIZE_2MB :: u64 where "PAGE_SIZE_2MB \<equiv> 0x200000"

abbreviation (input) BOOT_PAGETABLE_SIZE :: nat where "BOOT_PAGETABLE_SIZE \<equiv> 0x6000"

abbreviation (input) BOOT_PDPTE_NUM :: nat where "BOOT_PDPTE_NUM \<equiv> 4"

abbreviation (input) BOOT_PDE_NUM :: nat where "BOOT_PDE_NUM \<equiv> 2048"

abbreviation (input) PL4_ADDR_MASK :: u64 where "PL4_ADDR_MASK \<equiv> 0x0000FFFFFFFFF000"

section \<open>createPageTable\<close>

text \<open>The two loops, with \<open>n\<close> iterations left at index \<open>i\<close>; \<open>start\<close> is the table's address.\<close>

primrec pdpte_loop :: "nat \<Rightarrow> nat \<Rightarrow> nat \<Rightarrow> u64 \<Rightarrow> guest_ram \<Rightarrow> fault + guest_ram" where
  "pdpte_loop 0 start i pdpte m = Inr m"
| "pdpte_loop (Suc n) start i pdpte m =
     (let pdpte' = pdpte + PAGE_SIZE_4KB in
      chain (ram_store (start + 8 * i) (le_bytes 8 pdpte') m) (\<lambda>m'.
        pdpte_loop n start (Suc i) pdpte' m'))"

primrec pde_loop :: "nat \<Rightarrow> nat \<Rightarrow> nat \<Rightarrow> u64 \<Rightarrow> guest_ram \<Rightarrow> fault + guest_ram" where
  "pde_loop 0 start i pde m = Inr m"
| "pde_loop (Suc n) start i pde m =
     chain (ram_store (start + 8 * i) (le_bytes 8 pde) m) (\<lambda>m'.
       pde_loop n start (Suc i) (pde + PAGE_SIZE_2MB) m')"

text \<open>\<open>ram_start\<close> is the host address of guest memory, which the assertion looks at.\<close>

definition createPageTable :: "u64 \<Rightarrow> u64 \<Rightarrow> guest_ram \<Rightarrow> fault + guest_ram" where
  "createPageTable ram_start boot_pgtable_base m =
     (let base = unat boot_pgtable_base;
          pml4_start_gpa = boot_pgtable_base;
          pdpte_start_gpa = boot_pgtable_base + PAGE_SIZE_4KB
      in if \<not> (NOT PL4_ADDR_MASK \<noteq> 0 \<and> ram_start + boot_pgtable_base \<noteq> 0) then Inl Assert_Failed
      else
        chain (ram_store base (replicate BOOT_PAGETABLE_SIZE 0) m) (\<lambda>m1.
        chain (ram_store base
                 (le_bytes 8 ((PAGE_FLAG_PCD OR PAGE_FLAG_RW OR PAGE_FLAG_P)
                              + (pml4_start_gpa + PAGE_SIZE_4KB))) m1) (\<lambda>m2.
        chain (pdpte_loop BOOT_PDPTE_NUM (base + 0x1000) 0
                 ((PAGE_FLAG_PCD OR PAGE_FLAG_RW OR PAGE_FLAG_P) + pdpte_start_gpa) m2) (\<lambda>m3.
          pde_loop BOOT_PDE_NUM (base + 0x2000) 0
            (PAGE_FLAG_G OR PAGE_FLAG_PS OR PAGE_FLAG_RW OR PAGE_FLAG_P) m3))))"

section \<open>4-level paging\<close>

definition load64 :: "guest_ram \<Rightarrow> nat \<Rightarrow> u64" where
  "load64 m a = of_le (ram_load a 8 m)"

text \<open>The entry that bits \<open>k + 8\<close> to \<open>k\<close> of the linear address select in the table at \<open>table\<close>.\<close>

definition table_entry :: "guest_ram \<Rightarrow> u64 \<Rightarrow> nat \<Rightarrow> u64 \<Rightarrow> u64" where
  "table_entry m table k va = load64 m (unat table + 8 * unat (drop_bit k va AND 0x1FF))"

text \<open>The translation; \<open>None\<close> is a page fault. Permission bits are not checked.\<close>

definition walk :: "guest_ram \<Rightarrow> u64 \<Rightarrow> u64 \<Rightarrow> u64 option" where
  "walk m cr3_base va =
     (let pml4e = table_entry m (cr3_base AND 0x000FFFFFFFFFF000) 39 va in
      if \<not> bit pml4e 0 then None
      else
        let pdpte = table_entry m (pml4e AND 0x000FFFFFFFFFF000) 30 va in
        if \<not> bit pdpte 0 then None
        else if bit pdpte 7 then Some ((pdpte AND 0x000FFFFFC0000000) OR (va AND 0x3FFFFFFF))
        else
          let pde = table_entry m (pdpte AND 0x000FFFFFFFFFF000) 21 va in
          if \<not> bit pde 0 then None
          else if bit pde 7 then Some ((pde AND 0x000FFFFFFFE00000) OR (va AND 0x1FFFFF))
          else
            let pte = table_entry m (pde AND 0x000FFFFFFFFFF000) 12 va in
            if \<not> bit pte 0 then None
            else Some ((pte AND 0x000FFFFFFFFFF000) OR (va AND 0xFFF)))"

section \<open>The loops as one store\<close>

fun entries_from :: "nat \<Rightarrow> u64 \<Rightarrow> u64 \<Rightarrow> u64 list" where
  "entries_from 0 step e = []"
| "entries_from (Suc n) step e = e # entries_from n step (e + step)"

lemma length_entries_from [simp]: "length (entries_from n step e) = n"
  by (induction n arbitrary: e) simp_all

lemma nth_entries_from: "i < n \<Longrightarrow> entries_from n step e ! i = e + of_nat i * step"
proof (induction n arbitrary: e i)
  case (Suc n)
  then show ?case by (cases i) (simp_all add: algebra_simps)
qed simp

definition entry_bytes :: "u64 list \<Rightarrow> u8 list" where
  "entry_bytes es = concat (map (le_bytes 8) es)"

lemma length_entry_bytes [simp]: "length (entry_bytes es) = 8 * length es"
  by (induction es) (simp_all add: entry_bytes_def)

lemma nth_entry_bytes: "i < length es \<Longrightarrow> take 8 (drop (8 * i) (entry_bytes es)) = le_bytes 8 (es ! i)"
proof (induction es arbitrary: i)
  case (Cons e es)
  then show ?case by (cases i) (simp_all add: entry_bytes_def)
qed simp

lemma pde_loop_store:
  "start + 8 * (i + n) \<le> ram_size m \<Longrightarrow>
     pde_loop n start i e m = ram_store (start + 8 * i) (entry_bytes (entries_from n PAGE_SIZE_2MB e)) m"
proof (induction n arbitrary: i e m)
  case 0
  then show ?case by (simp add: entry_bytes_def ram_store_Nil)
next
  case (Suc n)
  obtain m' where m': "ram_store (start + 8 * i) (le_bytes 8 e) m = Inr m'"
    using Suc.prems ram_store_ok_iff [of "start + 8 * i" "le_bytes 8 e" m] by auto
  with Suc have "pde_loop n start (Suc i) (e + PAGE_SIZE_2MB) m' =
      ram_store (start + 8 * Suc i) (entry_bytes (entries_from n PAGE_SIZE_2MB (e + PAGE_SIZE_2MB))) m'"
    by (simp add: ram_store_size)
  with m' show ?case
    using ram_store_append [of "start + 8 * i" "le_bytes 8 e" m]
    by (simp add: entry_bytes_def algebra_simps)
qed

lemma pdpte_loop_store:
  "start + 8 * (i + n) \<le> ram_size m \<Longrightarrow>
     pdpte_loop n start i e m =
       ram_store (start + 8 * i) (entry_bytes (entries_from n PAGE_SIZE_4KB (e + PAGE_SIZE_4KB))) m"
proof (induction n arbitrary: i e m)
  case 0
  then show ?case by (simp add: entry_bytes_def ram_store_Nil)
next
  case (Suc n)
  let ?e = "e + PAGE_SIZE_4KB"
  obtain m' where m': "ram_store (start + 8 * i) (le_bytes 8 ?e) m = Inr m'"
    using Suc.prems ram_store_ok_iff [of "start + 8 * i" "le_bytes 8 ?e" m] by auto
  with Suc have "pdpte_loop n start (Suc i) ?e m' =
      ram_store (start + 8 * Suc i) (entry_bytes (entries_from n PAGE_SIZE_4KB (?e + PAGE_SIZE_4KB))) m'"
    by (simp add: ram_store_size)
  with m' show ?case
    using ram_store_append [of "start + 8 * i" "le_bytes 8 ?e" m]
    by (simp add: entry_bytes_def algebra_simps)
qed

section \<open>The tables in memory\<close>

lemma load64_stored:
  assumes "ram_store a (entry_bytes es) m = Inr m'" "i < length es"
  shows "load64 m' (a + 8 * i) = es ! i"
proof -
  have "ram_load (a + 8 * i) 8 m' = take 8 (drop (8 * i) (entry_bytes es))"
    using assms(2) by (intro ram_load_part [OF assms(1)]) simp
  then show ?thesis
    using assms(2) by (simp add: load64_def nth_entry_bytes of_le_le_bytes)
qed

lemma load64_other:
  "ram_store a bs m = Inr m' \<Longrightarrow> b + 8 \<le> a \<or> a + length bs \<le> b \<Longrightarrow> load64 m' b = load64 m b"
  by (simp add: load64_def ram_load_other)

lemma load64_zeroed:
  assumes "ram_store a (replicate n 0) m = Inr m'" "a \<le> b" "b + 8 \<le> a + n"
  shows "load64 m' b = 0"
proof -
  have "ram_load (a + (b - a)) 8 m' = take 8 (drop (b - a) (replicate n 0))"
    using assms(2,3) by (intro ram_load_part [OF assms(1)]) simp
  also have "\<dots> = replicate 8 0" using assms(2,3) by simp
  finally have "load64 m' b = of_le (replicate 8 0)" using assms(2) by (simp add: load64_def)
  also have "\<dots> = 0" by (simp add: numeral_eq_Suc)
  finally show ?thesis .
qed

text \<open>What the three levels hold once the table has been built at \<open>b\<close>.\<close>

definition boot_table_at :: "nat \<Rightarrow> guest_ram \<Rightarrow> bool" where
  "boot_table_at b m \<longleftrightarrow>
     (\<forall>i < 512. load64 m (b + 8 * i) = (if i = 0 then of_nat (b + 0x1013) else 0))
   \<and> (\<forall>i < 512. load64 m (b + 0x1000 + 8 * i) =
         (if i < 4 then of_nat (b + 0x2013 + i * 0x1000) else 0))
   \<and> (\<forall>i < 2048. load64 m (b + 0x2000 + 8 * i) = of_nat (0x183 + i * 0x200000))"

lemma boot_table_stores:
  assumes m1: "ram_store b (replicate 0x6000 0) m = Inr m1"
    and m2: "ram_store b (entry_bytes [of_nat (b + 0x1013)]) m1 = Inr m2"
    and m3: "ram_store (b + 0x1000)
        (entry_bytes (entries_from 4 PAGE_SIZE_4KB (of_nat (b + 0x2013)))) m2 = Inr m3"
    and m4: "ram_store (b + 0x2000) (entry_bytes (entries_from 2048 PAGE_SIZE_2MB 0x183)) m3 = Inr m4"
  shows "boot_table_at b m4"
proof -
  have zero: "load64 m2 (b + k) = 0" if "8 \<le> k" "k + 8 \<le> 0x6000" for k
    using load64_other [OF m2, of "b + k"] load64_zeroed [OF m1, of "b + k"] that by simp
  have "load64 m4 (b + 8 * i) = (if i = 0 then of_nat (b + 0x1013) else 0)" if "i < 512" for i
  proof -
    have "load64 m4 (b + 8 * i) = load64 m2 (b + 8 * i)"
      using that load64_other [OF m3, of "b + 8 * i"] load64_other [OF m4, of "b + 8 * i"] by simp
    then show ?thesis
      using that zero [of "8 * i"] load64_stored [OF m2, of 0] by (cases "i = 0") simp_all
  qed
  moreover have "load64 m4 (b + 0x1000 + 8 * i) =
      (if i < 4 then of_nat (b + 0x2013 + i * 0x1000) else 0)" if "i < 512" for i
  proof -
    have "load64 m4 (b + 0x1000 + 8 * i) = load64 m3 (b + 0x1000 + 8 * i)"
      using that load64_other [OF m4, of "b + 0x1000 + 8 * i"] by simp
    moreover have "load64 m3 (b + 0x1000 + 8 * i) = load64 m2 (b + (0x1000 + 8 * i))" if "\<not> i < 4"
      using that load64_other [OF m3, of "b + 0x1000 + 8 * i"] by (simp add: add.assoc)
    ultimately show ?thesis
      using that zero [of "0x1000 + 8 * i"] load64_stored [OF m3, of i]
      by (cases "i < 4") (simp_all add: nth_entries_from)
  qed
  moreover have "load64 m4 (b + 0x2000 + 8 * i) = of_nat (0x183 + i * 0x200000)" if "i < 2048" for i
    using that load64_stored [OF m4, of i] by (simp add: nth_entries_from)
  ultimately show ?thesis by (simp add: boot_table_at_def)
qed

lemma createPageTable_tables:
  assumes "unat base + 0x6000 \<le> ram_size m" "ram_start + base \<noteq> 0"
  shows "\<exists>m'. createPageTable ram_start base m = Inr m' \<and> boot_table_at (unat base) m'
    \<and> (\<forall>a n. a + n \<le> unat base \<or> unat base + 0x6000 \<le> a \<longrightarrow> ram_load a n m' = ram_load a n m)"
proof -
  let ?b = "unat base"
  let ?es1 = "[of_nat (?b + 0x1013)]"
  let ?es2 = "entries_from 4 PAGE_SIZE_4KB (of_nat (?b + 0x2013))"
  let ?es3 = "entries_from 2048 PAGE_SIZE_2MB 0x183"
  obtain m1 where m1: "ram_store ?b (replicate 0x6000 0) m = Inr m1"
    using assms(1) ram_store_ok_iff [of ?b "replicate 0x6000 0" m] by auto
  obtain m2 where m2: "ram_store ?b (entry_bytes ?es1) m1 = Inr m2"
    using assms(1) ram_store_size [OF m1] ram_store_ok_iff [of ?b "entry_bytes ?es1" m1] by auto
  obtain m3 where m3: "ram_store (?b + 0x1000) (entry_bytes ?es2) m2 = Inr m3"
    using assms(1) ram_store_size [OF m1] ram_store_size [OF m2]
      ram_store_ok_iff [of "?b + 0x1000" "entry_bytes ?es2" m2] by auto
  obtain m4 where m4: "ram_store (?b + 0x2000) (entry_bytes ?es3) m3 = Inr m4"
    using assms(1) ram_store_size [OF m1] ram_store_size [OF m2] ram_store_size [OF m3]
      ram_store_ok_iff [of "?b + 0x2000" "entry_bytes ?es3" m3] by auto
  let ?F = "PAGE_FLAG_PCD OR PAGE_FLAG_RW OR PAGE_FLAG_P"
  have s2: "ram_store ?b (le_bytes 8 (?F + (base + PAGE_SIZE_4KB))) m1 = Inr m2"
    using m2 by (simp add: entry_bytes_def add.commute)
  have "of_nat (?b + 0x2013) = ?F + (base + PAGE_SIZE_4KB) + PAGE_SIZE_4KB" by simp
  then have s3: "pdpte_loop BOOT_PDPTE_NUM (?b + 0x1000) 0 (?F + (base + PAGE_SIZE_4KB)) m2 = Inr m3"
    using m3 assms(1) ram_store_size [OF m1] ram_store_size [OF m2]
    by (simp only: pdpte_loop_store) (simp add: pdpte_loop_store)
  have s4: "pde_loop BOOT_PDE_NUM (?b + 0x2000) 0
      (PAGE_FLAG_G OR PAGE_FLAG_PS OR PAGE_FLAG_RW OR PAGE_FLAG_P) m3 = Inr m4"
    using m4 assms(1) ram_store_size [OF m1] ram_store_size [OF m2] ram_store_size [OF m3]
    by (simp add: pde_loop_store)
  have "createPageTable ram_start base m = Inr m4"
    unfolding createPageTable_def Let_def m1 s2 s3 s4 chain_simps
    using assms(2) by simp
  moreover have "boot_table_at ?b m4"
    using m1 m2 m3 m4 by (rule boot_table_stores)
  moreover have "ram_load a n m4 = ram_load a n m" if "a + n \<le> ?b \<or> ?b + 0x6000 \<le> a" for a n
    using that ram_load_other [OF m1] ram_load_other [OF m2] ram_load_other [OF m3]
      ram_load_other [OF m4] by auto
  ultimately show ?thesis by blast
qed

section \<open>Entries read by the processor\<close>

lemma take_bit_u64: "take_bit 64 (unat (w :: u64)) = unat w"
  using unsigned_less [of w] by (intro take_bit_nat_eq_self) simp

lemma masked_entry:
  assumes "n mod 2 ^ s = 0" "f < 2 ^ s" "n < 2 ^ (s + k)" "s + k < 64"
  shows "(of_nat (n + f) :: u64) AND push_bit s (mask k) = of_nat n"
proof -
  obtain q where q: "n = 2 ^ s * q" using assms(1) by auto
  have "q < 2 ^ k" using assms(3) by (simp add: q power_add)
  have "(2 :: nat) ^ (s + k) \<le> 2 ^ 63" using assms(4) by (intro power_increasing) simp_all
  moreover have "(2 :: nat) ^ s \<le> 2 ^ 63" using assms(4) by (intro power_increasing) simp_all
  ultimately have small: "n + f < 2 ^ 64" using assms(2,3) by simp
  have "drop_bit s (n + f) = q" using assms(2) by (simp add: q drop_bit_eq_div)
  then have "push_bit s (take_bit k (drop_bit s (take_bit 64 (n + f)))) = n"
    using small \<open>q < 2 ^ k\<close> by (simp add: take_bit_nat_eq_self push_bit_eq_mult q mult.commute)
  moreover have "take_bit 64 n = n" using small by (simp add: take_bit_nat_eq_self)
  ultimately show ?thesis
    unfolding masked_field_in_place word_unat_eq_iff
    by (simp add: unsigned_push_bit_eq unsigned_take_bit_eq unsigned_drop_bit_eq unsigned_of_nat
        min_def del: of_nat_add)
qed

lemma page_mask: "(0x000FFFFFFFFFF000 :: u64) = push_bit 12 (mask 40)"
  "(0x000FFFFFFFE00000 :: u64) = push_bit 21 (mask 31)"
  by (simp_all add: mask_eq_exp_minus_1)

lemma index_value: "unat (drop_bit k (va :: u64) AND 0x1FF) = unat va div 2 ^ k mod 512"
proof -
  have "drop_bit k va AND 0x1FF = take_bit 9 (drop_bit k va)"
    by (simp add: take_bit_eq_mask mask_eq_exp_minus_1)
  moreover have "unat (take_bit 9 (drop_bit k va)) = take_bit 9 (drop_bit k (unat va))"
    by (simp only: unsigned_take_bit_eq unsigned_drop_bit_eq) (simp add: take_bit_u64)
  ultimately show ?thesis by (simp only: take_bit_eq_mod drop_bit_eq_div) simp
qed

lemma bit_of_nat_u64: "bit (of_nat n :: u64) i \<longleftrightarrow> i < 64 \<and> odd (n div 2 ^ i)"
  by (simp add: bit_simps flip: bit_iff_odd)

lemma large_page_address:
  "of_nat (unat (va :: u64) div 0x200000 * 0x200000) OR (va AND 0x1FFFFF) = va"
proof -
  have "of_nat (unat va div 0x200000 * 0x200000) = push_bit 21 (drop_bit 21 va)"
  proof -
    have "unat (drop_bit 21 va) = unat va div 0x200000"
      by (simp only: unsigned_drop_bit_eq) (simp add: drop_bit_eq_div take_bit_u64)
    then have "of_nat (unat va div 0x200000) = (of_nat (unat (drop_bit 21 va)) :: u64)"
      by (simp only:)
    then have "of_nat (unat va div 0x200000) = drop_bit 21 va" by simp
    then show ?thesis by (simp only: of_nat_mult push_bit_eq_mult) simp
  qed
  moreover have "va AND 0x1FFFFF = take_bit 21 va"
    by (simp add: take_bit_eq_mask mask_eq_exp_minus_1)
  moreover have "push_bit 21 (drop_bit 21 va) OR take_bit 21 va = va"
    by (rule bit_word_eqI) (auto simp: bit_simps dest: bit_imp_le_length)
  ultimately show ?thesis by simp
qed

section \<open>The walk over the boot table\<close>

lemma table_entry_at:
  "unat table = b \<Longrightarrow> unat va = v \<Longrightarrow> table_entry m table k va = load64 m (b + 8 * (v div 2 ^ k mod 512))"
  by (simp add: table_entry_def index_value)

lemma unat_of_nat_u64: "n < 2 ^ 64 \<Longrightarrow> unat (of_nat n :: u64) = n"
  by (simp add: unsigned_of_nat take_bit_nat_eq_self)

text \<open>An entry that points to a table, and one that maps a 2 MiB page.\<close>

lemma directory_entry:
  assumes "n mod 0x1000 = 0" "n < 2 ^ 52"
  shows "bit (of_nat (n + 0x13) :: u64) 0" "\<not> bit (of_nat (n + 0x13) :: u64) 7"
    "unat ((of_nat (n + 0x13) :: u64) AND 0x000FFFFFFFFFF000) = n"
proof -
  obtain q where q: "n = 4096 * q" using assms(1) by auto
  have "(n + 0x13) div 128 = 32 * q" by (simp add: q)
  then show "bit (of_nat (n + 0x13) :: u64) 0" "\<not> bit (of_nat (n + 0x13) :: u64) 7"
    unfolding bit_of_nat_u64 by (simp_all add: q)
  have "(of_nat (n + 0x13) :: u64) AND 0x000FFFFFFFFFF000 = of_nat n"
    unfolding page_mask using assms by (intro masked_entry) simp_all
  then show "unat ((of_nat (n + 0x13) :: u64) AND 0x000FFFFFFFFFF000) = n"
    using assms(2) unat_of_nat_u64 [of n] by simp
qed

lemma large_page_entry:
  assumes "j < 2048"
  shows "bit (of_nat (0x183 + j * 0x200000) :: u64) 0" "bit (of_nat (0x183 + j * 0x200000) :: u64) 7"
    "(of_nat (0x183 + j * 0x200000) :: u64) AND 0x000FFFFFFFE00000 = of_nat (j * 0x200000)"
proof -
  have "(0x183 + j * 0x200000) div 128 = 3 + 16384 * j" by simp
  then show "bit (of_nat (0x183 + j * 0x200000) :: u64) 0" "bit (of_nat (0x183 + j * 0x200000) :: u64) 7"
    unfolding bit_of_nat_u64 by simp_all
  have "(of_nat (j * 0x200000 + 0x183) :: u64) AND 0x000FFFFFFFE00000 = of_nat (j * 0x200000)"
    unfolding page_mask using assms by (intro masked_entry) simp_all
  then show "(of_nat (0x183 + j * 0x200000) :: u64) AND 0x000FFFFFFFE00000 = of_nat (j * 0x200000)"
    by (simp only: add.commute)
qed

text \<open>The third level, and the two above it.\<close>

lemma boot_table_level3:
  assumes t: "boot_table_at b m" and va: "unat va = v" and v: "v < 2 ^ 32"
    and a: "unat table = b + 0x2000 + v div 2 ^ 30 * 0x1000"
  shows "table_entry m table 21 va = of_nat (0x183 + v div 0x200000 * 0x200000)"
proof -
  have "v div 2 ^ 30 = v div 2 ^ 21 div 512"
    by (simp add: div_mult2_eq [symmetric])
  then have "v div 2 ^ 30 * 512 + v div 2 ^ 21 mod 512 = v div 2 ^ 21"
    by simp
  then have "b + 0x2000 + v div 2 ^ 30 * 0x1000 + 8 * (v div 2 ^ 21 mod 512)
      = b + 0x2000 + 8 * (v div 2 ^ 21)"
    by linarith
  then have "table_entry m table 21 va = load64 m (b + 0x2000 + 8 * (v div 2 ^ 21))"
    by (simp only: table_entry_at [OF a va])
  moreover have "v div 2 ^ 21 < 2048" using v by simp
  then have "load64 m (b + 0x2000 + 8 * (v div 2 ^ 21))
      = of_nat (0x183 + v div 2 ^ 21 * 0x200000)"
    using t unfolding boot_table_at_def by blast
  moreover have "(2 :: nat) ^ 21 = 0x200000" by simp
  ultimately show ?thesis by (simp only:)
qed

lemma walk_large_page:
  assumes "table_entry m (base AND 0x000FFFFFFFFFF000) 39 va = e1" "bit e1 0"
    and "table_entry m (e1 AND 0x000FFFFFFFFFF000) 30 va = e2" "bit e2 0" "\<not> bit e2 7"
    and "table_entry m (e2 AND 0x000FFFFFFFFFF000) 21 va = e3" "bit e3 0" "bit e3 7"
  shows "walk m base va = Some ((e3 AND 0x000FFFFFFFE00000) OR (va AND 0x1FFFFF))"
  using assms by (simp add: walk_def)

lemma walk_fault:
  assumes "table_entry m (base AND 0x000FFFFFFFFFF000) 39 va = e1"
    and "table_entry m (e1 AND 0x000FFFFFFFFFF000) 30 va = e2" "\<not> bit e1 0 \<or> \<not> bit e2 0"
  shows "walk m base va = None"
  using assms by (auto simp: walk_def)

lemma page_aligned: "b mod 0x1000 = 0 \<Longrightarrow> (b + 0x2000 + k * 0x1000) mod 0x1000 = (0 :: nat)"
proof -
  assume "b mod 0x1000 = 0"
  then obtain q where "b = 0x1000 * q" by auto
  then have "b + 0x2000 + k * 0x1000 = 0x1000 * (q + 2 + k)" by simp
  then show ?thesis by (simp only: mod_mult_self1_is_0)
qed

lemma boot_table_level1:
  assumes "boot_table_at b m" "unat base = b" "unat va = v" "v < 2 ^ 47"
  shows "table_entry m base 39 va = (if v < 2 ^ 39 then of_nat (b + 0x1000 + 0x13) else 0)"
  using assms(1,4) unfolding table_entry_at [OF assms(2,3)] boot_table_at_def by (auto simp: div_eq_0_iff)

lemma boot_table_level2:
  assumes "boot_table_at b m" "unat base = b + 0x1000" "unat va = v" "v < 2 ^ 39"
  shows "table_entry m base 30 va
      = (if v < 2 ^ 32 then of_nat (b + 0x2000 + v div 2 ^ 30 * 0x1000 + 0x13) else 0)"
proof -
  have "v div 2 ^ 30 < 512" "v div 2 ^ 30 < 4 \<longleftrightarrow> v < 2 ^ 32" using assms(4) by auto
  then show ?thesis
    using assms(1) unfolding table_entry_at [OF assms(2,3)] boot_table_at_def by (simp add: add.assoc)
qed

lemma boot_table_base:
  fixes base :: u64
  assumes "unat base = b" "b mod 0x1000 = 0" "b < 2 ^ 48"
  shows "unat (base AND 0x000FFFFFFFFFF000) = b"
proof -
  have "base AND 0x000FFFFFFFFFF000 = of_nat b"
    using masked_entry [of b 12 0 40] assms unfolding page_mask by auto
  then show ?thesis using assms(3) unat_of_nat_u64 [of b] by simp
qed

lemma boot_table_walk_below:
  assumes t: "boot_table_at b m" and b: "unat base = b" "b mod 0x1000 = 0" "b < 2 ^ 48"
    and va: "unat va = v" and v: "v < 2 ^ 32"
  shows "walk m base va = Some va"
proof -
  let ?mask = "0x000FFFFFFFFFF000"
  have v': "v < 2 ^ 47" "v < 2 ^ 39" using v by simp_all
  note e1 = boot_table_level1 [OF t boot_table_base [OF b] va v'(1)]
  have d1: "(b + 0x1000) mod 0x1000 = 0" "b + 0x1000 < 2 ^ 52" using b(2,3) by auto
  note d1 = directory_entry [OF d1]
  note e2 = boot_table_level2 [OF t d1(3) va]
  have "(b + 0x2000 + v div 2 ^ 30 * 0x1000) mod 0x1000 = 0" by (rule page_aligned [OF b(2)])
  moreover have "v div 2 ^ 30 < 4" using v by simp
  then have "b + 0x2000 + v div 2 ^ 30 * 0x1000 < 2 ^ 52" using b(3) by simp
  ultimately have d2: "(b + 0x2000 + v div 2 ^ 30 * 0x1000) mod 0x1000 = 0"
    "b + 0x2000 + v div 2 ^ 30 * 0x1000 < 2 ^ 52" by blast+
  note d2 = directory_entry [OF d2]
  have "v div 0x200000 < 2048" using v by simp
  note d3 = large_page_entry [OF this]
  have "walk m base va = Some ((of_nat (0x183 + v div 0x200000 * 0x200000)
      AND 0x000FFFFFFFE00000) OR (va AND 0x1FFFFF))"
  proof (rule walk_large_page [OF _ d1(1) _ d2(1,2) boot_table_level3 [OF t va v d2(3)] d3(1,2)])
    show "table_entry m (base AND ?mask) 39 va = of_nat (b + 0x1000 + 0x13)"
      using e1 v'(2) by (simp only: if_True)
    show "table_entry m (of_nat (b + 0x1000 + 0x13) AND ?mask) 30 va
        = of_nat (b + 0x2000 + v div 2 ^ 30 * 0x1000 + 0x13)"
      using e2 [OF v'(2)] v by (simp only: if_True)
  qed
  then show ?thesis by (simp only: d3(3) large_page_address [of va, unfolded va])
qed

lemma boot_table_walk_above:
  assumes t: "boot_table_at b m" and b: "unat base = b" "b mod 0x1000 = 0" "b < 2 ^ 48"
    and va: "unat va = v" and v: "v < 2 ^ 47" "\<not> v < 2 ^ 32"
  shows "walk m base va = None"
proof (cases "v < 2 ^ 39")
  note e1 = boot_table_level1 [OF t boot_table_base [OF b] va v(1)]
  have d1: "(b + 0x1000) mod 0x1000 = 0" "b + 0x1000 < 2 ^ 52" using b(2,3) by auto
  case True
  have "table_entry m (base AND 0x000FFFFFFFFFF000) 39 va = of_nat (b + 0x1000 + 0x13)"
    using e1 True by (simp only: if_True)
  moreover have "table_entry m (of_nat (b + 0x1000 + 0x13) AND 0x000FFFFFFFFFF000) 30 va = 0"
    using boot_table_level2 [OF t directory_entry(3) [OF d1] va True] v(2) by (simp only: if_False)
  ultimately show ?thesis by (rule walk_fault) simp
next
  case False
  then have "table_entry m (base AND 0x000FFFFFFFFFF000) 39 va = 0"
    using boot_table_level1 [OF t boot_table_base [OF b] va v(1)] by (simp only: if_False)
  then show ?thesis by (rule walk_fault [OF _ refl]) simp
qed

lemma boot_table_walk:
  assumes "boot_table_at b m" "unat base = b" "b mod 0x1000 = 0" "b < 2 ^ 48" "unat va = v" "v < 2 ^ 47"
  shows "walk m base va = (if v < 2 ^ 32 then Some va else None)"
  using boot_table_walk_below [OF assms(1-5)] boot_table_walk_above [OF assms] by simp

section \<open>Properties\<close>

lemma aligned_unat: "(base :: u64) AND 0xFFF = 0 \<Longrightarrow> unat base mod 0x1000 = 0"
proof -
  assume "base AND 0xFFF = 0"
  then have "take_bit 12 base = 0" by (simp add: take_bit_eq_mask mask_eq_exp_minus_1)
  then have "take_bit 12 (unat base) = 0" by (metis unsigned_0 unsigned_take_bit_eq)
  then show ?thesis by (simp add: take_bit_eq_mod)
qed

lemma createPageTable_fits:
  "createPageTable ram_start base m = Inr m' \<Longrightarrow>
     unat base + 0x6000 \<le> ram_size m \<and> ram_start + base \<noteq> 0"
  by (auto simp: createPageTable_def Let_def ram_store_def split: if_splits)

text \<open>C19: The boot page table is what its comment claims: for a page-aligned base the processor's
  4-level walk from it maps every linear address below 4 GiB to the same physical address, every
  other address of the lower canonical half faults, and no byte of guest memory outside the six
  pages is touched.\<close>

theorem boot_pagetable_identity:
  assumes "createPageTable ram_start base m = Inr m'" "base AND 0xFFF = 0" "base < 2 ^ 48"
    and "va < 2 ^ 47"
  shows "walk m' base va = (if va < 2 ^ 32 then Some va else None)
    \<and> (a + n \<le> unat base \<or> unat base + 0x6000 \<le> a \<longrightarrow> ram_load a n m' = ram_load a n m)"
proof -
  have fits: "unat base + 0x6000 \<le> ram_size m" "ram_start + base \<noteq> 0"
    using createPageTable_fits [OF assms(1)] by blast+
  from createPageTable_tables [OF this] assms(1)
  have t: "boot_table_at (unat base) m'"
    and frame: "a + n \<le> unat base \<or> unat base + 0x6000 \<le> a \<longrightarrow> ram_load a n m' = ram_load a n m"
    by auto
  have less: "va < 2 ^ 32 \<longleftrightarrow> unat va < 2 ^ 32" "unat va < 2 ^ 47" "unat base < 2 ^ 48"
    using assms(3,4) by (simp_all add: word_less_nat_alt)
  show ?thesis
    using boot_table_walk [OF t refl aligned_unat [OF assms(2)] less(3) refl less(2)] frame
    unfolding less(1) by blast
qed

theorem boot_pagetable_identity_witness:
  "\<exists>m'. createPageTable 0x7F0000000000 BOOT_PAGETABLE_BASE (new_ram 0x40000000) = Inr m'
    \<and> walk m' BOOT_PAGETABLE_BASE 0xFEE00000 = Some 0xFEE00000
    \<and> ram_load 0x10000 4 m' = ram_load 0x10000 4 (new_ram 0x40000000)"
proof -
  obtain m' where m': "createPageTable 0x7F0000000000 BOOT_PAGETABLE_BASE (new_ram 0x40000000) = Inr m'"
    using createPageTable_tables [of BOOT_PAGETABLE_BASE "new_ram 0x40000000" "0x7F0000000000"]
    by (auto simp: new_ram_def)
  show ?thesis
    using boot_pagetable_identity [OF m', of "0xFEE00000" "0x10000" 4] m' by simp
qed

end
