(* ===== verification/UnitTests.thy ===== *)
theory UnitTests
  imports MpTable KvmSys
begin

text \<open>
  The unit tests of the repository (\<^verbatim>\<open>test/boot.hpp\<close>, \<^verbatim>\<open>test/kvm.cpp\<close>) as predicates on the model:
  a fixture is what \<^verbatim>\<open>SetUp\<close> makes of the structures it declares, a test the conjunction of its
  assertions. The tests that hold and those that do not are computed.
\<close>

section \<open>test/boot.hpp\<close>

text \<open>
  \<open>p\<close> is the member \<^verbatim>\<open>phys_addr_ptr\<close> that nothing initialises, \<open>len\<close> the constant \<^verbatim>\<open>MPCTABLE_LENGTH\<close>
  of the tests on sizes, which no file declares.
\<close>

definition fps_default_state :: "u32 \<Rightarrow> mpfps" where
  "fps_default_state p = (mpfps_new p)\<lparr>fps_phys_addr_ptr := ucast EBDA_START + 0x40\<rparr>"

definition fps_with_checksum :: "u32 \<Rightarrow> mpfps" where
  "fps_with_checksum p =
     (mpfps_new p)\<lparr>fps_checksum := mp_gen_checksum (mp_calc_checksum_fps (mpfps_new p))\<rparr>"

abbreviation (input) TEST_VCPU_NUM :: nat where "TEST_VCPU_NUM \<equiv> 2"

definition ctable_default_state :: "fault + mpctable" where
  "ctable_default_state =
     chain (processor_entry_init TEST_VCPU_NUM 0 (ct_processor_entry mpctable_new)) (\<lambda>es.
       Inr (mpctable_new\<lparr>ct_processor_entry := es\<rparr>))"

definition ctable_with_checksum :: "mpctable \<Rightarrow> mpctable" where
  "ctable_with_checksum t = t\<lparr>ct_checksum := mp_gen_checksum (mp_calc_checksum_ctable t)\<rparr>"

definition fps_tests :: "u32 \<Rightarrow> u32 \<Rightarrow> (string \<times> bool) list" where
  "fps_tests p q =
     (let d = fps_default_state p; c = fps_with_checksum q in
      [(''MpFpsTest.Size'', unat MPFPS_LENGTH * PARAGRAPH_SIZE = length (mpfps_bytes d)),
       (''MpFpsTest.CalcChecksum'', mp_calc_checksum_fps d \<noteq> 0 \<and> mp_calc_checksum_fps c = 0),
       (''MpFpsTest.GenChecksum'', mp_gen_checksum (mp_calc_checksum_fps d) = 0x5B),
       (''MpFpsTest.IsMpChecksumValid'',
          \<not> is_mp_checksum_valid (mp_calc_checksum_fps d) \<and> is_mp_checksum_valid (mp_calc_checksum_fps c))])"

definition ctable_tests :: "nat \<Rightarrow> mpctable \<Rightarrow> (string \<times> bool) list" where
  "ctable_tests len d =
     (let c = ctable_with_checksum d in
      [(''MpCtableTest.Size'', len = length (mpctable_bytes d)),
       (''MpCtableTest.CalcChecksum'', mp_calc_checksum_ctable d \<noteq> 0 \<and> mp_calc_checksum_ctable c = 0),
       (''MpCtableTest.GenChecksum'', mp_gen_checksum (mp_calc_checksum_ctable d) = 0xB6),
       (''MpCtableTest.IsMpChecksumValid'',
          \<not> is_mp_checksum_valid (mp_calc_checksum_ctable d) \<and> is_mp_checksum_valid (mp_calc_checksum_ctable c))])"

definition ebda_tests :: "nat \<Rightarrow> u32 \<Rightarrow> ebda \<Rightarrow> (string \<times> bool) list" where
  "ebda_tests len p e =
     [(''EbdaTest.Size'', EBDA_PADDING_SIZE + unat MPFPS_LENGTH * PARAGRAPH_SIZE + len
          = length (ebda_bytes (ebda_new p))),
      (''EbdaTest.GenEbda'', fps_checksum (eb_fps e) = 0x5B \<and> ct_checksum (eb_ctable e) = 0xB6)]"

text \<open>The suite: the tests that fail, or the fault of a fixture.\<close>

definition boot_test_failures :: "nat \<Rightarrow> u32 \<Rightarrow> u32 \<Rightarrow> u32 \<Rightarrow> fault + string list" where
  "boot_test_failures len p q r =
     chain ctable_default_state (\<lambda>t.
     chain (gen_ebda (int TEST_VCPU_NUM) r) (\<lambda>e.
       Inr (map fst (filter (\<lambda>x. \<not> snd x) (fps_tests p q @ ctable_tests len t @ ebda_tests len r e)))))"

section \<open>test/kvm.cpp\<close>

definition GetKVMFD_test :: "'k os \<Rightarrow> 'k host \<Rightarrow> bool" where
  "GetKVMFD_test os h \<longleftrightarrow> 3 \<ge> fst (getKVMFD os h)"

section \<open>The checksums of the tests\<close>

lemma calc_ctable_sum: "mpctable_wf t \<Longrightarrow> mp_calc_checksum_ctable t = sum_list (mpctable_bytes t)"
  by (simp add: mp_calc_checksum_ctable_def mp_calc_checksum_inline_eq length_mpctable_bytes)

lemma sum_processor_entry_new: "sum_list (processor_entry_bytes processor_entry_new) = 0"
  by (simp add: processor_entry_bytes_def processor_entry_new_def le_bytes_def sum_list_replicate upt_rec)

lemma ctable_default_state_eq:
  "ctable_default_state = Inr (mpctable_new\<lparr>ct_processor_entry :=
     [init_processor 0 processor_entry_new, init_processor 1 processor_entry_new]
       @ replicate 30 processor_entry_new\<rparr>)"
  by (simp add: ctable_default_state_def processor_entry_init_new upt_rec)


lemma fps_checksums:
  "mp_calc_checksum_fps (fps_default_state p) = 0xA5"
  "mp_calc_checksum_fps (fps_with_checksum q) = 0"
proof -
  show "mp_calc_checksum_fps (fps_default_state p) = 0xA5"
    by (simp add: mp_calc_checksum_fps_def mp_calc_checksum_inline_eq fps_default_state_def mpfps_new_def
        mpfps_bytes_def le_bytes_4)
  have "is_mp_checksum_valid (fps.calc (fps_with_checksum q))"
    unfolding fps_with_checksum_def calc_fps by (rule fps.sealed_valid) (simp_all add: mpfps_new_def)
  then show "mp_calc_checksum_fps (fps_with_checksum q) = 0"
    by (simp add: calc_fps is_mp_checksum_valid_def)
qed

lemma ctable_checksums:
  assumes "ctable_default_state = Inr t"
  shows "mpctable_wf t" "mp_calc_checksum_ctable t = 0x88" "mp_calc_checksum_ctable (ctable_with_checksum t) = 0"
proof -
  have t: "t = mpctable_new\<lparr>ct_processor_entry :=
     [init_processor 0 processor_entry_new, init_processor 1 processor_entry_new]
       @ replicate 30 processor_entry_new\<rparr>"
    using assms by (simp add: ctable_default_state_eq)
  show wf: "mpctable_wf t" by (simp add: t mpctable_wf_def mpctable_new_def)
  have "sum_list (concat (map processor_entry_bytes (replicate n processor_entry_new))) = 0" for n
    by (induction n) (simp_all add: sum_processor_entry_new)
  then show "mp_calc_checksum_ctable t = 0x88"
    using calc_ctable_sum [OF wf]
    by (simp add: t mpctable_bytes_def mpctable_new_def le_bytes_4 le_bytes_2 sum_list_replicate)
      (simp add: le_bytes_def upt_rec init_processor_def processor_entry_new_def processor_entry_bytes_def)
  have "is_mp_checksum_valid (ctable.calc (ctable_with_checksum t))"
    unfolding ctable_with_checksum_def calc_ctable by (rule ctable.sealed_valid [OF wf]) (simp add: t mpctable_new_def)
  then show "mp_calc_checksum_ctable (ctable_with_checksum t) = 0"
    by (simp add: calc_ctable is_mp_checksum_valid_def)
qed


text \<open>
  Of the ten tests of \<^verbatim>\<open>test/boot.hpp\<close> the two that fix the checksum of the configuration table fail,
  and the two on sizes hold for the right length of the table only.
\<close>

lemma gen_ebda_two:
  obtains e where "gen_ebda 2 r = Inr e" "ct_checksum (eb_ctable e) = 0x78" "fps_checksum (eb_fps e) = 0x5B"
proof (cases rule: gen_ebda_cases [of 2 r])
  case (fits es e)
  have "ctable_default_state = Inr (mpctable_new\<lparr>ct_processor_entry := es\<rparr>)"
    by (simp add: ctable_default_state_def processor_entry_init_new fits(3))
  from ctable_checksums(2) [OF this] have "ctable.calc (mpctable_new\<lparr>ct_processor_entry := es\<rparr>) = 0x88"
    by (simp add: calc_ctable)
  moreover have "fps.calc (mpfps_new (ucast EBDA_START + 0x40)) = 0xA5"
    using fps_checksums(1) [of 0] by (simp add: calc_fps fps_default_state_def mpfps_new_def)
  ultimately show ?thesis
    using fits by (intro that [of e]) (simp_all add: mp_gen_checksum_def)
qed simp

lemma length_new_ebda: "length (ebda_bytes (ebda_new p)) = 748"
  using length_mpctable_bytes [of mpctable_new]
  by (simp add: ebda_bytes_def ebda_new_def) (simp add: mpctable_wf_def mpctable_new_def)

lemma unit_tests_failures:
  "boot_test_failures len p q r =
     Inr ((if len = 684 then [] else [''MpCtableTest.Size'']) @ [''MpCtableTest.GenChecksum'']
       @ (if len = 684 then [] else [''EbdaTest.Size'']) @ [''EbdaTest.GenEbda''])"
proof -
  obtain t where t: "ctable_default_state = Inr t" by (simp add: ctable_default_state_eq)
  obtain e where e: "gen_ebda 2 r = Inr e" "ct_checksum (eb_ctable e) = 0x78" "fps_checksum (eb_fps e) = 0x5B"
    by (rule gen_ebda_two)
  have "fps_tests p q = map (\<lambda>n. (n, True)) [''MpFpsTest.Size'', ''MpFpsTest.CalcChecksum'',
      ''MpFpsTest.GenChecksum'', ''MpFpsTest.IsMpChecksumValid'']"
    by (simp add: fps_tests_def fps_checksums is_mp_checksum_valid_def mp_gen_checksum_def)
  moreover have "ctable_tests len t = [(''MpCtableTest.Size'', len = 684), (''MpCtableTest.CalcChecksum'', True),
      (''MpCtableTest.GenChecksum'', False), (''MpCtableTest.IsMpChecksumValid'', True)]"
    using ctable_checksums [OF t]
    by (simp add: ctable_tests_def is_mp_checksum_valid_def mp_gen_checksum_def length_mpctable_bytes)
  moreover have "ebda_tests len r e = [(''EbdaTest.Size'', len = 684), (''EbdaTest.GenEbda'', False)]"
    using e by (auto simp: ebda_tests_def length_new_ebda)
  ultimately show ?thesis unfolding boot_test_failures_def t by (simp add: e(1) del: chain_eq_Inr Inr_eq_chain)
qed

text \<open>The test of \<^verbatim>\<open>getKVMFD\<close> has its comparison the wrong way round: it holds when the device cannot
  be opened.\<close>

lemma GetKVMFD_test_accepts_failure:
  assumes "os_open_kvm os (kern h) = ((-1, e), k)" "0 < e"
  shows "GetKVMFD_test os h"
  using assms by (simp add: GetKVMFD_test_def getKVMFD_def)

end
