(* ===== verification/LoadOverlap.thy ===== *)
theory LoadOverlap
  imports VmLoad
begin

text \<open>
  The kernel and the RAM disk in guest memory: \<^verbatim>\<open>VM::initRAM\<close> loads the RAM disk at
  \<^verbatim>\<open>INITRAMFS_ADDR\<close> first and the kernel at \<^verbatim>\<open>HIGHMEM_BASE\<close> last, without comparing the size of
  one with the address of the other. Theory \<open>VmLoad\<close> has the kernels that end below the RAM disk;
  here are the longer ones.
\<close>

lemma ram_store_all_append: "ram_store_all (xs @ ys) m = chain (ram_store_all xs m) (ram_store_all ys)"
proof (induction xs arbitrary: m)
  case (Cons x xs)
  have "ram_store_all (xs @ ys) = (\<lambda>m. chain (ram_store_all xs m) (ram_store_all ys))"
    by (rule ext) (rule Cons.IH)
  then show ?case by (cases x) (simp add: chain_assoc)
qed simp

text \<open>A later store over the beginning of an earlier region.\<close>

lemma ram_store_overlap:
  assumes "ram_store a bs m = Inr m'" "a + k + length over = a + length bs" "k \<le> length bs"
    and "over = drop k bs" "ram_load (a + k) (length old) m = old"
  shows "ram_load (a + k) (length over + (length old - length over)) m' = over @ drop (length over) old"
proof -
  have "ram_load (a + k) (length over) m' = over"
    using ram_load_part [OF assms(1), of k "length over"] assms(2-4) by simp
  moreover have "ram_load (a + k + length over) (length old - length over) m' = drop (length over) old"
  proof (cases "length over \<le> length old")
    case True
    have "ram_load (a + k + length over) (length old - length over) m'
        = ram_load (a + k + length over) (length old - length over) m"
      using assms(2) by (intro ram_load_other [OF assms(1)]) simp
    also have "\<dots> = drop (length over) (ram_load (a + k) (length old) m)"
      using True ram_load_append [of "a + k" "length over" "length old - length over" m] by simp
    finally show ?thesis using assms(5) by simp
  qed (simp add: ram_load_def)
  ultimately show ?thesis by (simp add: ram_load_append)
qed

text \<open>What the guest finds at the address of the RAM disk.\<close>

definition kernel_overflow :: "u8 list \<Rightarrow> u8 list" where
  "kernel_overflow kf = drop (kernel_offset kf + 0xEF00000) kf"

text \<open>A kernel that is longer than the space below the RAM disk, for the witness.\<close>

definition long_kernel :: "u8 list" where
  "long_kernel = tiny_kernel @ replicate 0xEF00000 0xCC"

lemma long_kernel_header: "kernel_header long_kernel = kernel_header tiny_kernel"
  by (simp add: kernel_header_def long_kernel_def tiny_kernel_ok)

lemma long_kernel_ok:
  "bootable long_kernel" "kernel_offset long_kernel = 1024" "length long_kernel = 0xEF00654"
  using tiny_kernel_ok
  by (simp_all add: bootable_def kernel_offset_def kernel_setup_sects_def long_kernel_header)
    (simp_all add: long_kernel_def)

section \<open>Properties\<close>

text \<open>C24: A kernel that reaches past the address of the RAM disk is loaded over it, without an error:
  the function returns 0, the kernel is in memory as a whole, and at the address the setup header
  gives for the RAM disk the guest finds the end of the kernel, followed by what is left of the
  RAM disk.\<close>

theorem init_ram_kernel_over_initrd:
  assumes "loadable conf p0 tables cmdline initrd vm" "\<not> conf_is_64bit_boot conf"
    and "vm_kernel vm = opened kf" "bootable kf"
    and "0xEF00000 + kernel_offset kf < length kf"
    and "0x100000 + length kf \<le> ram_size (vm_ram vm) + kernel_offset kf"
  shows "\<exists>vm'. initRAM conf p0 cmdline vm = Inr (0, vm')
    \<and> ram_load 0x100000 (length kf - kernel_offset kf) (vm_ram vm') = drop (kernel_offset kf) kf
    \<and> ram_load 0xF000000 (length (kernel_overflow kf) + (length initrd - length (kernel_overflow kf)))
          (vm_ram vm') = kernel_overflow kf @ drop (length (kernel_overflow kf)) initrd"
proof -
  note l = assms(1) [unfolded loadable_def]
  obtain bp where bp: "guest_boot_params conf initrd kf bp" and eq:
    "initRAM conf p0 cmdline vm =
       chain (ram_store_all (guest_image tables bp cmdline initrd kf) (vm_ram vm))
         (\<lambda>ram. Inr (0, vm_after_load initrd vm ram))"
    using init_ram_image [of conf p0 tables vm initrd kf cmdline] l assms(2-4) less_imp_le [OF assms(5)]
    by (metis add_leD2)
  have len: "length (ebda_bytes tables) = 748" "length (boot_params_bytes bp) = 3280"
    using length_ebda_bytes l bp boot_params_layout(1) by (auto simp: guest_boot_params_def)
  let ?front = "[(0x9FC00, ebda_bytes tables), (0xF000000, initrd), (0x20000, cmdline @ [0]),
      (0x10000, boot_params_bytes bp)]"
  let ?k = "drop (kernel_offset kf) kf"
  have image: "guest_image tables bp cmdline initrd kf = ?front @ [(0x100000, ?k)]"
    by (simp add: guest_image_def)
  have "\<forall>(a, bs) \<in> set ?front. a + length bs \<le> ram_size (vm_ram vm)" using l len by auto
  then obtain ram where ram: "ram_store_all ?front (vm_ram vm) = Inr ram"
    using ram_store_all_fits by blast
  have "all_apart ?front" using l len by (simp add: apart_def region_def)
  from ram_store_all_load [OF ram this] have initrd: "ram_load 0xF000000 (length initrd) ram = initrd"
    by simp
  obtain ram' where ram': "ram_store 0x100000 ?k ram = Inr ram'"
    using ram_store_ok_iff [of "0x100000" ?k ram] ram_store_all_size [OF ram] assms(5,6) by auto
  have "ram_load 0xF000000 (length (kernel_overflow kf) + (length initrd - length (kernel_overflow kf))) ram'
      = kernel_overflow kf @ drop (length (kernel_overflow kf)) initrd"
    using ram_store_overlap [OF ram', of "0xEF00000" "kernel_overflow kf" initrd] initrd assms(5)
    by (simp add: kernel_overflow_def add.commute)
  moreover have "ram_load 0x100000 (length kf - kernel_offset kf) ram' = ?k"
    using ram_load_same [OF ram'] by simp
  moreover have "initRAM conf p0 cmdline vm = Inr (0, vm_after_load initrd vm ram')"
    using eq ram ram' by (simp add: image ram_store_all_append del: ram_store_all.simps(2) append.simps)
      (simp add: ram')
  ultimately show ?thesis by (intro exI [of _ "vm_after_load initrd vm ram'"]) (simp add: vm_after_load_def)
qed

theorem init_ram_kernel_over_initrd_witness:
  "\<exists>vm'. initRAM tiny_config 0 [] (tiny_machine\<lparr>vm_kernel := opened long_kernel\<rparr>) = Inr (0, vm')
    \<and> ram_load 0xF000000 2 (vm_ram vm') = [0xCC, 0xCC]"
proof -
  obtain e where e: "gen_ebda 1 0 = Inr e" using tiny_tables by blast
  have "drop (kernel_offset long_kernel + 0xEF00000) long_kernel = replicate 596 0xCC"
    by (simp add: long_kernel_ok(2)) (simp add: long_kernel_def tiny_kernel_ok(3) drop_replicate)
  then have over: "kernel_overflow long_kernel = replicate 596 0xCC" by (simp add: kernel_overflow_def)
  have "loadable tiny_config 0 e [] [0x30, 0x37] (tiny_machine\<lparr>vm_kernel := opened long_kernel\<rparr>)"
    using e by (simp add: loadable_def tiny_config_def tiny_machine_def new_ram_def)
  from init_ram_kernel_over_initrd [OF this, of long_kernel]
  obtain vm' where vm': "initRAM tiny_config 0 [] (tiny_machine\<lparr>vm_kernel := opened long_kernel\<rparr>) = Inr (0, vm')"
    "ram_load 0xF000000 596 (vm_ram vm') = replicate 596 0xCC"
    using long_kernel_ok by (auto simp: over tiny_config_def tiny_machine_def new_ram_def)
  have "ram_load 0xF000000 2 (vm_ram vm') = take 2 (ram_load 0xF000000 (2 + 594) (vm_ram vm'))"
    by (simp only: ram_load_append) simp
  then have "ram_load 0xF000000 2 (vm_ram vm') = [0xCC, 0xCC]"
    using vm'(2) by (simp add: numeral_2_eq_2)
  with vm'(1) show ?thesis by blast
qed

end
