(* ===== verification/MemMap.thy ===== *)
theory MemMap
  imports VmLoad
begin

text \<open>
  The memory map of the guest: what the E820 entries that \<^verbatim>\<open>load_boot_params_and_kernel\<close> of
  \<^verbatim>\<open>src/vm.cpp\<close> writes into the boot parameters say of each guest-physical address, against the
  layout they are meant to describe, and where the pieces that \<^verbatim>\<open>VM::initRAM\<close> loads lie in it.
\<close>

text \<open>The types of the entries that cover an address.\<close>

definition e820_types :: "e820entry list \<Rightarrow> nat \<Rightarrow> u32 list" where
  "e820_types es a =
     map e8_type (filter (\<lambda>e. unat (e8_addr e) \<le> a \<and> a < unat (e8_addr e) + unat (e8_size e)) es)"

text \<open>
  The layout: conventional memory up to the EBDA, the EBDA, the hole of the video memory, the BIOS
  (without its last byte, for \<^verbatim>\<open>MBBIOS_SIZE\<close> is one too small), the memory above 1 MiB.
\<close>

definition memory_types :: "nat \<Rightarrow> nat \<Rightarrow> u32 list" where
  "memory_types ram_bytes a =
     (if a < 0x9FC00 then [BOOT_E820_TYPE_RAM]
      else if a < 0xA0000 then [BOOT_E820_TYPE_RESERVED]
      else if a < 0xF0000 then []
      else if a < 0xFFFFF then [BOOT_E820_TYPE_RESERVED]
      else if a < 0x100000 then []
      else if a < ram_bytes then [BOOT_E820_TYPE_RAM]
      else [])"

lemma e820_types_entries:
  "e820_types (map e820_of (e820_entries n)) a =
     memory_types (if 0x100000 \<le> unat n then unat n else 2 ^ 64 + unat n) a"
proof -
  have size: "unat (n - 0x100000) = (if 0x100000 \<le> unat n then unat n - 0x100000 else 2 ^ 64 + unat n - 0x100000)"
    by (simp add: unat_sub_if')
  show ?thesis
    by (simp add: e820_types_def e820_entries_def e820_of_def memory_types_def size)
qed

text \<open>A machine with less than 1 MiB: the size of the last entry wraps around.\<close>

lemma small_memory_map:
  assumes "unat n < 0x100000" "0x100000 \<le> a" "a < 2 ^ 64"
  shows "e820_types (map e820_of (e820_entries n)) a = [BOOT_E820_TYPE_RAM]"
  using assms by (simp add: e820_types_entries memory_types_def)

section \<open>Properties\<close>

text \<open>C5: The memory map in the boot parameters describes the machine: each guest-physical address
  below the end of memory has the type of its place in the layout, from at most one entry, and no
  address beyond has one; and what \<^verbatim>\<open>initRAM\<close> loads lies where the map says it may: the
  MultiProcessor tables in reserved memory, which the guest must not reuse, every other piece in
  memory it can read and reclaim.\<close>

theorem guest_memory_map:
  assumes "guest_boot_params conf initrd kf bp" "0x100000 \<le> conf_ram_size conf"
    and "gen_ebda (conf_vcpu_num conf) p0 = Inr tables" "length cmdline < 0x7FC00"
    and "0xF000000 + length initrd \<le> unat (conf_ram_size conf)"
    and "0x100000 + length kf \<le> unat (conf_ram_size conf) + kernel_offset kf"
  shows "e820_types (e820_map bp) a = memory_types (unat (conf_ram_size conf)) a
    \<and> (\<forall>(b, bs) \<in> set (guest_image tables bp cmdline initrd kf). b \<le> a \<and> a < b + length bs \<longrightarrow>
          e820_types (e820_map bp) a
            = [if b = unat EBDA_START then BOOT_E820_TYPE_RESERVED else BOOT_E820_TYPE_RAM])"
proof -
  have map: "e820_types (e820_map bp) a = memory_types (unat (conf_ram_size conf)) a"
    using assms(1,2) by (simp add: guest_boot_params_def e820_types_entries word_le_nat_alt)
  have len: "length (ebda_bytes tables) = 748" "length (boot_params_bytes bp) = 3280"
    using length_ebda_bytes [OF assms(3)] assms(1) boot_params_layout(1) by (auto simp: guest_boot_params_def)
  show ?thesis
    using len assms(4-6) unfolding map guest_image_def by (auto simp: memory_types_def)
qed


theorem guest_memory_map_witness:
  "\<exists>tables bp. gen_ebda 1 0 = Inr tables \<and> guest_boot_params tiny_config [0x30, 0x37] tiny_kernel bp
    \<and> e820_types (e820_map bp) 0x9FC00 = [BOOT_E820_TYPE_RESERVED]
    \<and> e820_types (e820_map bp) 0xF000001 = [BOOT_E820_TYPE_RAM]"
proof -
  obtain e where e: "gen_ebda 1 0 = Inr e" using tiny_tables by blast
  obtain bp where bp: "guest_boot_params tiny_config [0x30, 0x37] tiny_kernel bp"
    using load_boot_params_and_kernel_bootable [OF tiny_kernel_ok(1), of "[0x30, 0x37]" tiny_config]
    unfolding guest_boot_params_def by metis
  have "e820_types (e820_map bp) a = memory_types 0x10000000 a" for a
    using guest_memory_map [OF bp, of 0 e "[]" a] e tiny_kernel_ok by (simp add: tiny_config_def)
  then show ?thesis using e bp by (intro exI [of _ e] exI [of _ bp]) (simp add: memory_types_def)
qed

end
