(* ===== verification/IoctlLog.thy ===== *)
theory IoctlLog
  imports HostIface OStream
begin

text \<open>
  \<^verbatim>\<open>BaseClass::_kvmIoctl\<close> of \<^verbatim>\<open>include/baseclass.hpp\<close> in full: the line that \<^verbatim>\<open>MONITOR_IOCTL\<close> (defined for
  the target \<^verbatim>\<open>lvmm_debug\<close>) prints for each request, and the message of the exception of the
  constructor variant. The definitions \<open>kvmIoctl\<close> and \<open>kvmIoctlCtor\<close> of \<open>HostIface\<close>, which the other
  theories use, are what is left of it without the texts.

  Arguments: the number \<open>nr\<close> of the request and the texts \<open>args\<close> of its further arguments (numbers,
  or addresses for pointers) as the stream prints them, and \<^verbatim>\<open>strerror\<close>.
\<close>

definition int_text :: "int \<Rightarrow> string" where
  "int_text i = (if i < 0 then ''-'' else []) @ num_text False (nat \<bar>i\<bar>)"

text \<open>\<^verbatim>\<open>args_oss << fd << ',' << request; ((args_oss << ',' << args), ...)\<close>.\<close>

definition ioctl_args_text :: "int \<Rightarrow> nat \<Rightarrow> string list \<Rightarrow> string" where
  "ioctl_args_text fd nr args =
     int_text fd @ '','' @ num_text False nr @ concat (map (\<lambda>a. '','' @ a) args)"

definition ioctl_message :: "(int \<Rightarrow> string) \<Rightarrow> int \<Rightarrow> nat \<Rightarrow> string list \<Rightarrow> int \<Rightarrow> string" where
  "ioctl_message strerror fd nr args e =
     ''_kvmIoctl: ioctl('' @ ioctl_args_text fd nr args @ ''): '' @ strerror e"

text \<open>The whole function: the result or the text of the exception, \<^verbatim>\<open>std::cout\<close>, the host.\<close>

definition kvmIoctl_full ::
  "'k os \<Rightarrow> (int \<Rightarrow> string) \<Rightarrow> bool \<Rightarrow> bool \<Rightarrow> int \<Rightarrow> kvm_req \<Rightarrow> nat \<Rightarrow> string list \<Rightarrow> ostream \<times> 'k host \<Rightarrow>
     (string + (int \<times> kvm_req)) \<times> ostream \<times> 'k host" where
  "kvmIoctl_full os strerror monitor_ioctl raise_exception fd req nr args s =
     (let (out, h) = s;
          ((r, e, req'), k') = os_ioctl os fd req (kern h);
          h' = h\<lparr>kern := k', errno := (if r < 0 then e else 0)\<rparr>;
          msg = ioctl_message strerror fd nr args (errno h');
          out' = (if monitor_ioctl then out_all [Str msg, Str [NL]] out else out)
      in (if r < 0 \<and> raise_exception then Inl msg else Inr (if r < 0 then - errno h' else r, req'), out', h'))"

section \<open>What the texts leave\<close>

lemma kvmIoctl_full_result:
  "kvmIoctl_full os strerror mon False fd req nr args (out, h) =
     (let (x, h') = kvmIoctl os fd req h
      in (Inr x, if mon then out_all [Str (ioctl_message strerror fd nr args (errno h')), Str [NL]] out else out, h'))"
  by (auto simp: kvmIoctl_full_def kvmIoctl_def Let_def split: prod.splits)

lemma kvmIoctl_full_ctor:
  "kvmIoctl_full os strerror mon True fd req nr args (out, h) = (y, out', h') \<Longrightarrow>
     kvmIoctlCtor os fd req h = (case y of Inl msg \<Rightarrow> Inl Runtime_Error | Inr x \<Rightarrow> Inr (x, h'))"
  by (auto simp: kvmIoctl_full_def kvmIoctlCtor_def Let_def split: prod.splits if_splits)

text \<open>The log of a request that succeeds says so, whatever \<^verbatim>\<open>errno\<close> was before: it is set to 0 first.\<close>

lemma kvmIoctl_full_log_success:
  assumes "kvmIoctl_full os strerror True raising fd req nr args (out, h) = (Inr (r, req'), out', h')"
    and "0 \<le> r" "errno_positive os" "st_width out = 0"
  shows "st_text out' = st_text out @ ioctl_message strerror fd nr args 0 @ [NL]"
proof -
  obtain q e req1 k' where 1: "os_ioctl os fd req (kern h) = ((q, e, req1), k')" by (metis prod_cases3 surj_pair)
  have "q < 0 \<Longrightarrow> 0 < e" using assms(3) 1 unfolding errno_positive_def by blast
  then have "\<not> q < 0" using assms(1,2) 1 by (auto simp: kvmIoctl_full_def Let_def split: if_splits)
  then show ?thesis using assms(1,4) 1 by (auto simp: kvmIoctl_full_def Let_def)
qed

end
