(* ===== verification/TraceBuild.thy ===== *)
theory TraceBuild
  imports VmBoot
begin

text \<open>
  The code under \<^verbatim>\<open>GUEST_DEBUG\<close>, which the targets \<^verbatim>\<open>lvmm_trace\<close> and \<^verbatim>\<open>lvmm_debug\<close> of the Makefile
  compile in (\<^verbatim>\<open>src/vcpu.cpp\<close>, \<^verbatim>\<open>src/vm.cpp\<close>): \<^verbatim>\<open>SetGuestDebug\<close>, the run loop that prints the
  instruction of the first ten debug exits and goes on, and the loop in \<^verbatim>\<open>VM::Boot\<close> that switches
  single-stepping on.

  The loop reads the guest's memory while the guest may change it: what lies at an offset from
  \<^verbatim>\<open>ram_start\<close> is the function \<open>mem\<close> of the kernel's state, \<open>None\<close> outside the mapping.
\<close>

section \<open>SetGuestDebug\<close>

abbreviation (input) KVM_GUESTDBG_ENABLE :: u32 where "KVM_GUESTDBG_ENABLE \<equiv> 0x1"

abbreviation (input) KVM_GUESTDBG_SINGLESTEP :: u32 where "KVM_GUESTDBG_SINGLESTEP \<equiv> 0x2"

abbreviation (input) KVM_GUESTDBG_USE_HW_BP :: u32 where "KVM_GUESTDBG_USE_HW_BP \<equiv> 0x20000"

definition guest_debug_control :: "bool \<Rightarrow> bool \<Rightarrow> u32" where
  "guest_debug_control enable singlestep =
     KVM_GUESTDBG_USE_HW_BP OR (push_bit 1 (of_bool enable) OR of_bool singlestep)"

definition SetGuestDebug :: "'k os \<Rightarrow> int \<Rightarrow> bool \<Rightarrow> bool \<Rightarrow> 'k host \<Rightarrow> int \<times> 'k host" where
  "SetGuestDebug os fd enable singlestep h =
     ioctl_status os fd (KVM_SET_GUEST_DEBUG (guest_debug_control enable singlestep)) h"

section \<open>The traced run loop\<close>

abbreviation (input) rc_max :: nat where "rc_max \<equiv> 10"

definition guest_bytes :: "('k \<Rightarrow> u64 \<Rightarrow> u8 option) \<Rightarrow> 'k \<Rightarrow> u64 \<Rightarrow> nat \<Rightarrow> u8 list option" where
  "guest_bytes mem k a n = those (map (\<lambda>i. mem k (a + of_nat i)) [0..<n])"

definition inst_items :: "u8 list \<Rightarrow> out_item list" where
  "inst_items bs =
     concat (map (\<lambda>b. [Setfill CHR ''0'', Setw 2, Num (unat b), Str '' '']) bs) @ [Str [NL], Set_dec]"

text \<open>
  A debug exit that is traced. \<open>regs\<close> is the variable of the loop, uninitialised at first, and \<open>r1\<close>
  the one of \<^verbatim>\<open>DumpRegs\<close>; the results of the three calls are dropped.
\<close>

definition trace_step ::
  "'k os \<Rightarrow> vcpu \<Rightarrow> ('k \<Rightarrow> u64 \<Rightarrow> u8 option) \<Rightarrow> vcpu_regs \<Rightarrow> vcpu_regs \<Rightarrow> console \<Rightarrow> 'k guest \<Rightarrow>
     fault + (vcpu_regs \<times> console \<times> 'k guest)" where
  "trace_step os v mem r1 regs con s =
     (let (run, (devs, h)) = s; (out, err) = con;
          (r, h1) = SetGuestDebug os (vcpu_fd v) True True h;
          ((r', regs'), h2) = GetRegs os (vcpu_fd v) regs h1;
          out1 = out_all [Set_hex, Str ''regs.rip: '', Num (unat (rip regs')), Str [NL]] out;
          (r'', out2, h3) = DumpRegs os (vcpu_fd v) (vcpu_id v) r1 (out1, h2)
      in case guest_bytes mem (kern h3) (rip regs') 16 of
           None \<Rightarrow> Inl Out_Of_Bounds
         | Some bs \<Rightarrow> Inr (regs', (out_all (inst_items bs) out2, err), (run, (devs, h3))))"

text \<open>The loop up to the exit it stops at, with the number \<open>rc\<close> of the exits traced.\<close>

partial_function (option) trace_while ::
  "'k os \<Rightarrow> vcpu \<Rightarrow> ('k \<Rightarrow> u64 \<Rightarrow> u8 option) \<Rightarrow> vcpu_regs \<Rightarrow> nat \<Rightarrow> vcpu_regs \<Rightarrow> console \<Rightarrow> 'k guest \<Rightarrow>
     (fault + (nat \<times> console \<times> 'k guest)) option" where
  "trace_while os v mem r1 rc regs con s =
     (case RunOnce os v s of
        Inl e \<Rightarrow> Some (Inl e)
      | Inr (r, s1) \<Rightarrow>
          if r = 0 then trace_while os v mem r1 rc regs con s1
          else
            let con1 = (fst con, out_all (stop_message (vcpu_id v) (fst s1)) (snd con))
            in if run_exit_reason (fst s1) = KVM_EXIT_DEBUG \<and> rc < rc_max then
                 case trace_step os v mem r1 regs con1 s1 of
                   Inl e \<Rightarrow> Some (Inl e)
                 | Inr (regs', con2, s2) \<Rightarrow> trace_while os v mem r1 (rc + 1) regs' con2 s2
               else Some (Inr (rc, con1, s1)))"

definition trace_details :: "kvm_run \<Rightarrow> out_item list" where
  "trace_details run =
     (if run_exit_reason run = KVM_EXIT_DEBUG then [Str ''KVM_EXIT_DEBUG: reached rc_max'', Str [NL]]
      else exit_details run)"

definition RunLoop_trace ::
  "'k os \<Rightarrow> vcpu \<Rightarrow> ('k \<Rightarrow> u64 \<Rightarrow> u8 option) \<Rightarrow> vcpu_regs \<Rightarrow> vcpu_regs \<Rightarrow> vcpu_sregs \<Rightarrow> console \<Rightarrow>
     'k guest \<Rightarrow> (fault + (int \<times> console \<times> 'k guest)) option" where
  "RunLoop_trace os v mem regs r1 s0 con s =
     (case trace_while os v mem r1 0 regs (run_banner v con) s of
        None \<Rightarrow> None
      | Some (Inl e) \<Rightarrow> Some (Inl e)
      | Some (Inr (rc, (out, err), s1)) \<Rightarrow>
          Some (Inr (dump_and_stop os v r1 s0 (out, out_all (trace_details (fst s1)) err) s1)))"

text \<open>The loop at the head of \<^verbatim>\<open>VM::Boot\<close>: its body for vCPU \<open>i\<close>, and from index \<open>i\<close> with \<open>n\<close> vCPUs left.\<close>

definition enable_trace :: "'k os \<Rightarrow> vcpu_obj \<Rightarrow> nat \<Rightarrow> ostream \<times> 'k host \<Rightarrow> ostream \<times> 'k host" where
  "enable_trace os vo i s =
     (let (out, h) = s; (r, h') = SetGuestDebug os (vo_fd vo) True True h
      in (out_all [Str ''VM::Boot: Enabling vCPU['', Num i, Str ''] tracing (singlestep)'', Str [NL]] out, h'))"

fun boot_enable_trace :: "'k os \<Rightarrow> vcpu_obj list \<Rightarrow> nat \<Rightarrow> nat \<Rightarrow> ostream \<times> 'k host \<Rightarrow>
    fault + (ostream \<times> 'k host)" where
  "boot_enable_trace os vs 0 i s = Inr s"
| "boot_enable_trace os vs (Suc n) i s =
     (if i < length vs then boot_enable_trace os vs n (Suc i) (enable_trace os (vs ! i) i s)
      else Inl Out_Of_Bounds)"

section \<open>What is printed and asked for\<close>

text \<open>The flags: bit 1 of the control word is single-stepping and bit 0 enables debugging, but the
  code shifts \<open>enable\<close>. The two coincide in the only call, with both set.\<close>

lemma guest_debug_control_both:
  "guest_debug_control True True = KVM_GUESTDBG_ENABLE OR KVM_GUESTDBG_SINGLESTEP OR KVM_GUESTDBG_USE_HW_BP"
  by (simp add: guest_debug_control_def)

lemma guest_debug_control_swapped:
  "guest_debug_control True False AND KVM_GUESTDBG_ENABLE = 0"
  "guest_debug_control True False AND KVM_GUESTDBG_SINGLESTEP \<noteq> 0"
  "guest_debug_control False True AND KVM_GUESTDBG_ENABLE \<noteq> 0"
  by (simp_all add: guest_debug_control_def)

text \<open>The bytes of the instruction come out in decimal: \<^verbatim>\<open>DumpRegs\<close> resets the base of \<^verbatim>\<open>std::cout\<close>.\<close>

lemma DumpRegs_dec:
  assumes "DumpRegs os fd i r1 (out, h) = (0, out', h')"
  shows "\<not> st_hex out'"
  using assms
  by (auto simp: DumpRegs_def dump_regs_items_def out_all_append split: prod.splits if_splits)

lemma inst_items_text:
  assumes "\<not> st_hex o1" "st_width o1 = 0"
  shows "st_text (out_all (inst_items bs) o1)
     = st_text o1 @ concat (map (\<lambda>b. pad_left 2 CHR ''0'' (num_text False (unat b)) @ '' '') bs) @ [NL]"
proof -
  have "\<exists>o2. out_all (concat (map (\<lambda>b. [Setfill CHR ''0'', Setw 2, Num (unat b), Str '' '']) bs)) o1 = o2
      \<and> \<not> st_hex o2 \<and> st_width o2 = 0 \<and> st_text o2 = st_text o1
        @ concat (map (\<lambda>b. pad_left 2 CHR ''0'' (num_text False (unat b)) @ '' '') bs)"
    using assms by (induction bs arbitrary: o1) (auto simp: out_all_append)
  then show ?thesis by (auto simp: inst_items_def out_all_append)
qed

text \<open>Switching single-stepping on goes wrong only for a vCPU that does not exist; a machine as
  \<^verbatim>\<open>initMachine\<close> leaves it has all of them. Failures of the kernel are ignored.\<close>

lemma boot_enable_trace_fault_iff:
  "boot_enable_trace os vs n i s = Inl e \<longleftrightarrow> e = Out_Of_Bounds \<and> 0 < n \<and> length vs < i + n"
  by (induction os vs n i s rule: boot_enable_trace.induct) (auto split: prod.splits)

lemma boot_enable_trace_ready:
  assumes "machine_ready m"
  shows "\<exists>x. boot_enable_trace os (m_vcpus m) (nat (conf_vcpu_num (m_conf m))) 0 s = Inr x"
proof -
  have "nat (conf_vcpu_num (m_conf m)) = length (m_vcpus m)"
    using assms unfolding machine_ready_def by linarith
  then show ?thesis
    using boot_enable_trace_fault_iff [of os "m_vcpus m" "length (m_vcpus m)" 0 s]
    by (cases "boot_enable_trace os (m_vcpus m) (length (m_vcpus m)) 0 s") auto
qed

section \<open>The traced loop as stretches of the run loop\<close>

text \<open>What follows an exit that \<^verbatim>\<open>RunLoop\<close> would stop at.\<close>

definition trace_exit ::
  "'k os \<Rightarrow> vcpu \<Rightarrow> ('k \<Rightarrow> u64 \<Rightarrow> u8 option) \<Rightarrow> vcpu_regs \<Rightarrow> nat \<Rightarrow> vcpu_regs \<Rightarrow> console \<Rightarrow> 'k guest \<Rightarrow>
     (fault + (nat \<times> console \<times> 'k guest)) option" where
  "trace_exit os v mem r1 rc regs con s1 =
     (let con1 = (fst con, out_all (stop_message (vcpu_id v) (fst s1)) (snd con))
      in if run_exit_reason (fst s1) = KVM_EXIT_DEBUG \<and> rc < rc_max then
           case trace_step os v mem r1 regs con1 s1 of
             Inl e \<Rightarrow> Some (Inl e)
           | Inr (regs', con2, s2) \<Rightarrow> trace_while os v mem r1 (rc + 1) regs' con2 s2
         else Some (Inr (rc, con1, s1)))"

lemma trace_while_unfold:
  "trace_while os v mem r1 rc regs con s =
     (case RunOnce os v s of
        Inl e \<Rightarrow> Some (Inl e)
      | Inr (r, s1) \<Rightarrow> if r = 0 then trace_while os v mem r1 rc regs con s1
                     else trace_exit os v mem r1 rc regs con s1)"
  by (subst trace_while.simps) (simp add: trace_exit_def split: sum.splits)

lemma trace_while_runs:
  assumes "trace_while os v mem r1 rc regs con s = Some x"
  shows "\<exists>y. run_while os v s = Some y"
proof (rule trace_while.raw_induct [OF _ assms], goal_cases)
  case (1 tw os v mem r1 rc regs con s x)
  show ?case
  proof (cases "RunOnce os v s")
    case (Inl e)
    then show ?thesis by (subst run_while.simps) simp
  next
    case (Inr p)
    then obtain r s1 where p: "RunOnce os v s = Inr (r, s1)" by (cases p) simp
    show ?thesis
    proof (cases "r = 0")
      case True
      then have "\<exists>y. run_while os v s1 = Some y" using 1 p by auto
      then show ?thesis using p True by (subst run_while.simps) simp
    next
      case False
      then show ?thesis using p by (subst run_while.simps) simp
    qed
  qed
qed

lemma trace_while_stretch:
  "trace_while os v mem r1 rc regs con s =
     (case run_while os v s of
        None \<Rightarrow> None
      | Some (Inl e) \<Rightarrow> Some (Inl e)
      | Some (Inr s1) \<Rightarrow> trace_exit os v mem r1 rc regs con s1)"
proof (cases "run_while os v s")
  case None
  then show ?thesis
    using trace_while_runs [of os v mem r1 rc regs con s]
    by (cases "trace_while os v mem r1 rc regs con s") auto
next
  case (Some y)
  then obtain s' where path: "(keeps_running os v)\<^sup>*\<^sup>* s s'" and stop: "stops os v s' y"
    unfolding run_while_iff by blast
  from path have "trace_while os v mem r1 rc regs con s = trace_while os v mem r1 rc regs con s'"
  proof (induction rule: converse_rtranclp_induct)
    case (step s s1)
    then show ?case
      by (subst trace_while_unfold) (auto elim!: keeps_runningE)
  qed simp
  also have "\<dots> = (case y of Inl e \<Rightarrow> Some (Inl e) | Inr s1 \<Rightarrow> trace_exit os v mem r1 rc regs con s1)"
    using stop by (subst trace_while_unfold) (auto simp: stops_def split: sum.splits prod.splits)
  finally show ?thesis using Some by simp
qed

text \<open>From \<open>rc\<close> exits traced on: \<open>P\<close> is what the guest keeps, by which it always comes back.\<close>

lemma trace_while_bounded:
  assumes "rc \<le> 10" "P s"
    and "\<And>s. P s \<Longrightarrow> \<exists>s1. run_while os v s = Some (Inr s1)
           \<and> (\<forall>regs con. \<exists>regs' con' s2. trace_step os v mem r1 regs con s1 = Inr (regs', con', s2) \<and> P s2)"
  shows "\<exists>rc' con' s'. trace_while os v mem r1 rc regs con s = Some (Inr (rc', con', s'))
    \<and> rc' \<le> 10 \<and> (run_exit_reason (fst s') = KVM_EXIT_DEBUG \<longrightarrow> rc' = 10)"
  using assms(1,2)
proof (induction "10 - rc" arbitrary: rc regs con s rule: less_induct)
  case less
  obtain s1 where s1: "run_while os v s = Some (Inr s1)"
    and next_step: "\<forall>regs con. \<exists>regs' con' s2. trace_step os v mem r1 regs con s1 = Inr (regs', con', s2) \<and> P s2"
    using assms(3) [OF less.prems(2)] by blast
  show ?case
  proof (cases "run_exit_reason (fst s1) = KVM_EXIT_DEBUG \<and> rc < 10")
    case False
    then show ?thesis
      using s1 less.prems(1) by (auto simp: trace_while_stretch trace_exit_def simp del: split_paired_Ex)
  next
    case True
    let ?con = "(fst con, out_all (stop_message (vcpu_id v) (fst s1)) (snd con))"
    obtain regs' con' s2 where s2: "trace_step os v mem r1 regs ?con s1 = Inr (regs', con', s2)" "P s2"
      using next_step by blast
    have "trace_while os v mem r1 rc regs con s = trace_while os v mem r1 (rc + 1) regs' con' s2"
      using s1 s2(1) True by (subst trace_while_stretch) (simp add: trace_exit_def)
    then show ?thesis using less.hyps [of "rc + 1" s2 regs' con'] True s2(2) by auto
  qed
qed

section \<open>Properties\<close>

text \<open>The trace build changes nothing for a guest that takes no debug exit: whether the loop
  returns, its result, both streams and the state left are those of the loop of the ordinary build.\<close>

lemma trace_without_debug_exits:
  assumes "\<And>s1. run_while os v s = Some (Inr s1) \<Longrightarrow> run_exit_reason (fst s1) \<noteq> KVM_EXIT_DEBUG"
  shows "RunLoop_trace os v mem regs r1 s0 con s = RunLoop os v r1 s0 con s"
proof -
  have report: "out_all (trace_details run) (out_all (stop_message i run) err) = report_exit i run err"
    if "run_exit_reason run \<noteq> KVM_EXIT_DEBUG" for run i err
    using that by (simp add: trace_details_def report_exit_def out_all_append)
  show ?thesis
    using assms
    by (auto simp: RunLoop_trace_def RunLoop_alt trace_while_stretch trace_exit_def stop_running_def report
        split: option.splits sum.splits prod.splits)
qed

text \<open>The traced loop goes round a bounded number of times: if the guest always comes back from
  the stretches between its exits, then the loop returns, after at most ten traced exits, and
  stops at a debug exit only when it has traced ten.\<close>

lemma trace_loop_bounded:
  assumes "P s"
    and "\<And>s. P s \<Longrightarrow> \<exists>s1. run_while os v s = Some (Inr s1)
           \<and> (\<forall>regs con. \<exists>regs' con' s2. trace_step os v mem r1 regs con s1 = Inr (regs', con', s2) \<and> P s2)"
  shows "\<exists>rc con' s' x. trace_while os v mem r1 0 regs (run_banner v con) s = Some (Inr (rc, con', s'))
    \<and> rc \<le> 10 \<and> (run_exit_reason (fst s') = KVM_EXIT_DEBUG \<longrightarrow> rc = 10)
    \<and> RunLoop_trace os v mem regs r1 s0 con s = Some (Inr x)"
proof -
  obtain rc con' s' where "trace_while os v mem r1 0 regs (run_banner v con) s = Some (Inr (rc, con', s'))"
    "rc \<le> 10 \<and> (run_exit_reason (fst s') = KVM_EXIT_DEBUG \<longrightarrow> rc = 10)"
    using trace_while_bounded [of 0 P s os v mem r1 regs "run_banner v con"] assms by auto
  then show ?thesis
    by (intro exI [of _ rc] exI [of _ con'] exI [of _ s']) (cases con', simp add: RunLoop_trace_def del: split_paired_Ex)
qed

text \<open>A guest that is single-stepped: every \<^verbatim>\<open>KVM_RUN\<close> ends in a debug exit.\<close>

definition stepped_os :: "sample_kernel os" where
  "stepped_os = sample_os\<lparr>os_ioctl := (\<lambda>fd req k.
     case req of KVM_RUN run \<Rightarrow> ((0, 0, KVM_RUN (run\<lparr>run_exit_reason := KVM_EXIT_DEBUG\<rparr>)), k)
     | _ \<Rightarrow> sample_answer req k)\<rparr>"

end
