(* ===== verification/Executions.thy ===== *)
theory Executions
  imports LvmmPrelude
begin

text \<open>
  Executions of a step relation, for the transition systems of the development: infinite ones and a
  measure that excludes them (locale \<open>ranked_steps\<close>, interpreted by the boot of the ordinary build
  and that of the trace build), and forward simulations (locale \<open>simulation\<close>).
\<close>

section \<open>Infinite executions\<close>

definition runs_for_ever :: "('s \<Rightarrow> 's \<Rightarrow> bool) \<Rightarrow> 's \<Rightarrow> bool" where
  "runs_for_ever step s \<longleftrightarrow> (\<exists>f. f 0 = s \<and> (\<forall>n. step (f n) (f (Suc n))))"

lemma infinite_path_reaches: "(\<And>n. step (f n) (f (Suc n))) \<Longrightarrow> step\<^sup>*\<^sup>* (f 0) (f n)"
  by (induction n) (auto intro: rtranclp.rtrancl_into_rtrancl)

text \<open>If every reachable state has a successor, there is an infinite execution.\<close>

lemma runs_for_ever_step:
  assumes "\<And>s'. step\<^sup>*\<^sup>* s s' \<Longrightarrow> \<exists>s''. step s' s''"
  shows "runs_for_ever step s"
proof -
  have "\<exists>f. \<forall>n. ((n = 0 \<longrightarrow> f n = s) \<and> step\<^sup>*\<^sup>* s (f n)) \<and> step (f n) (f (Suc n))"
    by (rule dependent_nat_choice) (use assms in \<open>auto intro: rtranclp.rtrancl_into_rtrancl\<close>)
  then show ?thesis unfolding runs_for_ever_def by blast
qed

lemma runs_for_ever_prefix:
  assumes "step\<^sup>*\<^sup>* s s'" "runs_for_ever step s'"
  shows "runs_for_ever step s"
  using assms
proof (induction rule: converse_rtranclp_induct)
  case (step s s1)
  then obtain f where "f 0 = s1" "\<And>n. step (f n) (f (Suc n))" unfolding runs_for_ever_def by blast
  with step(1) show ?case
    unfolding runs_for_ever_def by (intro exI [of _ "case_nat s f"]) (auto split: nat.split)
qed

text \<open>A step relation whose steps all have their image among those of another one.\<close>

lemma runs_for_ever_image:
  assumes "runs_for_ever step s" "\<And>s s'. step s s' \<Longrightarrow> step' (g s) (g s')"
  shows "runs_for_ever step' (g s)"
proof -
  obtain f where "f 0 = s" "\<And>n. step (f n) (f (Suc n))" using assms(1) unfolding runs_for_ever_def by blast
  then show ?thesis unfolding runs_for_ever_def by (intro exI [of _ "g \<circ> f"]) (auto intro: assms(2))
qed

text \<open>A sequence of natural numbers that never grows is constant from some point on.\<close>

lemma eventually_constant:
  fixes r :: "nat \<Rightarrow> nat"
  assumes "\<And>n. r (Suc n) \<le> r n"
  obtains N where "\<And>n. N \<le> n \<Longrightarrow> r (Suc n) = r n"
proof -
  define v where "v = (LEAST v. v \<in> range r)"
  have "v \<in> range r" unfolding v_def by (rule LeastI_ex) blast
  then obtain N where N: "r N = v" by blast
  have above: "v \<le> r n" for n unfolding v_def by (rule Least_le) blast
  have below: "r n \<le> r N" if "N \<le> n" for n
    using that lift_Suc_antimono_le [of r N n] assms by blast
  have "r (Suc n) = r n" if "N \<le> n" for n
    using below [of n] below [of "Suc n"] above [of n] above [of "Suc n"] N that by simp
  then show ?thesis by (rule that)
qed

section \<open>A measure on the steps that do not depend on the outside\<close>

text \<open>
  \<open>outside\<close> are steps that may go on for ever. They do not enlarge the measure, and every other step
  makes it smaller.
\<close>

locale ranked_steps = step_invariant +
  fixes outside :: "'a \<Rightarrow> 'a \<Rightarrow> bool"
    and rank :: "'a \<Rightarrow> nat"
  assumes step_rank: "inv s \<Longrightarrow> step s s' \<Longrightarrow> outside s s' \<or> rank s' < rank s"
    and outside_rank: "outside s s' \<Longrightarrow> rank s' \<le> rank s"
begin

lemma runs_outside:
  assumes "inv s" "runs_for_ever step s"
  shows "\<exists>s'. step\<^sup>*\<^sup>* s s' \<and> runs_for_ever outside s'"
proof -
  obtain f where f0: "f 0 = s" and steps: "\<And>n. step (f n) (f (Suc n))"
    using assms(2) unfolding runs_for_ever_def by blast
  have reach: "step\<^sup>*\<^sup>* s (f n)" for n
    using infinite_path_reaches [of step f n] steps by (simp add: f0)
  have cases: "outside (f n) (f (Suc n)) \<or> rank (f (Suc n)) < rank (f n)" for n
    by (rule step_rank [OF path_inv [OF reach assms(1)] steps])
  then have "rank (f (Suc n)) \<le> rank (f n)" for n
    using outside_rank [of "f n"] less_imp_le by blast
  from eventually_constant [of "\<lambda>n. rank (f n)", OF this]
  obtain N where "\<And>n. N \<le> n \<Longrightarrow> rank (f (Suc n)) = rank (f n)" by blast
  then have "outside (f (N + n)) (f (Suc (N + n)))" for n
    using cases [of "N + n"] by simp
  then have "runs_for_ever outside (f N)"
    unfolding runs_for_ever_def by (intro exI [of _ "\<lambda>n. f (N + n)"]) simp
  then show ?thesis using reach by blast
qed

text \<open>So if the outside comes to an end, every execution does, in a state without successor.\<close>

lemma execution_finite:
  assumes "inv s" "\<And>s'. step\<^sup>*\<^sup>* s s' \<Longrightarrow> \<not> runs_for_ever outside s'"
  shows "\<not> runs_for_ever step s"
  using runs_outside [OF assms(1)] assms(2) by blast

lemma execution_ends:
  assumes "inv s" "\<And>s'. step\<^sup>*\<^sup>* s s' \<Longrightarrow> \<not> runs_for_ever outside s'" "step\<^sup>*\<^sup>* s s1"
  shows "\<exists>s2. step\<^sup>*\<^sup>* s1 s2 \<and> inv s2 \<and> (\<nexists>s3. step s2 s3)"
proof (rule ccontr)
  assume none: "\<not> ?thesis"
  have "\<exists>s3. step s2 s3" if "step\<^sup>*\<^sup>* s1 s2" for s2
    using none that path_inv [OF rtranclp_trans [OF assms(3) that] assms(1)] by blast
  then have "runs_for_ever step s1" by (rule runs_for_ever_step)
  then show False
    using execution_finite [OF assms(1,2)] runs_for_ever_prefix [OF assms(3)] by blast
qed

end

section \<open>Forward simulations\<close>

locale simulation =
  fixes concrete :: "'c \<Rightarrow> 'c \<Rightarrow> bool"
    and abstract :: "'a \<Rightarrow> 'a \<Rightarrow> bool"
    and rel :: "'c \<Rightarrow> 'a \<Rightarrow> bool"
  assumes sim_step: "rel c a \<Longrightarrow> concrete c c' \<Longrightarrow> \<exists>a'. abstract\<^sup>*\<^sup>* a a' \<and> rel c' a'"
begin

lemma sim_path:
  assumes "concrete\<^sup>*\<^sup>* c c'" "rel c a"
  shows "\<exists>a'. abstract\<^sup>*\<^sup>* a a' \<and> rel c' a'"
  using assms
proof (induction rule: rtranclp_induct)
  case (step c1 c2)
  then show ?case using sim_step by (meson rtranclp_trans)
qed blast

end

end
