(* ===== verification/BootTermination.thy ===== *)
theory BootTermination
  imports DeviceTypes TraceBuild Executions
begin

text \<open>
  When \<^verbatim>\<open>VM::Boot\<close> returns. The steps of \<open>VmBoot\<close> are of two kinds: those that depend on the outside
  (a \<^verbatim>\<open>KVM_RUN\<close> after which the vCPU goes on, an iteration of the reader of standard input), which
  may go on for ever, and the rest: starting a thread, its first and its last steps, joining it,
  returning. A measure bounds the rest, whatever the number of vCPUs and the interleaving.
\<close>

section \<open>Steps that may go on for ever\<close>

inductive outside_step ::
  "'k os \<Rightarrow> machine \<Rightarrow> vcpu_regs \<Rightarrow> vcpu_sregs \<Rightarrow> 'k boot_state \<Rightarrow> 'k boot_state \<Rightarrow> bool"
  for os m r0 s0 where
  guest: "i < length (bs_threads s) \<Longrightarrow> th_phase (bs_threads s ! i) = T_Running \<Longrightarrow>
    RunOnce os (th_vcpu (bs_threads s ! i)) (thread_guest s (bs_threads s ! i)) = Inr (0, g) \<Longrightarrow>
    outside_step os m r0 s0 s (thread_turn os r0 s0 i s)"
| input: "bs_reader s \<Longrightarrow> bs_devs s ! 2 = D_Com1 c \<Longrightarrow> outside_step os m r0 s0 s (reader_turn os (m_fd m) c s)"

text \<open>The steps a thread has before it, apart from the turns of its guest.\<close>

primrec phase_rank :: "thread_phase \<Rightarrow> nat" where
  "phase_rank T_Start = 3"
| "phase_rank T_Running = 2"
| "phase_rank T_Stopping = 1"
| "phase_rank (T_Done r) = 0"

definition threads_rank :: "vcpu_thread list \<Rightarrow> nat" where
  "threads_rank ts = sum_list (map (\<lambda>t. phase_rank (th_phase t)) ts)"

definition boot_rank :: "machine \<Rightarrow> 'k boot_state \<Rightarrow> nat" where
  "boot_rank m s =
     (let n = nat (conf_vcpu_num (m_conf m))
      in 4 * (n - length (bs_threads s)) + threads_rank (bs_threads s) + (n - bs_joined s) + of_bool (running s))"

lemma threads_rank_update:
  assumes "i < length ts"
  shows "threads_rank (ts[i := t]) + phase_rank (th_phase (ts ! i)) = threads_rank ts + phase_rank (th_phase t)"
proof -
  let ?f = "\<lambda>t. phase_rank (th_phase t)"
  have "?f (ts ! i) \<le> sum_list (map ?f ts)" using assms by (simp add: elem_le_sum_list [of i "map ?f ts", simplified])
  then show ?thesis using assms by (simp add: threads_rank_def map_update sum_list_update)
qed

lemma threads_rank_put_guest:
  assumes "i < length (bs_threads s)"
  shows "threads_rank (bs_threads (put_guest i ph g s)) + phase_rank (th_phase (bs_threads s ! i))
    = threads_rank (bs_threads s) + phase_rank ph"
  using threads_rank_update [OF assms] by (simp add: put_guest_def split: prod.splits)

lemma put_guest_simps [simp]:
  "length (bs_threads (put_guest i ph g s)) = length (bs_threads s)"
  "bs_joined (put_guest i ph g s) = bs_joined s" "running (put_guest i ph g s) = running s"
  "running (s\<lparr>bs_out := out\<rparr>) = running s" "running (s\<lparr>bs_joined := j\<rparr>) = running s"
  by (simp_all add: put_guest_def running_def split: prod.splits)

lemma boot_rank_put_guest:
  assumes "i < length (bs_threads s)" "phase_rank ph < phase_rank (th_phase (bs_threads s ! i))"
  shows "boot_rank m (put_guest i ph g (s\<lparr>bs_out := out\<rparr>)) < boot_rank m s"
  using threads_rank_put_guest [of i "s\<lparr>bs_out := out\<rparr>" ph g] assms
  by (simp add: boot_rank_def Let_def)

lemma boot_rank_stop:
  assumes "running s" "\<not> running s'" "bs_threads s' = bs_threads s" "bs_joined s' = bs_joined s"
  shows "boot_rank m s' < boot_rank m s"
  using assms by (simp add: boot_rank_def Let_def)

text \<open>A turn of a thread is a turn of its guest or uses up one of its own steps.\<close>

lemma thread_turn_rank:
  assumes "running s" "i < length (bs_threads s)" "\<not> thread_done (bs_threads s ! i)"
  shows "outside_step os m r0 s0 s (thread_turn os r0 s0 i s) \<or> boot_rank m (thread_turn os r0 s0 i s) < boot_rank m s"
proof -
  let ?t = "bs_threads s ! i"
  note less = boot_rank_put_guest [OF assms(2)]
  show ?thesis
  proof (cases "th_phase ?t")
    case T_Start
    then show ?thesis using less [where ph = T_Running] by (simp add: thread_turn_def Let_def)
  next
    case T_Running
    show ?thesis
    proof (cases "RunOnce os (th_vcpu ?t) (thread_guest s ?t)")
      case (Inl e)
      then have "thread_turn os r0 s0 i s = s\<lparr>bs_fault := Some e\<rparr>"
        using T_Running by (simp add: thread_turn_def Let_def)
      then show ?thesis using boot_rank_stop [OF assms(1), of "s\<lparr>bs_fault := Some e\<rparr>" m] by (simp add: running_def)
    next
      case (Inr x)
      obtain r g where x: "x = (r, g)" by (cases x)
      show ?thesis
      proof (cases "r = 0")
        case True
        then show ?thesis using outside_step.guest [OF assms(2) T_Running] Inr x by blast
      next
        case False
        then have "thread_turn os r0 s0 i s = put_guest i T_Stopping g (s\<lparr>bs_out := bs_out s\<rparr>)"
          using T_Running Inr x by (simp add: thread_turn_def Let_def)
        then show ?thesis using less [where ph = T_Stopping and g = g and out = "bs_out s"] T_Running by simp
      qed
    qed
  next
    case T_Stopping
    obtain r out g where "stop_running os (th_vcpu ?t) r0 s0 (bs_out s) (thread_guest s ?t) = (r, out, g)"
      by (metis prod_cases3)
    then show ?thesis using less [where ph = "T_Done r" and g = g and out = out] T_Stopping by (simp add: thread_turn_def Let_def)
  next
    case (T_Done r)
    then show ?thesis using assms(3) by (simp add: thread_done_def)
  qed
qed


lemma boot_spawn_rank:
  assumes "running s" "\<not> all_spawned m s"
  shows "boot_rank m (boot_spawn m run0 s) < boot_rank m s"
proof (cases "length (bs_threads s) < length (m_vcpus m)")
  case True
  have "length (bs_threads s) < nat (conf_vcpu_num (m_conf m))" using assms(2) by (simp add: all_spawned_def)
  then show ?thesis using True
    by (simp add: boot_spawn_def boot_rank_def Let_def threads_rank_def running_def)
next
  case False
  then show ?thesis using boot_rank_stop [OF assms(1), of "s\<lparr>bs_fault := Some Out_Of_Bounds\<rparr>" m]
    by (simp add: boot_spawn_def running_def)
qed

lemma boot_step_rank:
  assumes "boot_inv m s" "boot_step os m r0 s0 run0 s s'"
  shows "outside_step os m r0 s0 s s' \<or> boot_rank m s' < boot_rank m s"
  using assms(2)
proof (cases rule: boot_step.cases)
  case spawn
  then show ?thesis using boot_spawn_rank by blast
next
  case (thread i)
  then show ?thesis using thread_turn_rank by blast
next
  case (reader c)
  then show ?thesis using outside_step.input by blast
next
  case join
  have "bs_joined s < nat (conf_vcpu_num (m_conf m))" using join(4) assms(1) unfolding boot_inv_def by linarith
  then have "nat (conf_vcpu_num (m_conf m)) - Suc (bs_joined s) < nat (conf_vcpu_num (m_conf m)) - bs_joined s"
    by simp
  moreover have "bs_threads (s\<lparr>bs_joined := j\<rparr>) = bs_threads s" "bs_joined (s\<lparr>bs_joined := j\<rparr>) = j" for j
    by simp_all
  ultimately have "boot_rank m (s\<lparr>bs_joined := Suc (bs_joined s)\<rparr>) < boot_rank m s"
    by (simp only: boot_rank_def Let_def put_guest_simps add_less_cancel_left add_less_cancel_right)
  then show ?thesis using join(1) by simp
next
  case return
  then show ?thesis using boot_rank_stop [of s s' m] by (simp add: running_def)
qed

lemma outside_step_rank: "outside_step os m r0 s0 s s' \<Longrightarrow> boot_rank m s' \<le> boot_rank m s"
proof (induction rule: outside_step.induct)
  case (guest i s g)
  then have turn: "thread_turn os r0 s0 i s = put_guest i T_Running g s" by (simp add: thread_turn_def Let_def)
  then show ?case using threads_rank_put_guest [OF guest(1), of T_Running g] guest(2)
    by (simp add: turn boot_rank_def Let_def)
next
  case (input s c)
  have "bs_threads (reader_turn os (m_fd m) c s) = bs_threads s" "bs_joined (reader_turn os (m_fd m) c s) = bs_joined s"
    "running (reader_turn os (m_fd m) c s) = running s"
    by (simp_all add: reader_turn_def running_def split: prod.splits)
  then show ?case by (simp add: boot_rank_def Let_def)
qed

interpretation boot_ranks: ranked_steps "boot_step os m r0 s0 run0"
    "\<lambda>s. machine_ready m \<and> errno_positive os \<and> boot_inv m s" "outside_step os m r0 s0" "boot_rank m"
  for os :: "'k os" and m :: machine and r0 s0 run0
  by unfold_locales (blast dest: boot_step_rank, rule outside_step_rank)

section \<open>Properties\<close>

text \<open>C14: The threads of a boot come to an end unless the outside keeps them going: if no guest can
  go on for ever and the reader comes to the end of its input, then, for any number of vCPUs and
  any interleaving, every execution of \<^verbatim>\<open>VM::Boot\<close> is finite, and from every state it gets to it can
  reach the return of \<^verbatim>\<open>Boot\<close> with 0 or a fault.\<close>

theorem boot_terminates:
  assumes "machine_ready m" "errno_positive os"
    and "\<And>s. boots os m r0 s0 run0 (boot_start m reader out k) s \<Longrightarrow> \<not> runs_for_ever (outside_step os m r0 s0) s"
  shows "\<not> runs_for_ever (boot_step os m r0 s0 run0) (boot_start m reader out k)
    \<and> (\<forall>s. boots os m r0 s0 run0 (boot_start m reader out k) s \<longrightarrow>
        (\<exists>s'. boots os m r0 s0 run0 s s' \<and> (bs_fault s' \<noteq> None \<or> bs_result s' = Some 0)))"
proof (intro conjI allI impI)
  have start: "machine_ready m \<and> errno_positive os \<and> boot_inv m (boot_start m reader out k)"
    using assms(1,2) by (simp add: boot_inv_start)
  show "\<not> runs_for_ever (boot_step os m r0 s0 run0) (boot_start m reader out k)"
    using boot_ranks.execution_finite [OF start] assms(3) by blast
  show "\<exists>s'. boots os m r0 s0 run0 s s' \<and> (bs_fault s' \<noteq> None \<or> bs_result s' = Some 0)"
    if s: "boots os m r0 s0 run0 (boot_start m reader out k) s" for s
  proof -
    obtain s' where s': "boots os m r0 s0 run0 s s'" "boot_inv m s'" "\<nexists>s''. boot_step os m r0 s0 run0 s' s''"
      using boot_ranks.execution_ends [OF start _ s] assms(3) by blast
    then have "\<not> running s'" using boot_inv_steps by blast
    then show ?thesis using s'(1,2) unfolding running_def boot_inv_def by (cases "bs_result s'") auto
  qed
qed

lemma stepped_errno_positive: "errno_positive stepped_os"
  by (fastforce simp: errno_positive_def stepped_os_def dest: sample_answer_ok split: kvm_req.splits)

lemma stepped_no_outside:
  assumes "\<not> bs_reader s"
  shows "\<not> outside_step stepped_os m r0 s0 s s'"
proof
  assume "outside_step stepped_os m r0 s0 s s'"
  then show False
  proof (cases rule: outside_step.cases)
    case (guest i g)
    then show ?thesis
      by (simp add: thread_guest_def RunOnce_def Run_def kvmIoctl_def stepped_os_def)
  next
    case (input c)
    then show ?thesis using assms by simp
  qed
qed

lemma boots_without_reader:
  assumes "boots os m r0 s0 run0 s s'" "\<not> bs_reader s"
  shows "\<not> bs_reader s'"
  using assms
proof (induction rule: rtranclp_induct)
  case (step s1 s2)
  from step(2) show ?case
    by (cases rule: boot_step.cases) (use step(3,4) in \<open>auto simp: boot_spawn_def Let_def\<close>)
qed simp

theorem boot_terminates_witness:
  "\<exists>s'. boots stepped_os sample_machine sample_regs sample_sregs idle_run
      (boot_start sample_machine False empty_console (sample_kernel [] [])) s'
    \<and> (bs_fault s' \<noteq> None \<or> bs_result s' = Some 0)"
proof -
  have "\<not> runs_for_ever (outside_step stepped_os sample_machine sample_regs sample_sregs) s"
    if "boots stepped_os sample_machine sample_regs sample_sregs idle_run
      (boot_start sample_machine False empty_console (sample_kernel [] [])) s" for s
    using stepped_no_outside [OF boots_without_reader [OF that]]
    unfolding runs_for_ever_def by (fastforce simp: boot_start_def)
  from boot_terminates [OF sample_machine_ready stepped_errno_positive this] show ?thesis by blast
qed

end
