(* ===== verification/TraceBoot.thy ===== *)
theory TraceBoot
  imports BootTermination DeviceTypes
begin

text \<open>
  \<^verbatim>\<open>VM::Boot\<close> as the targets \<^verbatim>\<open>lvmm_trace\<close> and \<^verbatim>\<open>lvmm_debug\<close> build it (\<^verbatim>\<open>GUEST_DEBUG\<close>): the main thread
  first switches single-stepping on for every vCPU, then starts and joins the threads as in theory
  \<open>VmBoot\<close>; each thread runs the traced loop of theory \<open>TraceBuild\<close>. The reader thread of the serial
  port exists since the device was made and runs beside all of this.

  A step is one vCPU switched to single-stepping, or what it is in \<open>VmBoot\<close>; the trace of a debug
  exit, with the jump back to the head of the loop, is the step a thread takes after the exit.
\<close>

section \<open>State\<close>

text \<open>The ordinary process, the position of the main thread in the added loop, and the variables \<^verbatim>\<open>rc\<close>
  and \<^verbatim>\<open>regs\<close> of the loop in each thread.\<close>

record 'k trace_boot =
  tb_sys :: "'k boot_state"
  tb_enabled :: nat
  tb_rc :: "nat \<Rightarrow> nat"
  tb_regs :: "nat \<Rightarrow> vcpu_regs"

definition trace_boot_start ::
  "machine \<Rightarrow> bool \<Rightarrow> console \<Rightarrow> 'k \<Rightarrow> (nat \<Rightarrow> vcpu_regs) \<Rightarrow> 'k trace_boot" where
  "trace_boot_start m reader out k regs =
     \<lparr>tb_sys = boot_start m reader out k, tb_enabled = 0, tb_rc = (\<lambda>i. 0), tb_regs = regs\<rparr>"

section \<open>The steps\<close>

definition boot_enable :: "'k os \<Rightarrow> machine \<Rightarrow> 'k trace_boot \<Rightarrow> 'k trace_boot" where
  "boot_enable os m s =
     (let sys = tb_sys s; i = tb_enabled s in
      if i < length (m_vcpus m) then
        let (out, err) = bs_out sys;
            (out', h) = enable_trace os (m_vcpus m ! i) i (out, \<lparr>kern = bs_kern sys, errno = 0\<rparr>)
        in s\<lparr>tb_sys := sys\<lparr>bs_out := (out', err), bs_kern := kern h\<rparr>, tb_enabled := Suc i\<rparr>
      else s\<lparr>tb_sys := sys\<lparr>bs_fault := Some Out_Of_Bounds\<rparr>\<rparr>)"

text \<open>What a thread does after an exit that \<^verbatim>\<open>RunOnce\<close> does not go on from.\<close>

definition trace_stop ::
  "'k os \<Rightarrow> ('k \<Rightarrow> u64 \<Rightarrow> u8 option) \<Rightarrow> vcpu_regs \<Rightarrow> vcpu_sregs \<Rightarrow> nat \<Rightarrow> 'k trace_boot \<Rightarrow> 'k trace_boot" where
  "trace_stop os mem r1 s0 i s =
     (let sys = tb_sys s; t = bs_threads sys ! i; v = th_vcpu t; g = thread_guest sys t;
          (out, err) = bs_out sys; err1 = out_all (stop_message (vcpu_id v) (th_run t)) err
      in if run_exit_reason (th_run t) = KVM_EXIT_DEBUG \<and> tb_rc s i < rc_max then
           case trace_step os v mem r1 (tb_regs s i) (out, err1) g of
             Inl e \<Rightarrow> s\<lparr>tb_sys := sys\<lparr>bs_fault := Some e\<rparr>\<rparr>
           | Inr (regs, con, g') \<Rightarrow>
               s\<lparr>tb_sys := put_guest i T_Running g' (sys\<lparr>bs_out := con\<rparr>),
                 tb_rc := (tb_rc s)(i := tb_rc s i + 1), tb_regs := (tb_regs s)(i := regs)\<rparr>
         else
           let (r, con, g') = dump_and_stop os v r1 s0 (out, out_all (trace_details (th_run t)) err1) g
           in s\<lparr>tb_sys := put_guest i (T_Done r) g' (sys\<lparr>bs_out := con\<rparr>)\<rparr>)"

definition trace_thread_turn ::
  "'k os \<Rightarrow> ('k \<Rightarrow> u64 \<Rightarrow> u8 option) \<Rightarrow> vcpu_regs \<Rightarrow> vcpu_sregs \<Rightarrow> nat \<Rightarrow> 'k trace_boot \<Rightarrow> 'k trace_boot" where
  "trace_thread_turn os mem r1 s0 i s =
     (if th_phase (bs_threads (tb_sys s) ! i) = T_Stopping then trace_stop os mem r1 s0 i s
      else s\<lparr>tb_sys := thread_turn os r1 s0 i (tb_sys s)\<rparr>)"

definition all_enabled :: "machine \<Rightarrow> 'k trace_boot \<Rightarrow> bool" where
  "all_enabled m s \<longleftrightarrow> conf_vcpu_num (m_conf m) \<le> int (tb_enabled s)"

inductive trace_boot_step ::
  "'k os \<Rightarrow> machine \<Rightarrow> ('k \<Rightarrow> u64 \<Rightarrow> u8 option) \<Rightarrow> vcpu_regs \<Rightarrow> vcpu_sregs \<Rightarrow> (nat \<Rightarrow> kvm_run) \<Rightarrow>
     'k trace_boot \<Rightarrow> 'k trace_boot \<Rightarrow> bool"
  for os m mem r1 s0 run0 where
  enable: "running (tb_sys s) \<Longrightarrow> \<not> all_enabled m s \<Longrightarrow> trace_boot_step os m mem r1 s0 run0 s (boot_enable os m s)"
| spawn: "running (tb_sys s) \<Longrightarrow> all_enabled m s \<Longrightarrow> \<not> all_spawned m (tb_sys s) \<Longrightarrow>
    trace_boot_step os m mem r1 s0 run0 s (s\<lparr>tb_sys := boot_spawn m run0 (tb_sys s)\<rparr>)"
| thread: "running (tb_sys s) \<Longrightarrow> i < length (bs_threads (tb_sys s)) \<Longrightarrow>
    \<not> thread_done (bs_threads (tb_sys s) ! i) \<Longrightarrow>
    trace_boot_step os m mem r1 s0 run0 s (trace_thread_turn os mem r1 s0 i s)"
| reader: "running (tb_sys s) \<Longrightarrow> bs_reader (tb_sys s) \<Longrightarrow> 2 < length (bs_devs (tb_sys s)) \<Longrightarrow>
    bs_devs (tb_sys s) ! 2 = D_Com1 c \<Longrightarrow>
    trace_boot_step os m mem r1 s0 run0 s (s\<lparr>tb_sys := reader_turn os (m_fd m) c (tb_sys s)\<rparr>)"
| join: "running (tb_sys s) \<Longrightarrow> all_enabled m s \<Longrightarrow> all_spawned m (tb_sys s) \<Longrightarrow>
    bs_joined (tb_sys s) < length (bs_threads (tb_sys s)) \<Longrightarrow>
    thread_done (bs_threads (tb_sys s) ! bs_joined (tb_sys s)) \<Longrightarrow>
    trace_boot_step os m mem r1 s0 run0 s (s\<lparr>tb_sys := (tb_sys s)\<lparr>bs_joined := Suc (bs_joined (tb_sys s))\<rparr>\<rparr>)"
| return: "running (tb_sys s) \<Longrightarrow> all_enabled m s \<Longrightarrow> all_spawned m (tb_sys s) \<Longrightarrow>
    bs_joined (tb_sys s) = length (bs_threads (tb_sys s)) \<Longrightarrow>
    trace_boot_step os m mem r1 s0 run0 s (s\<lparr>tb_sys := (tb_sys s)\<lparr>bs_result := Some 0\<rparr>\<rparr>)"

inductive_cases trace_boot_stepE: "trace_boot_step os m mem r1 s0 run0 s s'"

abbreviation trace_boots ::
  "'k os \<Rightarrow> machine \<Rightarrow> ('k \<Rightarrow> u64 \<Rightarrow> u8 option) \<Rightarrow> vcpu_regs \<Rightarrow> vcpu_sregs \<Rightarrow> (nat \<Rightarrow> kvm_run) \<Rightarrow>
     'k trace_boot \<Rightarrow> 'k trace_boot \<Rightarrow> bool" where
  "trace_boots os m mem r1 s0 run0 \<equiv> (trace_boot_step os m mem r1 s0 run0)\<^sup>*\<^sup>*"

text \<open>The threads that have ended are those that had ended before.\<close>

definition ends_no_thread :: "'k boot_state \<Rightarrow> 'k boot_state \<Rightarrow> bool" where
  "ends_no_thread s x \<longleftrightarrow> (\<forall>j < length (bs_threads x). thread_done (bs_threads x ! j) \<longrightarrow>
     j < length (bs_threads s) \<and> bs_threads x ! j = bs_threads s ! j)"

lemma ends_no_thread_put_guest:
  assumes "\<And>r. ph \<noteq> T_Done r"
  shows "ends_no_thread s (put_guest i ph g (s\<lparr>bs_out := out\<rparr>))"
proof -
  have "\<not> thread_done (t\<lparr>th_run := run, th_errno := e, th_phase := ph\<rparr>)" for t :: vcpu_thread and run e
    using assms by (auto simp: thread_done_def split: thread_phase.splits)
  then show ?thesis
    by (auto simp: ends_no_thread_def put_guest_def split: prod.splits) (metis nth_list_update_eq nth_list_update_neq)
qed

lemma ends_no_thread_turn:
  assumes "th_phase (bs_threads s ! i) \<noteq> T_Stopping"
  shows "ends_no_thread s (thread_turn os r0 s0 i s)"
  using assms ends_no_thread_put_guest [of _ s i _ "bs_out s"] ends_no_thread_put_guest [of T_Running s i]
  by (auto simp: thread_turn_def Let_def ends_no_thread_def split: thread_phase.splits sum.splits)

lemma ends_no_thread_simps [simp]:
  "ends_no_thread s (boot_spawn m run0 s)" "ends_no_thread s (reader_turn os fd c s)"
  "ends_no_thread s (s\<lparr>bs_joined := j\<rparr>)" "ends_no_thread s (s\<lparr>bs_result := r\<rparr>)" "ends_no_thread s (s\<lparr>bs_fault := f\<rparr>)"
  by (auto simp: ends_no_thread_def boot_spawn_def reader_turn_def Let_def nth_append thread_done_def
      split: if_splits prod.splits)

text \<open>A step switches a vCPU to single-stepping, deals with an exit, or is one of the ordinary boot.\<close>

lemma trace_boot_step_cases:
  assumes "trace_boot_step os m mem r1 s0 run0 s s'"
  obtains (Enable) "running (tb_sys s)" "\<not> all_enabled m s" "s' = boot_enable os m s"
  | (Stop) i where "running (tb_sys s)" "i < length (bs_threads (tb_sys s))"
      "th_phase (bs_threads (tb_sys s) ! i) = T_Stopping" "s' = trace_stop os mem r1 s0 i s"
  | (Boot) x where "boot_step os m r1 s0 run0 (tb_sys s) x" "s' = s\<lparr>tb_sys := x\<rparr>"
      "all_enabled m s \<or> length (bs_threads x) = length (bs_threads (tb_sys s))" "ends_no_thread (tb_sys s) x"
  using assms
proof (cases rule: trace_boot_step.cases)
  case (thread i)
  then show ?thesis
  proof (cases "th_phase (bs_threads (tb_sys s) ! i) = T_Stopping")
    case True
    then show ?thesis using thread Stop by (simp add: trace_thread_turn_def)
  next
    case False
    have "length (bs_threads (thread_turn os r1 s0 i (tb_sys s))) = length (bs_threads (tb_sys s))"
      by (auto simp: thread_turn_def Let_def split: thread_phase.splits sum.splits prod.splits)
    then show ?thesis
      using thread False Boot boot_step.thread [of "tb_sys s" i os m r1 s0 run0]
      by (simp add: trace_thread_turn_def ends_no_thread_turn)
  qed
next
  case enable
  then show ?thesis using Enable by simp
next
  case spawn
  then show ?thesis using Boot [OF boot_step.spawn] by simp
next
  case join
  then show ?thesis using Boot [OF boot_step.join] by simp
next
  case return
  then show ?thesis using Boot [OF boot_step.return] by simp
next
  case (reader c)
  have "length (bs_threads (reader_turn os (m_fd m) c (tb_sys s))) = length (bs_threads (tb_sys s))"
    by (simp add: reader_turn_def split: prod.splits)
  then show ?thesis using reader Boot [OF boot_step.reader] by simp
qed

section \<open>What a trace leaves\<close>

lemma trace_step_guest:
  assumes "trace_step os v mem r1 regs con (run, (devs, h)) = Inr (regs', con', g')"
  shows "\<exists>h'. g' = (run, (devs, h'))"
  using assms by (auto simp: trace_step_def Let_def split: prod.splits option.splits)

text \<open>A trace goes wrong only where the sixteen bytes at the instruction pointer are not all mapped.\<close>

lemma trace_step_fault:
  assumes "trace_step os v mem r1 regs con (run, (devs, h)) = Inl e"
  shows "e = Out_Of_Bounds \<and> (\<exists>r regs' h' k.
    GetRegs os (vcpu_fd v) regs (snd (SetGuestDebug os (vcpu_fd v) True True h)) = ((r, regs'), h')
    \<and> guest_bytes mem k (rip regs') 16 = None)"
  using assms by (auto simp: trace_step_def Let_def split: prod.splits option.splits)

text \<open>The three ways the step after an exit can go: traced, faulted, or ended.\<close>

lemma trace_stop_cases:
  fixes s :: "'k trace_boot"
  defines "t i \<equiv> bs_threads (tb_sys s) ! i"
  obtains (Fault) e r regs h k where "trace_stop os mem r1 s0 i s = s\<lparr>tb_sys := (tb_sys s)\<lparr>bs_fault := Some e\<rparr>\<rparr>"
      "e = Out_Of_Bounds" "run_exit_reason (th_run (t i)) = KVM_EXIT_DEBUG" "tb_rc s i < 10"
      "GetRegs os (vcpu_fd (th_vcpu (t i))) (tb_regs s i)
         (snd (SetGuestDebug os (vcpu_fd (th_vcpu (t i))) True True
            \<lparr>kern = bs_kern (tb_sys s), errno = th_errno (t i)\<rparr>)) = ((r, regs), h)"
      "guest_bytes mem k (rip regs) 16 = None"
  | (Traced) regs con h where
      "trace_stop os mem r1 s0 i s =
         s\<lparr>tb_sys := put_guest i T_Running (th_run (t i), (bs_devs (tb_sys s), h)) ((tb_sys s)\<lparr>bs_out := con\<rparr>),
           tb_rc := (tb_rc s)(i := tb_rc s i + 1), tb_regs := (tb_regs s)(i := regs)\<rparr>"
      "run_exit_reason (th_run (t i)) = KVM_EXIT_DEBUG" "tb_rc s i < 10"
  | (Ended) r con h where
      "trace_stop os mem r1 s0 i s =
         s\<lparr>tb_sys := put_guest i (T_Done r) (th_run (t i), (bs_devs (tb_sys s), h)) ((tb_sys s)\<lparr>bs_out := con\<rparr>)\<rparr>"
      "run_exit_reason (th_run (t i)) = KVM_EXIT_DEBUG \<Longrightarrow> 10 \<le> tb_rc s i" "errno_positive os \<Longrightarrow> r = 1 \<or> r < 0"
proof -
  let ?g = "(th_run (t i), (bs_devs (tb_sys s), \<lparr>kern = bs_kern (tb_sys s), errno = th_errno (t i)\<rparr>))"
  obtain out err where con: "bs_out (tb_sys s) = (out, err)" by (cases "bs_out (tb_sys s)")
  let ?err = "out_all (stop_message (vcpu_id (th_vcpu (t i))) (th_run (t i))) err"
  show ?thesis
  proof (cases "run_exit_reason (th_run (t i)) = KVM_EXIT_DEBUG \<and> tb_rc s i < 10")
    case True
    show ?thesis
    proof (cases "trace_step os (th_vcpu (t i)) mem r1 (tb_regs s i) (out, ?err) ?g")
      case (Inl e)
      from trace_step_fault [OF this] show ?thesis
        using Fault True Inl con by (auto simp: trace_stop_def thread_guest_def t_def)
    next
      case (Inr x)
      obtain regs con' g' where x: "x = (regs, con', g')" by (metis prod_cases3)
      from trace_step_guest [OF Inr [unfolded x]] obtain h where "g' = (th_run (t i), (bs_devs (tb_sys s), h))" by blast
      then show ?thesis
        using Traced [of regs h con'] True Inr x con by (simp add: trace_stop_def Let_def thread_guest_def t_def)
    qed
  next
    case False
    let ?d = "dump_and_stop os (th_vcpu (t i)) r1 s0 (out, out_all (trace_details (th_run (t i))) ?err) ?g"
    obtain r con' g' where d: "?d = (r, con', g')" by (metis prod_cases3)
    have "\<exists>h. g' = (th_run (t i), (bs_devs (tb_sys s), h))"
      using d by (auto simp: dump_and_stop_def split: prod.splits if_splits)
    then obtain h where "g' = (th_run (t i), (bs_devs (tb_sys s), h))" by blast
    then show ?thesis
      using Ended [of r h con'] False d dump_and_stop_result [OF _ d] con
      by (auto simp: trace_stop_def Let_def thread_guest_def t_def)
  qed
qed

section \<open>The invariant\<close>

text \<open>
  That of the ordinary boot; no thread before every vCPU is switched to single-stepping; and each
  thread has traced at most ten exits, exactly ten if it has ended with another debug exit.
\<close>

definition trace_count_ok :: "(nat \<Rightarrow> nat) \<Rightarrow> vcpu_thread list \<Rightarrow> bool" where
  "trace_count_ok rc ts \<longleftrightarrow> (\<forall>i. rc i \<le> rc_max) \<and> (\<forall>i < length ts.
     thread_done (ts ! i) \<and> run_exit_reason (th_run (ts ! i)) = KVM_EXIT_DEBUG \<longrightarrow> rc i = rc_max)"

definition trace_inv :: "machine \<Rightarrow> 'k trace_boot \<Rightarrow> bool" where
  "trace_inv m s \<longleftrightarrow> boot_inv m (tb_sys s) \<and> (\<not> all_enabled m s \<longrightarrow> bs_threads (tb_sys s) = [])
     \<and> trace_count_ok (tb_rc s) (bs_threads (tb_sys s))"

lemma trace_inv_start: "machine_ready m \<Longrightarrow> trace_inv m (trace_boot_start m reader out k regs)"
  using boot_inv_start [of m reader out k]
  by (simp add: trace_inv_def trace_boot_start_def trace_count_ok_def boot_start_def)

lemma trace_inv_enable:
  assumes "trace_inv m s" "\<not> all_enabled m s"
  shows "trace_inv m (boot_enable os m s)"
  using assms
  by (auto simp: trace_inv_def trace_count_ok_def boot_enable_def boot_inv_def all_enabled_def all_spawned_def
      Let_def split: prod.splits)

lemma trace_count_put_guest:
  assumes "trace_count_ok rc (bs_threads s)" "i < length (bs_threads s)" "n \<le> rc_max"
    and "\<And>r. ph = T_Done r \<Longrightarrow> run_exit_reason run = KVM_EXIT_DEBUG \<Longrightarrow> n = rc_max"
  shows "trace_count_ok (rc(i := n)) (bs_threads (put_guest i ph (run, b) (s\<lparr>bs_out := con\<rparr>)))"
  using assms
  by (cases ph) (auto simp: trace_count_ok_def put_guest_def thread_done_def nth_list_update split: prod.splits)

lemma trace_inv_stop:
  assumes "errno_positive os" "trace_inv m s" "running (tb_sys s)" "i < length (bs_threads (tb_sys s))"
    and "th_phase (bs_threads (tb_sys s) ! i) = T_Stopping"
  shows "trace_inv m (trace_stop os mem r1 s0 i s)"
proof -
  have inv: "boot_inv m (tb_sys s)" and count: "trace_count_ok (tb_rc s) (bs_threads (tb_sys s))" and enabled: "all_enabled m s"
    using assms(2,4) by (auto simp: trace_inv_def)
  have live: "\<not> thread_done (bs_threads (tb_sys s) ! i)" using assms(5) by (simp add: thread_done_def)
  have bus: "bus_inv (snd (run, (bs_devs (tb_sys s), h)))" for run and h :: "'a host"
    using inv by (simp add: boot_inv_def)
  note put = boot_inv_put_guest [OF inv assms(3,4) live bus]
  show ?thesis
  proof (cases rule: trace_stop_cases [of os mem r1 s0 i s])
    case (Fault e r regs h k)
    then show ?thesis using inv count enabled thread_turn_fault [OF inv, of e]
      by (simp add: trace_inv_def trace_count_ok_def all_enabled_def)
  next
    case (Traced regs con h)
    then show ?thesis
      using put [of T_Running] trace_count_put_guest [OF count assms(4), of "tb_rc s i + 1" T_Running] enabled
      by (simp add: trace_inv_def all_enabled_def)
  next
    case (Ended r con h)
    have "tb_rc s i \<le> 10" using count by (simp add: trace_count_ok_def)
    with Ended(2) have "trace_count_ok ((tb_rc s)(i := tb_rc s i)) (bs_threads (put_guest i (T_Done r)
        (th_run (bs_threads (tb_sys s) ! i), (bs_devs (tb_sys s), h)) ((tb_sys s)\<lparr>bs_out := con\<rparr>)))"
      by (intro trace_count_put_guest [OF count assms(4)]) auto
    then show ?thesis
      using put [of "T_Done r"] Ended(1,3) assms(1) enabled by (simp add: trace_inv_def all_enabled_def)
  qed
qed

lemma trace_inv_step:
  assumes "machine_ready m" "errno_positive os" "trace_inv m s" "trace_boot_step os m mem r1 s0 run0 s s'"
  shows "trace_inv m s'"
  using assms(4)
proof (cases rule: trace_boot_step_cases)
  case Enable
  then show ?thesis using trace_inv_enable assms(3) by blast
next
  case (Stop i)
  then show ?thesis using trace_inv_stop [OF assms(2,3)] by blast
next
  case (Boot x)
  have "boot_inv m (tb_sys s)" using assms(3) by (simp add: trace_inv_def)
  from boot_inv_step [OF assms(1,2) this Boot(1)] have "boot_inv m x" .
  moreover have "trace_count_ok (tb_rc s') (bs_threads (tb_sys s'))"
    using assms(3) Boot(2,4) by (auto simp: trace_inv_def trace_count_ok_def ends_no_thread_def)
  ultimately show ?thesis using assms(3) Boot(2,3) by (auto simp: trace_inv_def all_enabled_def)
qed

interpretation trace: step_invariant "trace_boot_step os m mem r1 s0 run0"
    "\<lambda>s. machine_ready m \<and> errno_positive os \<and> trace_inv m s"
  for os :: "'k os" and m :: machine and mem r1 s0 run0
  by unfold_locales (auto intro: trace_inv_step)

lemma trace_inv_reachable:
  assumes "machine_ready m" "errno_positive os"
    and "trace_boots os m mem r1 s0 run0 (trace_boot_start m reader out k regs) s"
  shows "trace_inv m s"
  using trace.path_inv [OF assms(3)] assms(1,2) by (simp add: trace_inv_start)

lemma trace_inv_steps:
  assumes "trace_inv m s" "running (tb_sys s)"
  shows "\<exists>s'. trace_boot_step os m mem r1 s0 run0 s s'"
proof (cases "all_enabled m s")
  case False
  then show ?thesis using assms(2) trace_boot_step.enable by blast
next
  case enabled: True
  have inv: "boot_inv m (tb_sys s)" using assms(1) by (simp add: trace_inv_def)
  show ?thesis
  proof (cases "all_spawned m (tb_sys s)")
    case False
    then show ?thesis using assms(2) enabled trace_boot_step.spawn by blast
  next
    case spawned: True
    show ?thesis
    proof (cases "bs_joined (tb_sys s) < length (bs_threads (tb_sys s))")
      case False
      then have "bs_joined (tb_sys s) = length (bs_threads (tb_sys s))" using inv by (simp add: boot_inv_def)
      then show ?thesis using trace_boot_step.return [OF assms(2) enabled spawned] by blast
    next
      case less: True
      then show ?thesis
        using trace_boot_step.join [OF assms(2) enabled spawned less] trace_boot_step.thread [OF assms(2) less] by blast
    qed
  qed
qed

section \<open>The measure\<close>

text \<open>To that of the ordinary boot come the vCPUs still to be switched to single-stepping and the exits
  still to be traced: a trace puts its thread one phase back.\<close>

definition trace_rank :: "machine \<Rightarrow> 'k trace_boot \<Rightarrow> nat" where
  "trace_rank m s =
     (let n = nat (conf_vcpu_num (m_conf m))
      in (n - tb_enabled s) + boot_rank m (tb_sys s) + (\<Sum>i<n. 2 * (rc_max - tb_rc s i)))"

inductive trace_outside ::
  "'k os \<Rightarrow> machine \<Rightarrow> vcpu_regs \<Rightarrow> vcpu_sregs \<Rightarrow> 'k trace_boot \<Rightarrow> 'k trace_boot \<Rightarrow> bool"
  for os m r1 s0 where
  "outside_step os m r1 s0 (tb_sys s) x \<Longrightarrow> trace_outside os m r1 s0 s (s\<lparr>tb_sys := x\<rparr>)"

lemma trace_outside_for_ever:
  assumes "runs_for_ever (trace_outside os m r1 s0) s"
  shows "runs_for_ever (outside_step os m r1 s0) (tb_sys s)"
  by (rule runs_for_ever_image [OF assms]) (auto elim: trace_outside.cases)

lemma sum_count_down:
  fixes rc :: "nat \<Rightarrow> nat"
  assumes "i < n" "rc i < 10"
  shows "(\<Sum>j<n. 2 * (10 - (rc(i := rc i + 1)) j)) + 2 = (\<Sum>j<n. 2 * (10 - rc j))"
proof -
  have i: "i \<in> {..<n}" using assms(1) by simp
  have "(\<Sum>j\<in>{..<n} - {i}. 2 * (10 - (rc(i := rc i + 1)) j)) = (\<Sum>j\<in>{..<n} - {i}. 2 * (10 - rc j))"
    by (rule sum.cong) auto
  then show ?thesis using assms(2) by (simp add: sum.remove [OF _ i])
qed

lemma boot_rank_fault: "running s \<Longrightarrow> boot_rank m (s\<lparr>bs_fault := Some e\<rparr>) < boot_rank m s"
  by (rule boot_rank_stop) (simp_all add: running_def)

lemma trace_rank_enable:
  assumes "running (tb_sys s)" "\<not> all_enabled m s"
  shows "trace_rank m (boot_enable os m s) < trace_rank m s"
proof -
  have "tb_enabled s < nat (conf_vcpu_num (m_conf m))" using assms(2) by (simp add: all_enabled_def)
  moreover have "boot_rank m ((tb_sys s)\<lparr>bs_out := out, bs_kern := k\<rparr>) = boot_rank m (tb_sys s)" for out k
    by (simp add: boot_rank_def running_def)
  ultimately show ?thesis
    using boot_rank_fault [OF assms(1), of m Out_Of_Bounds]
    by (simp add: boot_enable_def trace_rank_def Let_def split: prod.splits) (intro conjI impI; linarith)
qed

lemma trace_rank_stop:
  assumes "trace_inv m s" "running (tb_sys s)" "i < length (bs_threads (tb_sys s))"
    and "th_phase (bs_threads (tb_sys s) ! i) = T_Stopping"
  shows "trace_rank m (trace_stop os mem r1 s0 i s) < trace_rank m s"
proof -
  have i: "i < nat (conf_vcpu_num (m_conf m))"
    using assms(1,3) unfolding trace_inv_def boot_inv_def by linarith
  show ?thesis
  proof (cases rule: trace_stop_cases [of os mem r1 s0 i s])
    case (Fault e r regs h k)
    then show ?thesis using boot_rank_fault [OF assms(2), of m e] by (simp add: trace_rank_def Let_def)
  next
    case (Traced regs con h)
    let ?x = "put_guest i T_Running (th_run (bs_threads (tb_sys s) ! i), (bs_devs (tb_sys s), h)) ((tb_sys s)\<lparr>bs_out := con\<rparr>)"
    have "boot_rank m ?x = boot_rank m (tb_sys s) + 1"
      using threads_rank_put_guest [of i "(tb_sys s)\<lparr>bs_out := con\<rparr>" T_Running
          "(th_run (bs_threads (tb_sys s) ! i), (bs_devs (tb_sys s), h))"] assms(3,4)
      by (simp add: boot_rank_def Let_def)
    then show ?thesis using Traced sum_count_down [OF i, of "tb_rc s"] by (simp add: trace_rank_def Let_def)
  next
    case (Ended r con h)
    then show ?thesis using boot_rank_put_guest [OF assms(3), of "T_Done r" m _ con] assms(4)
      by (simp add: trace_rank_def Let_def)
  qed
qed

lemma trace_step_rank:
  assumes "trace_inv m s" "trace_boot_step os m mem r1 s0 run0 s s'"
  shows "trace_outside os m r1 s0 s s' \<or> trace_rank m s' < trace_rank m s"
  using assms(2)
proof (cases rule: trace_boot_step_cases)
  case Enable
  then show ?thesis using trace_rank_enable by blast
next
  case (Stop i)
  then show ?thesis using trace_rank_stop [OF assms(1)] by blast
next
  case (Boot x)
  have "boot_inv m (tb_sys s)" using assms(1) by (simp add: trace_inv_def)
  from boot_step_rank [OF this Boot(1)] show ?thesis
    using Boot(2) trace_outside.intros [of os m r1 s0 s x] by (auto simp: trace_rank_def Let_def)
qed

lemma trace_outside_rank: "trace_outside os m r1 s0 s s' \<Longrightarrow> trace_rank m s' \<le> trace_rank m s"
  by (induction rule: trace_outside.induct) (auto simp: trace_rank_def Let_def dest: outside_step_rank)

interpretation trace_ranks: ranked_steps "trace_boot_step os m mem r1 s0 run0"
    "\<lambda>s. machine_ready m \<and> errno_positive os \<and> trace_inv m s" "trace_outside os m r1 s0" "trace_rank m"
  for os :: "'k os" and m :: machine and mem r1 s0 run0
  by unfold_locales (blast dest: trace_step_rank, rule trace_outside_rank)

section \<open>The devices\<close>

context device_relation
begin

lemma trace_boot_step_rel:
  assumes "trace_boot_step os m mem r1 s0 run0 s s'"
  shows "devs_rel (bs_devs (tb_sys s)) (bs_devs (tb_sys s'))"
  using assms
proof (cases rule: trace_boot_step_cases)
  case Enable
  then show ?thesis by (auto simp: boot_enable_def Let_def devs_refl split: prod.splits)
next
  case (Stop i)
  then show ?thesis
    by (cases rule: trace_stop_cases [of os mem r1 s0 i s]) (simp_all add: put_guest_def devs_refl)
next
  case (Boot x)
  then show ?thesis using step_rel by simp
qed

lemma trace_boots_rel:
  "trace_boots os m mem r1 s0 run0 s s' \<Longrightarrow> devs_rel (bs_devs (tb_sys s)) (bs_devs (tb_sys s'))"
  by (induction rule: rtranclp_induct) (auto intro: devs_refl devs_trans dest: trace_boot_step_rel)

end

text \<open>The objects of the trace build keep their classes, too.\<close>

lemma trace_boot_devices:
  assumes "map iodev_of (m_devs m) = machine_devices"
    and "trace_boots os m mem r1 s0 run0 (trace_boot_start m reader out k regs) s"
  shows "map iodev_of (bs_devs (tb_sys s)) = machine_devices"
  using dev_class.trace_boots_rel [OF assms(2)] assms(1)
  by (simp add: dev_class_map trace_boot_start_def boot_start_def)

section \<open>Without debug exits\<close>

lemma trace_stop_ordinary:
  assumes "run_exit_reason (th_run (bs_threads (tb_sys s) ! i)) \<noteq> KVM_EXIT_DEBUG"
    and "th_phase (bs_threads (tb_sys s) ! i) = T_Stopping"
  shows "trace_stop os mem r1 s0 i s = s\<lparr>tb_sys := thread_turn os r1 s0 i (tb_sys s)\<rparr>"
proof -
  have report: "out_all (trace_details run) (out_all (stop_message j run) err) = report_exit j run err"
    if "run_exit_reason run \<noteq> KVM_EXIT_DEBUG" for run j err
    using that by (simp add: trace_details_def report_exit_def out_all_append)
  show ?thesis
    using assms
    by (simp add: trace_stop_def thread_turn_def stop_running_def Let_def report thread_guest_def split: prod.splits)
qed

text \<open>No thread that stops from here on, in the ordinary build, does so at a debug exit.\<close>

definition no_debug_ahead ::
  "'k os \<Rightarrow> machine \<Rightarrow> vcpu_regs \<Rightarrow> vcpu_sregs \<Rightarrow> (nat \<Rightarrow> kvm_run) \<Rightarrow> 'k boot_state \<Rightarrow> bool" where
  "no_debug_ahead os m r0 s0 run0 x \<longleftrightarrow> (\<forall>x'. boots os m r0 s0 run0 x x' \<longrightarrow>
     (\<forall>t \<in> set (bs_threads x'). th_phase t = T_Stopping \<longrightarrow> run_exit_reason (th_run t) \<noteq> KVM_EXIT_DEBUG))"

definition as_ordinary ::
  "'k os \<Rightarrow> machine \<Rightarrow> vcpu_regs \<Rightarrow> vcpu_sregs \<Rightarrow> (nat \<Rightarrow> kvm_run) \<Rightarrow> 'k trace_boot \<Rightarrow> 'k trace_boot \<Rightarrow>
     'k boot_state \<Rightarrow> bool" where
  "as_ordinary os m r0 s0 run0 s1 s x \<longleftrightarrow>
     s = s1\<lparr>tb_sys := x\<rparr> \<and> all_enabled m s1 \<and> no_debug_ahead os m r0 s0 run0 x"

lemma as_ordinary_step:
  assumes "as_ordinary os m r0 s0 run0 s1 s x" "boot_step os m r0 s0 run0 x x'"
  shows "as_ordinary os m r0 s0 run0 s1 (s\<lparr>tb_sys := x'\<rparr>) x'"
  using assms unfolding as_ordinary_def no_debug_ahead_def
  by (auto intro: converse_rtranclp_into_rtranclp)

lemma as_ordinary_stopping:
  assumes "as_ordinary os m r0 s0 run0 s1 s x" "i < length (bs_threads x)"
    and "th_phase (bs_threads x ! i) = T_Stopping"
  shows "trace_stop os mem r0 s0 i s = s\<lparr>tb_sys := thread_turn os r0 s0 i x\<rparr>"
  using assms trace_stop_ordinary [of s i] by (auto simp: as_ordinary_def no_debug_ahead_def)

text \<open>The two builds simulate each other.\<close>

lemma trace_simulates:
  assumes "as_ordinary os m r0 s0 run0 s1 s x" "trace_boot_step os m mem r0 s0 run0 s s'"
  shows "\<exists>x'. boot_step os m r0 s0 run0 x x' \<and> as_ordinary os m r0 s0 run0 s1 s' x'"
  using assms(2)
proof (cases rule: trace_boot_step_cases)
  case Enable
  then show ?thesis using assms(1) by (simp add: as_ordinary_def all_enabled_def)
next
  case (Stop i)
  have x: "tb_sys s = x" using assms(1) by (simp add: as_ordinary_def)
  have "boot_step os m r0 s0 run0 x (thread_turn os r0 s0 i x)"
    using Stop(1-3) by (intro boot_step.thread) (simp_all add: x thread_done_def)
  then show ?thesis
    using as_ordinary_stopping [OF assms(1)] as_ordinary_step [OF assms(1)] Stop(2-4) by (auto simp: x)
next
  case (Boot x')
  then show ?thesis using assms(1) as_ordinary_step [OF assms(1)] by (auto simp: as_ordinary_def)
qed

lemma boot_simulates:
  assumes "as_ordinary os m r0 s0 run0 s1 s x" "boot_step os m r0 s0 run0 x x'"
  shows "trace_boot_step os m mem r0 s0 run0 s (s\<lparr>tb_sys := x'\<rparr>)"
proof -
  have s: "tb_sys s = x" "all_enabled m s" using assms(1) by (auto simp: as_ordinary_def all_enabled_def)
  show ?thesis
    using assms(2)
  proof (cases rule: boot_step.cases)
    case (thread i)
    have "trace_thread_turn os mem r0 s0 i s = s\<lparr>tb_sys := x'\<rparr>"
      using thread as_ordinary_stopping [OF assms(1), of i] by (simp add: trace_thread_turn_def s)
    then show ?thesis using trace_boot_step.thread [of s i] thread by (metis s(1))
  next
    case spawn
    then show ?thesis using trace_boot_step.spawn [of s] s by metis
  next
    case (reader c)
    then show ?thesis using trace_boot_step.reader [of s c] s by metis
  next
    case join
    then show ?thesis using trace_boot_step.join [of s] s by metis
  next
    case return
    then show ?thesis using trace_boot_step.return [of s] s by metis
  qed
qed

interpretation trace_boot_sim: simulation "trace_boot_step os m mem r0 s0 run0" "boot_step os m r0 s0 run0"
    "as_ordinary os m r0 s0 run0 s1"
  for os :: "'k os" and m :: machine and mem r0 s0 run0 s1
  by unfold_locales (meson trace_simulates r_into_rtranclp)

interpretation boot_trace_sim: simulation "boot_step os m r0 s0 run0" "trace_boot_step os m mem r0 s0 run0"
    "\<lambda>x s. as_ordinary os m r0 s0 run0 s1 s x"
  for os :: "'k os" and m :: machine and mem r0 s0 run0 s1
  by unfold_locales (meson boot_simulates as_ordinary_step r_into_rtranclp)

section \<open>Faults\<close>

text \<open>The next \<^verbatim>\<open>KVM_RUN\<close> of thread \<open>i\<close> ends with an access to the port that has no row in the table.\<close>

definition missing_port_exit :: "'k os \<Rightarrow> 'k boot_state \<Rightarrow> nat \<Rightarrow> bool" where
  "missing_port_exit os s i \<longleftrightarrow>
     (let t = bs_threads s ! i in
      \<exists>r run h. Run os (th_vcpu t) (th_run t, \<lparr>kern = bs_kern s, errno = th_errno t\<rparr>) = (r, run, h)
        \<and> run_exit_reason run = KVM_EXIT_IO \<and> run_port run = 0xFFFF)"

text \<open>Thread \<open>i\<close> is at a debug exit it traces, and not all of the sixteen bytes at its instruction pointer
  are in the mapped memory.\<close>

definition unmapped_fetch :: "'k os \<Rightarrow> ('k \<Rightarrow> u64 \<Rightarrow> u8 option) \<Rightarrow> 'k trace_boot \<Rightarrow> nat \<Rightarrow> bool" where
  "unmapped_fetch os mem s i \<longleftrightarrow>
     (let t = bs_threads (tb_sys s) ! i; fd = vcpu_fd (th_vcpu t);
          h = \<lparr>kern = bs_kern (tb_sys s), errno = th_errno t\<rparr> in
      run_exit_reason (th_run t) = KVM_EXIT_DEBUG \<and> tb_rc s i < rc_max
      \<and> (\<exists>r regs h' k. GetRegs os fd (tb_regs s i) (snd (SetGuestDebug os fd True True h)) = ((r, regs), h')
           \<and> guest_bytes mem k (rip regs) 16 = None))"

lemma trace_fault_step:
  assumes "machine_ready m" "trace_inv m s" "trace_boot_step os m mem r1 s0 run0 s s'"
    and "bs_fault (tb_sys s') = Some e"
  shows "e = Out_Of_Bounds \<and> (\<exists>i < length (bs_threads (tb_sys s)).
    missing_port_exit os (tb_sys s) i \<or> unmapped_fetch os mem s i)"
  using assms(3)
proof (cases rule: trace_boot_step_cases)
  case Enable
  have "int (tb_enabled s) < int (length (m_vcpus m))"
    using Enable(2) assms(1) by (simp add: all_enabled_def machine_ready_def)
  then show ?thesis using Enable(1,3) assms(4)
    by (auto simp: boot_enable_def running_def Let_def split: prod.splits)
next
  case (Stop i)
  show ?thesis
  proof (cases rule: trace_stop_cases [of os mem r1 s0 i s])
    case (Fault e' r regs h k)
    then have "unmapped_fetch os mem s i" unfolding unmapped_fetch_def Let_def by auto
    then show ?thesis using Fault(1,2) Stop(2,4) assms(4) by auto
  qed (use Stop(1,4) assms(4) in \<open>simp_all add: put_guest_def running_def\<close>)
next
  case (Boot x)
  have inv: "boot_inv m (tb_sys s)" using assms(2) by (simp add: trace_inv_def)
  have "bs_fault x = Some e" using Boot(2) assms(4) by simp
  then obtain i where i: "i < length (bs_threads (tb_sys s))"
    "RunOnce os (th_vcpu (bs_threads (tb_sys s) ! i)) (thread_guest (tb_sys s) (bs_threads (tb_sys s) ! i)) = Inl e"
    using boot_fault_step [OF assms(1) inv Boot(1)] by blast
  then have "vcpu_pio (th_vcpu (bs_threads (tb_sys s) ! i)) = machine_pio" "devices_inv (bs_devs (tb_sys s))"
    using inv by (simp_all add: boot_inv_def thread_inv_def)
  from RunOnce_fault [OF this i(2) [unfolded thread_guest_def]] i(1) show ?thesis
    unfolding missing_port_exit_def Let_def by blast
qed

text \<open>Where it comes to an end, and the number of exits traced by then.\<close>

lemma trace_boot_end:
  assumes "machine_ready m" "trace_inv m s" "\<nexists>s'. trace_boot_step os m mem r1 s0 run0 s s'"
  shows "bs_fault (tb_sys s) \<noteq> None \<or> bs_result (tb_sys s) = Some 0 \<and> (\<forall>i < length (m_vcpus m). tb_rc s i \<le> 10 \<and>
    (run_exit_reason (th_run (bs_threads (tb_sys s) ! i)) = KVM_EXIT_DEBUG \<longrightarrow> tb_rc s i = 10))"
proof (cases "bs_fault (tb_sys s)")
  case None
  have inv: "boot_inv m (tb_sys s)" and count: "trace_count_ok (tb_rc s) (bs_threads (tb_sys s))"
    using assms(2) by (simp_all add: trace_inv_def)
  have "\<not> running (tb_sys s)" using trace_inv_steps [OF assms(2)] assms(3) by blast
  then obtain r where r: "bs_result (tb_sys s) = Some r" using None by (auto simp: running_def)
  from boot_results [OF assms(1) inv r]
  have len: "r = 0" "length (bs_threads (tb_sys s)) = length (m_vcpus m)" by simp_all
  have "thread_done (bs_threads (tb_sys s) ! i)" if "i < length (m_vcpus m)" for i
    using inv r that len(2) by (simp add: boot_inv_def)
  then show ?thesis using r len count by (simp add: trace_count_ok_def)
qed simp

section \<open>Kernels that single-step and that do not\<close>

text \<open>On \<open>stepped_os\<close> every \<^verbatim>\<open>KVM_RUN\<close> ends in a debug exit; the first one of a machine with one vCPU.\<close>

lemma stepped_thread_start:
  assumes "bs_threads (tb_sys s) = [t]" "th_phase t = T_Start" "s' = trace_thread_turn os mem r1 s0 0 s"
  shows "\<exists>t'. bs_threads (tb_sys s') = [t'] \<and> th_phase t' = T_Running
    \<and> running (tb_sys s') = running (tb_sys s) \<and> tb_rc s' = tb_rc s"
  using assms by (simp add: trace_thread_turn_def thread_turn_def put_guest_def thread_guest_def running_def)

lemma stepped_thread_run:
  assumes "bs_threads (tb_sys s) = [t]" "th_phase t = T_Running" "s' = trace_thread_turn stepped_os mem r1 s0 0 s"
  shows "\<exists>t'. bs_threads (tb_sys s') = [t'] \<and> th_phase t' = T_Stopping
    \<and> run_exit_reason (th_run t') = KVM_EXIT_DEBUG \<and> running (tb_sys s') = running (tb_sys s) \<and> tb_rc s' = tb_rc s"
  using assms
  by (simp add: trace_thread_turn_def thread_turn_def put_guest_def thread_guest_def running_def
      RunOnce_def Run_def kvmIoctl_def stepped_os_def)

lemma stepped_path:
  fixes mem :: "sample_kernel \<Rightarrow> u64 \<Rightarrow> u8 option"
  defines "st \<equiv> trace_boot_start sample_machine False empty_console (sample_kernel [] []) (\<lambda>i. sample_regs)"
  obtains s t where "trace_boots stepped_os sample_machine mem sample_regs sample_sregs idle_run st s"
    "running (tb_sys s)" "tb_rc s 0 = 0" "bs_threads (tb_sys s) = [t]" "th_phase t = T_Stopping"
    "run_exit_reason (th_run t) = KVM_EXIT_DEBUG"
proof -
  let ?step = "trace_boot_step stepped_os sample_machine mem sample_regs sample_sregs idle_run"
  let ?turn = "trace_thread_turn stepped_os mem sample_regs sample_sregs 0"
  note conf = sample_machine_def tiny_vm_def tiny_config_def
  define s1 where "s1 = boot_enable stepped_os sample_machine st"
  have st: "running (tb_sys st)" "\<not> all_enabled sample_machine st"
    by (simp_all add: st_def trace_boot_start_def boot_start_def running_def all_enabled_def conf)
  have s1: "running (tb_sys s1)" "all_enabled sample_machine s1" "bs_threads (tb_sys s1) = []" "tb_rc s1 0 = 0"
    by (simp_all add: s1_def boot_enable_def st_def trace_boot_start_def boot_start_def running_def all_enabled_def conf
        split: prod.splits)
  define s2 where "s2 = s1\<lparr>tb_sys := boot_spawn sample_machine idle_run (tb_sys s1)\<rparr>"
  obtain t2 where s2: "running (tb_sys s2)" "tb_rc s2 0 = 0" "bs_threads (tb_sys s2) = [t2]" "th_phase t2 = T_Start"
    using s1 by (simp add: s2_def boot_spawn_def running_def conf)
  obtain t3 where s3: "running (tb_sys (?turn s2))" "tb_rc (?turn s2) 0 = 0" "bs_threads (tb_sys (?turn s2)) = [t3]"
    "th_phase t3 = T_Running"
    using stepped_thread_start [OF s2(3,4) refl, of stepped_os mem sample_regs sample_sregs] s2(1,2) by auto
  obtain t4 where s4: "running (tb_sys (?turn (?turn s2)))" "tb_rc (?turn (?turn s2)) 0 = 0"
    "bs_threads (tb_sys (?turn (?turn s2))) = [t4]" "th_phase t4 = T_Stopping" "run_exit_reason (th_run t4) = KVM_EXIT_DEBUG"
    using stepped_thread_run [OF s3(3,4) refl, of mem sample_regs sample_sregs] s3(1,2) by auto
  have "?step st s1" unfolding s1_def using st by (rule trace_boot_step.enable)
  moreover have "?step s1 s2"
    unfolding s2_def using s1 by (intro trace_boot_step.spawn) (simp_all add: all_spawned_def conf)
  moreover have "?step s2 (?turn s2)" using s2 by (intro trace_boot_step.thread) (simp_all add: thread_done_def)
  moreover have "?step (?turn s2) (?turn (?turn s2))" using s3 by (intro trace_boot_step.thread) (simp_all add: thread_done_def)
  ultimately have "(?step)\<^sup>*\<^sup>* st (?turn (?turn s2))"
    by (meson converse_rtranclp_into_rtranclp rtranclp.rtrancl_refl)
  then show ?thesis using that s4 by blast
qed

lemma trace_boots_without_reader:
  assumes "trace_boots os m mem r1 s0 run0 s s'" "\<not> bs_reader (tb_sys s)"
  shows "\<not> bs_reader (tb_sys s')"
  using assms
proof (induction rule: rtranclp_induct)
  case (step s1 s2)
  from step(2) show ?case
  proof (cases rule: trace_boot_step_cases)
    case Enable
    then show ?thesis using step(3,4) by (auto simp: boot_enable_def Let_def split: prod.splits)
  next
    case (Stop i)
    then show ?thesis using step(3,4)
      by (cases rule: trace_stop_cases [of os mem r1 s0 i s1]) (simp_all add: put_guest_def)
  next
    case (Boot x)
    then show ?thesis using step(3,4) boots_without_reader [of os m r1 s0 run0 "tb_sys s1" x] by auto
  qed
qed simp

text \<open>A kernel on which every \<^verbatim>\<open>KVM_RUN\<close> ends in a halt.\<close>

definition halting_os :: "sample_kernel os" where
  "halting_os = sample_os\<lparr>os_ioctl := (\<lambda>fd req k.
     case req of KVM_RUN run \<Rightarrow> ((0, 0, KVM_RUN (run\<lparr>run_exit_reason := KVM_EXIT_HLT\<rparr>)), k)
     | _ \<Rightarrow> sample_answer req k)\<rparr>"

definition stopped_at_halt :: "vcpu_thread list \<Rightarrow> bool" where
  "stopped_at_halt ts \<longleftrightarrow> (\<forall>t \<in> set ts. th_phase t = T_Stopping \<longrightarrow> run_exit_reason (th_run t) = KVM_EXIT_HLT)"

lemma stopped_at_halt_update:
  "stopped_at_halt ts \<Longrightarrow> (th_phase t = T_Stopping \<Longrightarrow> run_exit_reason (th_run t) = KVM_EXIT_HLT) \<Longrightarrow>
     stopped_at_halt (ts[i := t])"
  using set_update_subset_insert [of ts i t] by (fastforce simp: stopped_at_halt_def)

lemma halting_turn:
  assumes "stopped_at_halt (bs_threads s)"
  shows "stopped_at_halt (bs_threads (thread_turn halting_os r0 s0 i s))"
  using assms
  by (auto simp: thread_turn_def put_guest_def Let_def thread_guest_def RunOnce_def Run_def kvmIoctl_def halting_os_def
      split: thread_phase.splits prod.splits intro!: stopped_at_halt_update)

lemma halting_boots:
  assumes "boots halting_os m r0 s0 run0 s s'" "stopped_at_halt (bs_threads s)"
  shows "stopped_at_halt (bs_threads s')"
  using assms
proof (induction rule: rtranclp_induct)
  case (step s1 s2)
  from step(2) show ?case
  proof (cases rule: boot_step.cases)
    case spawn
    then show ?thesis using step(3,4) by (auto simp: boot_spawn_def Let_def stopped_at_halt_def)
  next
    case (thread i)
    then show ?thesis using step(3,4) halting_turn by simp
  qed (use step(3,4) in \<open>auto simp: reader_turn_def split: prod.splits\<close>)
qed simp

section \<open>Properties\<close>

text \<open>C25: The trace build is as safe as the ordinary one but for the instruction it prints: on a kernel
  whose failing calls set \<^verbatim>\<open>errno\<close> and from devices in good order (the CMOS index in its memory), whatever the
  threads do and however they interleave, the devices keep their invariants, and the process goes
  wrong only where, in a state reached before, a vCPU thread got an access to port 0xFFFF as its exit
  or traces a debug exit with an instruction pointer whose sixteen bytes are not all in the mapped
  memory: the code does not check it.\<close>

theorem trace_boot_safe:
  assumes "machine_ready m" "errno_positive os"
    and "trace_boots os m mem r1 s0 run0 (trace_boot_start m reader out k regs) s"
  shows "devices_inv (bs_devs (tb_sys s)) \<and> (\<forall>e. bs_fault (tb_sys s) = Some e \<longrightarrow> e = Out_Of_Bounds \<and>
    (\<exists>s1 i. trace_boots os m mem r1 s0 run0 (trace_boot_start m reader out k regs) s1
       \<and> i < length (bs_threads (tb_sys s1))
       \<and> (missing_port_exit os (tb_sys s1) i \<or> unmapped_fetch os mem s1 i)))"
proof (intro conjI allI impI)
  show "devices_inv (bs_devs (tb_sys s))"
    using trace_inv_reachable [OF assms] by (simp add: trace_inv_def boot_inv_def)
  fix e
  assume fault: "bs_fault (tb_sys s) = Some e"
  have start: "machine_ready m \<and> errno_positive os \<and> trace_inv m (trace_boot_start m reader out k regs)"
    using assms(1,2) by (simp add: trace_inv_start)
  have "e = Out_Of_Bounds \<and> (\<exists>s1 i. trace_boots os m mem r1 s0 run0 (trace_boot_start m reader out k regs) s1
       \<and> i < length (bs_threads (tb_sys s1))
       \<and> (missing_port_exit os (tb_sys s1) i \<or> unmapped_fetch os mem s1 i))" (is ?fault)
  proof (rule trace.path_last [OF assms(3) start])
    show ?fault if "s = trace_boot_start m reader out k regs"
      using fault that by (simp add: trace_boot_start_def boot_start_def)
    show ?fault if "trace_boots os m mem r1 s0 run0 (trace_boot_start m reader out k regs) s1"
      "machine_ready m \<and> errno_positive os \<and> trace_inv m s1" "trace_boot_step os m mem r1 s0 run0 s1 s" for s1
      using trace_fault_step [OF assms(1) _ that(3) fault] that(1,2) by blast
  qed
  then show "e = Out_Of_Bounds" and "\<exists>s1 i. trace_boots os m mem r1 s0 run0 (trace_boot_start m reader out k regs) s1
       \<and> i < length (bs_threads (tb_sys s1))
       \<and> (missing_port_exit os (tb_sys s1) i \<or> unmapped_fetch os mem s1 i)" by blast+
qed

text \<open>Nothing mapped: the trace of the first instruction goes wrong.\<close>

theorem trace_boot_safe_witness:
  "\<exists>s s1 i. trace_boots stepped_os sample_machine (\<lambda>_ _. None) sample_regs sample_sregs idle_run
      (trace_boot_start sample_machine False empty_console (sample_kernel [] []) (\<lambda>i. sample_regs)) s
    \<and> bs_fault (tb_sys s) = Some Out_Of_Bounds
    \<and> trace_boots stepped_os sample_machine (\<lambda>_ _. None) sample_regs sample_sregs idle_run
      (trace_boot_start sample_machine False empty_console (sample_kernel [] []) (\<lambda>i. sample_regs)) s1
    \<and> (missing_port_exit stepped_os (tb_sys s1) i \<or> unmapped_fetch stepped_os (\<lambda>_ _. None) s1 i)"
proof -
  let ?st = "trace_boot_start sample_machine False empty_console (sample_kernel [] []) (\<lambda>i. sample_regs)"
  let ?mem = "\<lambda>_ _. None"
  obtain s t where s: "trace_boots stepped_os sample_machine ?mem sample_regs sample_sregs idle_run ?st s"
    "running (tb_sys s)" "tb_rc s 0 = 0" "bs_threads (tb_sys s) = [t]" "th_phase t = T_Stopping"
    "run_exit_reason (th_run t) = KVM_EXIT_DEBUG" by (rule stepped_path)
  let ?s = "trace_thread_turn stepped_os ?mem sample_regs sample_sregs 0 s"
  have "trace_boot_step stepped_os sample_machine ?mem sample_regs sample_sregs idle_run s ?s"
    using s(2-5) by (intro trace_boot_step.thread) (simp_all add: thread_done_def)
  with s(1) have path: "trace_boots stepped_os sample_machine ?mem sample_regs sample_sregs idle_run ?st ?s" by simp
  have "guest_bytes ?mem k a 16 = None" for k :: sample_kernel and a by (simp add: guest_bytes_def upt_rec)
  then have "bs_fault (tb_sys ?s) = Some Out_Of_Bounds"
    using s(3-6) by (simp add: trace_thread_turn_def trace_stop_def trace_step_def thread_guest_def Let_def split: prod.splits)
  then show ?thesis
    using trace_boot_safe [OF sample_machine_ready stepped_errno_positive path] path by blast
qed

text \<open>C26: Every execution of the trace build's \<^verbatim>\<open>Boot\<close> is finite, for any number of vCPUs and any
  interleaving, unless a guest runs for ever between its exits or standard input never ends; from every
  state it gets to it can reach a fault, or the return of \<^verbatim>\<open>Boot\<close> with 0, and then each vCPU has traced at
  most ten exits, and exactly ten if it has been stopped by a further debug exit: a guest whose entries
  all end in debug exits is entered eleven times.\<close>

theorem trace_boot_terminates:
  assumes "machine_ready m" "errno_positive os"
    and "\<And>s. trace_boots os m mem r1 s0 run0 (trace_boot_start m reader out k regs) s \<Longrightarrow>
      \<not> runs_for_ever (outside_step os m r1 s0) (tb_sys s)"
  shows "\<not> runs_for_ever (trace_boot_step os m mem r1 s0 run0) (trace_boot_start m reader out k regs)
    \<and> (\<forall>s. trace_boots os m mem r1 s0 run0 (trace_boot_start m reader out k regs) s \<longrightarrow>
        (\<exists>s'. trace_boots os m mem r1 s0 run0 s s' \<and> (bs_fault (tb_sys s') \<noteq> None \<or> bs_result (tb_sys s') = Some 0
           \<and> (\<forall>i < length (m_vcpus m). tb_rc s' i \<le> 10 \<and>
                (run_exit_reason (th_run (bs_threads (tb_sys s') ! i)) = KVM_EXIT_DEBUG \<longrightarrow> tb_rc s' i = 10)))))"
proof (intro conjI allI impI)
  have start: "machine_ready m \<and> errno_positive os \<and> trace_inv m (trace_boot_start m reader out k regs)"
    using assms(1,2) by (simp add: trace_inv_start)
  have ends: "\<not> runs_for_ever (trace_outside os m r1 s0) s"
    if "trace_boots os m mem r1 s0 run0 (trace_boot_start m reader out k regs) s" for s
    using assms(3) [OF that] trace_outside_for_ever by blast
  show "\<not> runs_for_ever (trace_boot_step os m mem r1 s0 run0) (trace_boot_start m reader out k regs)"
    by (rule trace_ranks.execution_finite [OF start ends])
  fix s
  assume s: "trace_boots os m mem r1 s0 run0 (trace_boot_start m reader out k regs) s"
  obtain s' where s': "trace_boots os m mem r1 s0 run0 s s'" "trace_inv m s'"
    "\<nexists>s''. trace_boot_step os m mem r1 s0 run0 s' s''"
    using trace_ranks.execution_ends [OF start ends s] by blast
  show "\<exists>s'. trace_boots os m mem r1 s0 run0 s s' \<and> (bs_fault (tb_sys s') \<noteq> None \<or> bs_result (tb_sys s') = Some 0
     \<and> (\<forall>i < length (m_vcpus m). tb_rc s' i \<le> 10 \<and>
          (run_exit_reason (th_run (bs_threads (tb_sys s') ! i)) = KVM_EXIT_DEBUG \<longrightarrow> tb_rc s' i = 10)))"
    using s'(1) trace_boot_end [OF assms(1) s'(2,3)] by blast
qed

theorem trace_boot_terminates_witness:
  "\<exists>s'. trace_boots stepped_os sample_machine (\<lambda>_ _. Some 0x90) sample_regs sample_sregs idle_run
      (trace_boot_start sample_machine False empty_console (sample_kernel [] []) (\<lambda>i. sample_regs)) s'
    \<and> (bs_fault (tb_sys s') \<noteq> None \<or> bs_result (tb_sys s') = Some 0 \<and> tb_rc s' 0 \<le> 10)"
proof -
  have "\<not> runs_for_ever (outside_step stepped_os sample_machine sample_regs sample_sregs) (tb_sys s)"
    if "trace_boots stepped_os sample_machine (\<lambda>_ _. Some 0x90) sample_regs sample_sregs idle_run
      (trace_boot_start sample_machine False empty_console (sample_kernel [] []) (\<lambda>i. sample_regs)) s" for s
  proof -
    have "\<not> bs_reader (tb_sys s)"
      by (rule trace_boots_without_reader [OF that]) (simp add: trace_boot_start_def boot_start_def)
    then show ?thesis using stepped_no_outside unfolding runs_for_ever_def by metis
  qed
  from trace_boot_terminates [OF sample_machine_ready stepped_errno_positive this]
  have "\<exists>s'. trace_boots stepped_os sample_machine (\<lambda>_ _. Some 0x90) sample_regs sample_sregs idle_run
      (trace_boot_start sample_machine False empty_console (sample_kernel [] []) (\<lambda>i. sample_regs)) s'
    \<and> (bs_fault (tb_sys s') \<noteq> None \<or> bs_result (tb_sys s') = Some 0
       \<and> (\<forall>i < length (m_vcpus sample_machine). tb_rc s' i \<le> 10 \<and>
            (run_exit_reason (th_run (bs_threads (tb_sys s') ! i)) = KVM_EXIT_DEBUG \<longrightarrow> tb_rc s' i = 10)))" by blast
  moreover have "0 < length (m_vcpus sample_machine)" by (simp add: sample_machine_def)
  ultimately show ?thesis by blast
qed

text \<open>C27: The trace build differs from the ordinary one at debug exits only: once every vCPU has been
  switched to single-stepping, if no thread of the ordinary build would stop at a debug exit from
  there on, the states the one gets to are those of the other, output and interleaving included, with
  the count of traced exits unchanged.\<close>

theorem trace_boot_without_debug_exits:
  assumes "all_enabled m s1"
    and "\<And>x t. boots os m r1 s0 run0 (tb_sys s1) x \<Longrightarrow> t \<in> set (bs_threads x) \<Longrightarrow> th_phase t = T_Stopping \<Longrightarrow>
      run_exit_reason (th_run t) \<noteq> KVM_EXIT_DEBUG"
  shows "trace_boots os m mem r1 s0 run0 s1 s2 \<longleftrightarrow>
    (\<exists>x. boots os m r1 s0 run0 (tb_sys s1) x \<and> s2 = s1\<lparr>tb_sys := x\<rparr>)"
proof -
  have start: "as_ordinary os m r1 s0 run0 s1 s1 (tb_sys s1)"
    using assms by (auto simp: as_ordinary_def no_debug_ahead_def)
  show ?thesis
    using trace_boot_sim.sim_path [OF _ start, of mem s2] boot_trace_sim.sim_path [OF _ start, of _ mem]
    by (auto simp: as_ordinary_def)
qed

theorem trace_boot_without_debug_exits_witness:
  "trace_boots halting_os sample_machine (\<lambda>_ _. None) sample_regs sample_sregs idle_run
     \<lparr>tb_sys = boot_start sample_machine False empty_console (sample_kernel [] []), tb_enabled = 1,
      tb_rc = (\<lambda>i. 0), tb_regs = (\<lambda>i. sample_regs)\<rparr>
     \<lparr>tb_sys = single sample_machine 0 T_Start (boot_banner 0 empty_console)
        (single_guest sample_machine idle_run (sample_kernel [] [])), tb_enabled = 1,
      tb_rc = (\<lambda>i. 0), tb_regs = (\<lambda>i. sample_regs)\<rparr>"
proof -
  let ?x = "boot_start sample_machine False empty_console (sample_kernel [] [])"
  let ?s1 = "\<lparr>tb_sys = ?x, tb_enabled = 1, tb_rc = (\<lambda>i. 0), tb_regs = (\<lambda>i. sample_regs)\<rparr>"
  let ?x2 = "single sample_machine 0 T_Start (boot_banner 0 empty_console)
        (single_guest sample_machine idle_run (sample_kernel [] []))"
  have m: "length (m_vcpus sample_machine) = 1" "conf_vcpu_num (m_conf sample_machine) = 1"
    by (simp_all add: sample_machine_def tiny_vm_def tiny_config_def)
  have enabled: "all_enabled sample_machine ?s1" using m by (simp add: all_enabled_def)
  have quiet: "run_exit_reason (th_run t) \<noteq> KVM_EXIT_DEBUG"
    if "boots halting_os sample_machine sample_regs sample_sregs idle_run (tb_sys ?s1) x"
      "t \<in> set (bs_threads x)" "th_phase t = T_Stopping" for x t
  proof -
    have "stopped_at_halt (bs_threads x)"
      using halting_boots [OF that(1)] by (simp add: boot_start_def stopped_at_halt_def)
    then show ?thesis using that(2,3) by (simp add: stopped_at_halt_def)
  qed
  have "boot_step halting_os sample_machine sample_regs sample_sregs idle_run ?x ?x2"
    by (rule iffD2 [OF single_start_step [OF m] refl])
  then have "boots halting_os sample_machine sample_regs sample_sregs idle_run (tb_sys ?s1) ?x2"
    unfolding trace_boot.select_convs by (rule r_into_rtranclp)
  then have ex: "\<exists>x. boots halting_os sample_machine sample_regs sample_sregs idle_run (tb_sys ?s1) x
      \<and> ?s1\<lparr>tb_sys := ?x2\<rparr> = ?s1\<lparr>tb_sys := x\<rparr>" by blast
  have "trace_boots halting_os sample_machine (\<lambda>_ _. None) sample_regs sample_sregs idle_run ?s1 (?s1\<lparr>tb_sys := ?x2\<rparr>)"
    by (rule iffD2 [OF trace_boot_without_debug_exits [OF enabled]], erule (2) quiet, rule ex)
  then show ?thesis unfolding trace_boot.update_convs .
qed

end
