(* ===== verification/VmMain.thy ===== *)
theory VmMain
  imports VmBoot
begin

text \<open>
  The program (\<^verbatim>\<open>src/main.cpp\<close>): the configuration it boots, the sequence that opens KVM,
  creates the machine, sets it up and loads the guest, and its exit status after \<^verbatim>\<open>VM::Boot\<close>.
\<close>

section \<open>The program\<close>

definition main_conf :: vm_config where
  "main_conf = \<lparr>conf_vcpu_num = 1, conf_ram_size = push_bit 30 1, conf_kernel_path = ''bzImage'',
     conf_initramfs_path = ''initramfs'', conf_is_64bit_boot = False\<rparr>"

definition main_cmdline :: string where
  "main_cmdline = ''console=ttyS0 earlyprintk=serial noapic noacpi nowatchdog nmi_watchdog=0 debug apic=debug show_lapic=all mitigations=off lapic rdinit=/init init=/init''"

text \<open>
  What the program finds in the memory it has not initialised: the buffer of \<^verbatim>\<open>is_kernel_elf\<close>, the
  memory region, the register structures, the index of the CMOS, the pointer of the tables.
\<close>

record stale =
  st_magic :: "u8 list"
  st_region :: mem_region
  st_regs :: vcpu_regs
  st_sregs :: vcpu_sregs
  st_cmos :: u8
  st_mpfp :: u32

text \<open>\<^verbatim>\<open>vm->initRAM(...)\<close> works on the guest memory and the two files of the object.\<close>

definition vm_initRAM :: "u32 \<Rightarrow> u8 list \<Rightarrow> machine \<Rightarrow> fault + (int \<times> machine)" where
  "vm_initRAM p0 cmdline m =
     chain (initRAM (m_conf m) p0 cmdline (m_mem m)) (\<lambda>(r, mem). Inr (r, m\<lparr>m_mem := mem\<rparr>))"

text \<open>
  \<^verbatim>\<open>main\<close> up to the call of \<^verbatim>\<open>Boot\<close>: \<open>Inl\<close> is the value it returns, \<open>Inr\<close> the machine it boots;
  an exception no one catches is a fault, and so is the use of the uninitialised \<^verbatim>\<open>vm\<close>, were
  \<^verbatim>\<open>kvmCreateVM\<close> to return a non-negative value without an object.
\<close>

definition main_setup ::
  "'k os \<Rightarrow> (string \<Rightarrow> u8 list option) \<Rightarrow> stale \<Rightarrow> 'k host \<Rightarrow> fault + ((int + machine) \<times> 'k host)" where
  "main_setup os files st h =
     (let (r, h1) = getKVMFD os h in
      if r < 0 then Inr (Inl (- 1), h1)
      else
        chain (KVM os r h1) (\<lambda>(kvm, h2).
        chain (kvmCreateVM os kvm (conf_vcpu_num main_conf)
                 (\<lambda>fd h'. chain (VM files (st_magic st) (st_region st) fd kvm main_conf) (\<lambda>m. Inr (m, h'))) h2)
          (\<lambda>(r, vm, h3).
            if r < 0 then Inr (Inl (- 1), h3)
            else case vm of
              None \<Rightarrow> Inl Out_Of_Bounds
            | Some m \<Rightarrow>
                chain (initMachine os (st_regs st) (st_sregs st) (st_cmos st) (m, h3)) (\<lambda>(r, m1, h4).
                if r \<noteq> 0 then Inr (Inl (- 1), h4)
                else
                  chain (vm_initRAM (st_mpfp st) (ascii main_cmdline) m1) (\<lambda>(r, m2).
                    if r \<noteq> 0 then Inr (Inl (- 1), h4) else Inr (Inr m2, h4))))))"

section \<open>A host with KVM\<close>

text \<open>
  What the program needs of the host besides the documented requests: \<^verbatim>\<open>/dev/kvm\<close> can be opened,
  the processor has a known vendor, and the kernel reports how many vCPUs it allows.
\<close>

definition kvm_usable :: "'k os \<Rightarrow> ('k \<Rightarrow> kview) \<Rightarrow> bool" where
  "kvm_usable os view \<longleftrightarrow>
     (\<forall>k. \<exists>fd e k'. os_open_kvm os k = ((fd, e), k') \<and> 0 \<le> fd \<and> view k' = view k)
   \<and> (\<exists>b. cpuSupportsVM os = Inr b)
   \<and> (\<forall>fd k. 1 \<le> fst (fst (os_ioctl os fd (KVM_CHECK_EXTENSION KVM_CAP_MAX_VCPUS) k)))"

lemma extension_documented:
  assumes "kvm_documented os view leaves"
  shows "\<exists>r q h'. kvmIoctlCtor os fd (KVM_CHECK_EXTENSION c) h = Inr ((r, q), h')
    \<and> r = fst (fst (os_ioctl os fd (KVM_CHECK_EXTENSION c) (kern h))) \<and> hview view h' = hview view h"
proof -
  obtain r e q k' where 1: "os_ioctl os fd (KVM_CHECK_EXTENSION c) (kern h) = ((r, e, q), k')" "0 \<le> r"
    "view k' = hview view h"
    using assms unfolding kvm_documented_def by (metis kvm_reply.simps)
  then have "kvmIoctl os fd (KVM_CHECK_EXTENSION c) h = ((r, q), h\<lparr>kern := k', errno := 0\<rparr>)"
    by (simp add: kvmIoctl_ok)
  with 1 show ?thesis
    by (auto simp: kvmIoctlCtor_def)
qed

lemma check_extensions_documented:
  assumes "kvm_documented os view leaves"
  shows "\<exists>rs h'. check_extensions os fd cs h = Inr (rs, h') \<and> hview view h' = hview view h
    \<and> list_all2 (\<lambda>c r. \<exists>k. r = fst (fst (os_ioctl os fd (KVM_CHECK_EXTENSION c) k))) cs rs"
proof (induction cs arbitrary: h)
  case (Cons c cs)
  obtain r q h1 where 1: "kvmIoctlCtor os fd (KVM_CHECK_EXTENSION c) h = Inr ((r, q), h1)"
    "r = fst (fst (os_ioctl os fd (KVM_CHECK_EXTENSION c) (kern h)))" "hview view h1 = hview view h"
    using extension_documented [OF assms] by metis
  obtain rs h2 where 2: "check_extensions os fd cs h1 = Inr (rs, h2)" "hview view h2 = hview view h1"
    "list_all2 (\<lambda>c r. \<exists>k. r = fst (fst (os_ioctl os fd (KVM_CHECK_EXTENSION c) k))) cs rs"
    using Cons.IH [of h1] by blast
  show ?case using 1 2 by (intro exI [of _ "r # rs"] exI [of _ h2]) auto
qed simp

lemma KVM_documented:
  assumes "kvm_documented os view leaves" "kvm_usable os view"
  shows "\<exists>kvm h'. KVM os fd h = Inr (kvm, h') \<and> hview view h' = hview view h
    \<and> 1 \<le> hard_vcpus_limit (kvm_caps kvm)"
proof -
  obtain b where 0: "cpuSupportsVM os = Inr b" using assms(2) unfolding kvm_usable_def by blast
  obtain ver q1 h1 where 1: "kvmIoctlCtor os fd KVM_GET_API_VERSION h = Inr ((ver, q1), h1)"
    "hview view h1 = hview view h"
    using documented_ioctl [OF assms(1), of fd KVM_GET_API_VERSION h] by (metis kvm_reply.simps(9))
  obtain rs h2 where 2: "check_extensions os fd KVM_CAP_CHECK h1 = Inr (rs, h2)" "hview view h2 = hview view h1"
    "list_all2 (\<lambda>c r. \<exists>k. r = fst (fst (os_ioctl os fd (KVM_CHECK_EXTENSION c) k))) KVM_CAP_CHECK rs"
    using check_extensions_documented [OF assms(1), of fd KVM_CAP_CHECK h1] by blast
  have "\<exists>k. rs ! 4 = fst (fst (os_ioctl os fd (KVM_CHECK_EXTENSION KVM_CAP_MAX_VCPUS) k))"
    using list_all2_nthD [OF 2(3), of 4] by (simp add: KVM_CAP_CHECK_def)
  then have limit: "1 \<le> rs ! 4" using assms(2) unfolding kvm_usable_def by metis
  obtain sz q3 h3 where 3: "kvmIoctlCtor os fd KVM_GET_VCPU_MMAP_SIZE h2 = Inr ((sz, q3), h3)"
    "hview view h3 = hview view h2"
    using documented_ioctl [OF assms(1), of fd KVM_GET_VCPU_MMAP_SIZE h2] by (metis kvm_reply.simps(12))
  show ?thesis
    using limit 1(2) 2(2) 3(2)
    by (simp add: KVM_def kvmCapCheck_def 0 1(1) 2(1) 3(1) cap_defaults_positive cap_of_list_def
        del: chain_eq_Inr Inr_eq_chain)
qed

text \<open>The constructor of the machine on two files it accepts.\<close>

definition vm_start :: "mem_region \<Rightarrow> int \<Rightarrow> kvm_system \<Rightarrow> u8 list \<Rightarrow> u8 list \<Rightarrow> machine" where
  "vm_start region0 fd kvm initrd kf = \<lparr>m_fd = fd, m_kvm = kvm, m_conf = main_conf,
     m_mem = \<lparr>vm_ram = new_ram 0, vm_kernel = opened kf, vm_initramfs = opened initrd\<rparr>,
     m_ram_start = 0, m_devs = [], m_pio = (\<lambda>_ _. None), m_vcpus = [], m_region = region0\<rparr>"

lemma VM_ok:
  assumes "files ''bzImage'' = Some kf" "files ''initramfs'' = Some initrd"
    and "4 \<le> length kf" "take 4 kf \<noteq> ELF_MAGIC"
  shows "VM files buf0 region0 fd kvm main_conf = Inr (vm_start region0 fd kvm initrd kf)"
  using assms by (simp add: VM_def if_open_def main_conf_def vm_start_def opened_def is_kernel_elf_ok)

section \<open>From the files to the machine\<close>

text \<open>The kernel image and the RAM disk a machine of 1 GiB can boot.\<close>

definition boot_files :: "(string \<Rightarrow> u8 list option) \<Rightarrow> u8 list \<Rightarrow> u8 list \<Rightarrow> bool" where
  "boot_files files kf initrd \<longleftrightarrow>
     files ''bzImage'' = Some kf \<and> files ''initramfs'' = Some initrd
   \<and> take 4 kf \<noteq> ELF_MAGIC \<and> bootable kf \<and> kernel_offset kf \<le> length kf
   \<and> length kf \<le> 0xEF00000 + kernel_offset kf \<and> length initrd \<le> 0x31000000"

lemma main_initRAM:
  assumes "boot_files files kf initrd" "m_conf m = main_conf"
    and "m_mem m = \<lparr>vm_ram = new_ram 0x40000000, vm_kernel = opened kf, vm_initramfs = opened initrd\<rparr>"
  obtains tables bp m' where "vm_initRAM p0 (ascii main_cmdline) m = Inr (0, m')"
    "m' = m\<lparr>m_mem := m_mem m'\<rparr>" "gen_ebda 1 p0 = Inr tables" "guest_boot_params main_conf initrd kf bp"
    "\<forall>(a, bs) \<in> set (guest_image tables bp (ascii main_cmdline) initrd kf).
       ram_load a (length bs) (vm_ram (m_mem m')) = bs"
proof -
  obtain tables where t: "gen_ebda 1 p0 = Inr tables" by (rule gen_ebda_cases [of 1 p0]) auto
  have cmd: "length (ascii main_cmdline) < 0x7FC00" by (simp add: ascii_def main_cmdline_def)
  have "loadable main_conf p0 tables (ascii main_cmdline) initrd (m_mem m)"
    using t cmd assms by (simp add: loadable_def main_conf_def boot_files_def new_ram_def)
  then obtain bp mem where r: "guest_boot_params main_conf initrd kf bp"
    "initRAM main_conf p0 (ascii main_cmdline) (m_mem m) = Inr (0, mem)"
    "\<forall>(a, bs) \<in> set (guest_image tables bp (ascii main_cmdline) initrd kf).
       ram_load a (length bs) (vm_ram mem) = bs"
    using initRAM_loads [of main_conf p0 tables "ascii main_cmdline" initrd "m_mem m" kf] assms
    by (auto simp: boot_files_def main_conf_def)
  then have "vm_initRAM p0 (ascii main_cmdline) m = Inr (0, m\<lparr>m_mem := mem\<rparr>)"
    by (simp add: vm_initRAM_def assms(2))
  with r t show ?thesis by (intro that [of "m\<lparr>m_mem := mem\<rparr>" tables bp]) simp_all
qed

text \<open>Up to the call of \<^verbatim>\<open>initMachine\<close>, on a host with KVM.\<close>

lemma main_setup_front:
  assumes "kvm_documented os view leaves" "kvm_usable os view" "boot_files files kf initrd"
  obtains fd kvm h' where "hview view h' = hview view h" "main_setup os files st h =
    chain (initMachine os (st_regs st) (st_sregs st) (st_cmos st) (vm_start (st_region st) fd kvm initrd kf, h'))
      (\<lambda>(r, m1, h4).
        if r \<noteq> 0 then Inr (Inl (- 1), h4)
        else chain (vm_initRAM (st_mpfp st) (ascii main_cmdline) m1) (\<lambda>(r, m2).
          if r \<noteq> 0 then Inr (Inl (- 1), h4) else Inr (Inr m2, h4)))"
proof -
  obtain fd e k1 where 1: "os_open_kvm os (kern h) = ((fd, e), k1)" "0 \<le> fd" "view k1 = hview view h"
    using assms(2) unfolding kvm_usable_def by metis
  obtain kvm h2 where 2: "KVM os fd (h\<lparr>kern := k1\<rparr>) = Inr (kvm, h2)"
    "hview view h2 = hview view h" "1 \<le> hard_vcpus_limit (kvm_caps kvm)"
    using KVM_documented [OF assms(1,2), of fd "h\<lparr>kern := k1\<rparr>"] 1(3) by auto
  obtain vm_fd q h3 where 3: "kvmIoctl os (kvm_fd kvm) KVM_CREATE_VM h2 = ((vm_fd, q), h3)" "0 \<le> vm_fd"
    "hview view h3 = hview view h2"
    using documented_ioctl [OF assms(1), of "kvm_fd kvm" KVM_CREATE_VM h2] by (metis kvm_reply.simps(10))
  have vm: "VM files (st_magic st) (st_region st) vm_fd kvm main_conf
      = Inr (vm_start (st_region st) vm_fd kvm initrd kf)"
    using assms(3) by (intro VM_ok) (auto simp: boot_files_def bootable_def)
  have one: "conf_vcpu_num main_conf = 1" by (simp add: main_conf_def)
  show ?thesis
    using 1(2) 2(2,3) 3(2,3)
    by (intro that [of h3 vm_fd kvm])
      (simp_all add: main_setup_def getKVMFD_def 1(1) 2(1) kvmCreateVM_def 3(1) vm one
        del: chain_eq_Inr Inr_eq_chain)
qed

lemma main_initMachine:
  assumes "kvm_documented os view leaves" "length leaves \<le> 100"
  obtains m v h' where "initMachine os r0 s0 i (vm_start reg0 fd kvm initrd kf, h) = Inr (0, m, h')"
    "m_vcpus m = [v]" "m_devs m = new_devices i" "m_pio m = machine_pio" "m_conf m = main_conf"
    "m_mem m = \<lparr>vm_ram = new_ram 0x40000000, vm_kernel = opened kf, vm_initramfs = opened initrd\<rparr>"
    "v_regs (hview view h') (vo_fd v) = boot_regs (v_regs (hview view h) (vo_fd v))"
    "v_sregs (hview view h') (vo_fd v) = protected_mode_sregs (v_sregs (hview view h) (vo_fd v))"
    "v_cpuid (hview view h') (vo_fd v) = map sign_entry leaves"
    "v_region (hview view h') = Some (guest_region m)"
proof -
  let ?m0 = "vm_start reg0 fd kvm initrd kf"
  have m0: "0 \<le> conf_vcpu_num (m_conf ?m0)" "\<not> conf_is_64bit_boot (m_conf ?m0)"
    "m_devs ?m0 = []" "m_pio ?m0 = (\<lambda>_ _. None)" "nat (conf_vcpu_num (m_conf ?m0)) = 1"
    "unat (conf_ram_size (m_conf ?m0)) = 0x40000000"
    by (simp_all add: vm_start_def main_conf_def)
  obtain vs a m h' where r: "initMachine os r0 s0 i (?m0, h) = Inr (0, m, h')"
    and m: "m = ?m0\<lparr>m_mem := (m_mem ?m0)\<lparr>vm_ram := new_ram (unat (conf_ram_size (m_conf ?m0)))\<rparr>,
            m_ram_start := a, m_devs := new_devices i, m_pio := machine_pio, m_vcpus := vs,
            m_region := guest_region m\<rparr>"
    and v: "length vs = nat (conf_vcpu_num (m_conf ?m0))"
    "v_regs (hview view h') = on_fds (vo_fd ` set vs) boot_regs (v_regs (hview view h))"
    "v_sregs (hview view h') = on_fds (vo_fd ` set vs) protected_mode_sregs (v_sregs (hview view h))"
    "v_cpuid (hview view h') = on_fds (vo_fd ` set vs) (\<lambda>_. map sign_entry leaves) (v_cpuid (hview view h))"
    "v_region (hview view h') = Some (guest_region m)"
    using initMachine_documented [OF assms m0(1-4)] by metis
  obtain w where "vs = [w]" using v(1) m0(5) by (auto simp: length_Suc_conv)
  moreover note p = arg_cong [OF m]
  ultimately show ?thesis
    using p [of m_conf] p [of m_vcpus] p [of m_devs] p [of m_pio] p [of m_mem] m0(6) v(2-5)
    by (intro that [OF r, of w]) (simp_all add: vm_start_def on_fds_def)
qed

lemma main_setup_documented:
  assumes "kvm_documented os view leaves" "length leaves \<le> 100" "kvm_usable os view"
    and "boot_files files kf initrd"
  obtains m h' tables bp v where "main_setup os files st h = Inr (Inr m, h')"
    "m_vcpus m = [v]" "m_devs m = new_devices (st_cmos st)" "m_pio m = machine_pio" "m_conf m = main_conf"
    "v_regs (hview view h') (vo_fd v) = boot_regs (v_regs (hview view h) (vo_fd v))"
    "v_sregs (hview view h') (vo_fd v) = protected_mode_sregs (v_sregs (hview view h) (vo_fd v))"
    "v_cpuid (hview view h') (vo_fd v) = map sign_entry leaves"
    "v_region (hview view h') = Some (guest_region m)"
    "gen_ebda 1 (st_mpfp st) = Inr tables" "guest_boot_params main_conf initrd kf bp"
    "\<forall>(a, bs) \<in> set (guest_image tables bp (ascii main_cmdline) initrd kf).
       ram_load a (length bs) (vm_ram (m_mem m)) = bs"
proof -
  obtain fd kvm h3 where 1: "hview view h3 = hview view h" "main_setup os files st h =
    chain (initMachine os (st_regs st) (st_sregs st) (st_cmos st) (vm_start (st_region st) fd kvm initrd kf, h3))
      (\<lambda>(r, m1, h4).
        if r \<noteq> 0 then Inr (Inl (- 1), h4)
        else chain (vm_initRAM (st_mpfp st) (ascii main_cmdline) m1) (\<lambda>(r, m2).
          if r \<noteq> 0 then Inr (Inl (- 1), h4) else Inr (Inr m2, h4)))"
    by (rule main_setup_front [OF assms(1,3,4)])
  obtain m1 v h4 where 2: "initMachine os (st_regs st) (st_sregs st) (st_cmos st)
      (vm_start (st_region st) fd kvm initrd kf, h3) = Inr (0, m1, h4)"
    and m1: "m_vcpus m1 = [v]" "m_devs m1 = new_devices (st_cmos st)" "m_pio m1 = machine_pio"
    "m_conf m1 = main_conf"
    "m_mem m1 = \<lparr>vm_ram = new_ram 0x40000000, vm_kernel = opened kf, vm_initramfs = opened initrd\<rparr>"
    and v: "v_regs (hview view h4) (vo_fd v) = boot_regs (v_regs (hview view h3) (vo_fd v))"
    "v_sregs (hview view h4) (vo_fd v) = protected_mode_sregs (v_sregs (hview view h3) (vo_fd v))"
    "v_cpuid (hview view h4) (vo_fd v) = map sign_entry leaves"
    "v_region (hview view h4) = Some (guest_region m1)"
    by (rule main_initMachine [OF assms(1,2)])
  obtain tables bp m2 where 3: "vm_initRAM (st_mpfp st) (ascii main_cmdline) m1 = Inr (0, m2)"
    and m2: "m2 = m1\<lparr>m_mem := m_mem m2\<rparr>" and image: "gen_ebda 1 (st_mpfp st) = Inr tables"
    "guest_boot_params main_conf initrd kf bp"
    "\<forall>(a, bs) \<in> set (guest_image tables bp (ascii main_cmdline) initrd kf).
       ram_load a (length bs) (vm_ram (m_mem m2)) = bs"
    by (rule main_initRAM [OF assms(4) m1(4,5)])
  have "main_setup os files st h = Inr (Inr m2, h4)" by (simp add: 1(2) 2 3)
  moreover note q = arg_cong [OF m2]
  have "m_vcpus m2 = [v]" "m_devs m2 = new_devices (st_cmos st)" "m_pio m2 = machine_pio"
    "m_conf m2 = main_conf" "guest_region m2 = guest_region m1"
    using q [of m_vcpus] q [of m_devs] q [of m_pio] q [of m_conf] q [of guest_region] m1
    by (simp_all add: guest_region_def)
  ultimately show ?thesis
    using v 1(1) image by (intro that [of m2 h4 v tables bp]) simp_all
qed

text \<open>On any kernel: a machine that is booted is one whose ports are routed to its devices.\<close>

lemma main_setup_ready:
  assumes "errno_positive os" "main_setup os files st h = Inr (Inr m, h')" "st_cmos st < 0x80"
  shows "machine_ready m \<and> length (m_vcpus m) = 1"
proof -
  obtain kvm fd m0 m1 mem h3 h4 where
    "VM files (st_magic st) (st_region st) fd kvm main_conf = Inr m0"
    and i: "initMachine os (st_regs st) (st_sregs st) (st_cmos st) (m0, h3) = Inr (0, m1, h4)"
    and m: "m = m1\<lparr>m_mem := mem\<rparr>"
    using assms(2)
    by (auto simp: main_setup_def vm_initRAM_def kvmCreateVM_def Let_def
        split: prod.splits if_splits option.splits)
  then have m0: "m_devs m0 = []" "m_pio m0 = (\<lambda>_ _. None)" "conf_vcpu_num (m_conf m0) = 1"
    by (auto simp: VM_def Let_def main_conf_def split: if_splits prod.splits)
  from initMachine_success [OF assms(1) i m0(1,2)] show ?thesis
    using bus_inv_new [OF assms(3)] m0(3) by (simp add: m machine_ready_def devices_inv_def)
qed

section \<open>Properties\<close>

text \<open>C1: The whole way from the files to the machine: on a host with KVM that behaves as
  documented, and with a bootable \<^verbatim>\<open>bzImage\<close> and an \<^verbatim>\<open>initramfs\<close> that fit, \<^verbatim>\<open>main\<close> comes to \<^verbatim>\<open>Boot\<close>
  with one vCPU, which will start at 1 MiB, in flat 32-bit protected mode with interrupts off and
  \<open>rsi\<close> at the boot parameters (selectors, descriptor tables and paging as KVM gave them, see
  \<open>vcpu_boot_state\<close>); the memory registered at guest-physical address 0 holds the image of
  the guest, so that the kernel's protected-mode code lies where the vCPU starts; the CPUID leaves
  are the host's, signed; and the ports lead to the three new devices.\<close>

theorem main_boots_guest:
  assumes "kvm_documented os view leaves" "length leaves \<le> 100" "kvm_usable os view"
    and "boot_files files kf initrd"
  shows "\<exists>m h' tables bp v. main_setup os files st h = Inr (Inr m, h') \<and> m_vcpus m = [v]
    \<and> v_regs (hview view h') (vo_fd v)
        = (v_regs (hview view h) (vo_fd v))\<lparr>rip := 0x100000, rsi := 0x10000, rflags := 2\<rparr>
    \<and> flat_protected_mode (v_sregs (hview view h) (vo_fd v)) (v_sregs (hview view h') (vo_fd v))
    \<and> list_all2 signed_as_kvm leaves (v_cpuid (hview view h') (vo_fd v))
    \<and> v_region (hview view h') = Some (guest_region m)
    \<and> gen_ebda 1 (st_mpfp st) = Inr tables \<and> guest_boot_params main_conf initrd kf bp
    \<and> (\<forall>(a, bs) \<in> set (guest_image tables bp (ascii main_cmdline) initrd kf).
          ram_load a (length bs) (vm_ram (m_mem m)) = bs)
    \<and> m_devs m = new_devices (st_cmos st) \<and> m_pio m = machine_pio"
proof -
  obtain m h' tables bp v where "main_setup os files st h = Inr (Inr m, h')"
    "m_vcpus m = [v]" "m_devs m = new_devices (st_cmos st)" "m_pio m = machine_pio" "m_conf m = main_conf"
    "v_regs (hview view h') (vo_fd v) = boot_regs (v_regs (hview view h) (vo_fd v))"
    "v_sregs (hview view h') (vo_fd v) = protected_mode_sregs (v_sregs (hview view h) (vo_fd v))"
    "v_cpuid (hview view h') (vo_fd v) = map sign_entry leaves"
    "v_region (hview view h') = Some (guest_region m)"
    "gen_ebda 1 (st_mpfp st) = Inr tables" "guest_boot_params main_conf initrd kf bp"
    "\<forall>(a, bs) \<in> set (guest_image tables bp (ascii main_cmdline) initrd kf).
       ram_load a (length bs) (vm_ram (m_mem m)) = bs"
    by (rule main_setup_documented [OF assms])
  then show ?thesis
    by (intro exI [of _ m] exI [of _ h'] exI [of _ tables] exI [of _ bp] exI [of _ v])
      (simp add: boot_regs_def protected_mode_flat list_all2_map2 list_all2_same sign_entry_signed)
qed

lemma view_os_usable: "kvm_usable (view_os ls) view_of"
  by (auto simp: kvm_usable_def view_os_def cpuSupportsVM_def cpuid_def vendor_feature_def sample_os_def)

lemma view_os_errno: "errno_positive (view_os ls)"
  unfolding errno_positive_def using view_answer_reply by (fastforce simp: view_os_def)

lemma tiny_boot_files: "boot_files tiny_files tiny_kernel [0x30, 0x37]"
  using tiny_kernel_ok tiny_not_elf by (simp add: boot_files_def tiny_files_def)

definition tiny_stale :: stale where
  "tiny_stale = \<lparr>st_magic = [0, 0, 0, 0], st_region = tiny_region, st_regs = sample_regs,
     st_sregs = sample_sregs, st_cmos = 0, st_mpfp = 0\<rparr>"

theorem main_boots_guest_witness:
  "\<exists>m h' v. main_setup (view_os [leaf_entry 1]) tiny_files tiny_stale view_start = Inr (Inr m, h')
    \<and> m_vcpus m = [v] \<and> rip (v_regs (hview view_of h') (vo_fd v)) = 0x100000 \<and> m_pio m = machine_pio"
  using main_boots_guest [OF view_os_documented _ view_os_usable tiny_boot_files, of "[leaf_entry 1]" tiny_stale view_start]
  by fastforce

text \<open>C2: The program as a whole, on any kernel and for any guest, if the CMOS index, which is not
  initialised, happens to lie in the memory of the CMOS: whatever the machine that \<^verbatim>\<open>main\<close> boots
  goes through, it has at most one vCPU thread and its devices keep their invariants; where it goes
  wrong, it has been in a state of which a thread's \<^verbatim>\<open>KVM_RUN\<close> returned with an exit for port 0xFFFF,
  for which the port table has no row; and when \<^verbatim>\<open>Boot\<close> has returned, the thread has ended with a
  failure, of which the status 0 says nothing.\<close>

theorem main_safe:
  assumes "errno_positive os" "main_setup os files st h = Inr (Inr m, h')" "st_cmos st < 0x80"
    and "boots os m r0 s0 run0 (boot_start m reader out (kern h')) s"
  shows "length (bs_threads s) \<le> 1 \<and> devices_inv (bs_devs s)
    \<and> (\<forall>e. bs_fault s = Some e \<longrightarrow> e = Out_Of_Bounds \<and>
        (\<exists>s1 i q run' h1. boots os m r0 s0 run0 (boot_start m reader out (kern h')) s1 \<and> i < length (bs_threads s1)
           \<and> Run os (th_vcpu (bs_threads s1 ! i)) (th_run (bs_threads s1 ! i),
                \<lparr>kern = bs_kern s1, errno = th_errno (bs_threads s1 ! i)\<rparr>) = (q, run', h1)
           \<and> run_exit_reason run' = KVM_EXIT_IO \<and> run_port run' = 0xFFFF))
    \<and> (\<forall>r. bs_result s = Some r \<longrightarrow> r = 0 \<and> (\<exists>t q. bs_threads s = [t] \<and> th_phase t = T_Done q \<and> q \<noteq> 0))"
proof -
  have m: "machine_ready m" "length (m_vcpus m) = 1" using main_setup_ready [OF assms(1-3)] by auto
  have inv: "boot_inv m s" by (rule boot_inv_reachable [OF m(1) assms(1,4)])
  then have "length (bs_threads s) \<le> 1" "devices_inv (bs_devs s)"
    using m by (simp_all add: boot_inv_def machine_ready_def)
  moreover have "r = 0 \<and> (\<exists>t q. bs_threads s = [t] \<and> th_phase t = T_Done q \<and> q \<noteq> 0)"
    if "bs_result s = Some r" for r
    using boot_results [OF m(1) inv that] m(2) by (auto simp: length_Suc_conv)
  ultimately show ?thesis using boot_faults [OF m(1) assms(1,4)] by simp
qed

theorem main_safe_witness:
  "\<exists>m h'. main_setup (view_os [leaf_entry 1]) tiny_files tiny_stale view_start = Inr (Inr m, h')
    \<and> length (bs_threads (boot_start m True empty_console (kern h'))) \<le> 1
    \<and> devices_inv (bs_devs (boot_start m True empty_console (kern h')))"
proof -
  obtain m h' where m: "main_setup (view_os [leaf_entry 1]) tiny_files tiny_stale view_start = Inr (Inr m, h')"
    by (rule main_setup_documented [OF view_os_documented _ view_os_usable tiny_boot_files, of "[leaf_entry 1]"])
      simp_all
  have "st_cmos tiny_stale < 0x80" by (simp add: tiny_stale_def)
  from main_safe [OF view_os_errno m this rtranclp.rtrancl_refl] m show ?thesis by blast
qed

end
